theory Spec2Isabelle
  imports Main
begin

section \<open>Errors\<close>

text \<open>
  The recipes of \<^verbatim>\<open>VPlanRecipes.cpp\<close> have one way to fail: an internal invariant violation,
  raised by \<^verbatim>\<open>assert\<close>, by \<^verbatim>\<open>llvm_unreachable\<close> or by a checked cast
  (\<^verbatim>\<open>cast<T>\<close> of a value that is not a \<^verbatim>\<open>T\<close>). The model is the build with assertions
  enabled: every such failure is the value \<open>Inl\<close> of the result, carrying the message of the
  source.
\<close>

datatype error =
    AssertionFailed string
  | Unreachable string
  | CastFailed string

section \<open>The original scalar operation, as the effect classifier sees it\<close>

text \<open>
  \<^verbatim>\<open>Instruction::mayWriteToMemory\<close>, \<^verbatim>\<open>mayReadFromMemory\<close> and \<^verbatim>\<open>mayHaveSideEffects\<close> belong
  to the IR library, not to this file: the three answers of the mirrored instruction are
  fields of its view.
\<close>

record Instruction =
  I_mayWriteToMemory :: bool
  I_mayReadFromMemory :: bool
  I_mayHaveSideEffects :: bool

text \<open>
  \<^verbatim>\<open>getUnderlyingValue()\<close> returns a \<^verbatim>\<open>Value *\<close>: null, an instruction or another IR value
  (an argument, a constant).
\<close>

datatype UnderlyingValue =
    IsInstruction Instruction
  | NotAnInstruction

text \<open>The recipe kinds (\<^verbatim>\<open>VPDef::VPRecipeTy\<close>, returned by \<^verbatim>\<open>getVPDefID\<close>).\<close>

datatype VPDefID =
    VPBranchOnMaskSC
  | VPExpandSCEVSC
  | VPInstructionSC
  | VPInterleaveSC
  | VPReductionSC
  | VPReplicateSC
  | VPScalarIVStepsSC
  | VPWidenCallSC
  | VPWidenCanonicalIVSC
  | VPWidenGEPSC
  | VPWidenMemoryInstructionSC
  | VPWidenSC
  | VPWidenSelectSC
  | VPBlendSC
  | VPCanonicalIVPHISC
  | VPFirstOrderRecurrencePHISC
  | VPWidenPHISC
  | VPWidenIntOrFpInductionSC
  | VPWidenPointerInductionSC
  | VPPredInstPHISC
  | VPReductionPHISC

text \<open>
  What the three queries read of a recipe: its kind, the underlying value of its single
  defined value (\<^verbatim>\<open>getVPSingleValue()->getUnderlyingValue()\<close>, \<open>None\<close> for null) and, for a
  widened memory access, whether it is a store.
\<close>

record VPRecipeBase =
  getVPDefID :: VPDefID
  getUnderlyingValue :: "UnderlyingValue option"
  isStore :: bool

text \<open>\<^verbatim>\<open>cast<Instruction>(V)\<close>: fails on null and on a value that is not an instruction.\<close>

definition cast_Instruction :: "UnderlyingValue option \<Rightarrow> error + Instruction" where
  "cast_Instruction V =
     (case V of
        Some (IsInstruction I) \<Rightarrow> Inr I
      | _ \<Rightarrow> Inl (CastFailed ''cast<Instruction>() argument of incompatible type''))"

text \<open>\<^verbatim>\<open>dyn_cast_or_null<Instruction>(V)\<close>: null on null and on a value that is not an instruction.\<close>

definition dyn_cast_or_null_Instruction :: "UnderlyingValue option \<Rightarrow> Instruction option" where
  "dyn_cast_or_null_Instruction V =
     (case V of
        Some (IsInstruction I) \<Rightarrow> Some I
      | _ \<Rightarrow> None)"

section \<open>The effect classifier\<close>

text \<open>
  Each \<^verbatim>\<open>switch\<close> of the three queries has one block shared by several \<^verbatim>\<open>case\<close> labels:
  the block of the labels that delegate to the mirrored instruction, and the block of the
  pure kinds, which asserts that the mirrored instruction (when there is one) has no such
  effect and answers \<^verbatim>\<open>false\<close>. Each block is a definition; the \<^verbatim>\<open>switch\<close> names it once per
  label.
\<close>

definition mayWriteToMemory_delegate :: "VPRecipeBase \<Rightarrow> error + bool" where
  "mayWriteToMemory_delegate R =
     (case cast_Instruction (getUnderlyingValue R) of
        Inl e \<Rightarrow> Inl e
      | Inr I \<Rightarrow> Inr (I_mayWriteToMemory I))"

definition mayWriteToMemory_pure :: "VPRecipeBase \<Rightarrow> error + bool" where
  "mayWriteToMemory_pure R =
     (case dyn_cast_or_null_Instruction (getUnderlyingValue R) of
        None \<Rightarrow> Inr False
      | Some I \<Rightarrow>
          if I_mayWriteToMemory I
          then Inl (AssertionFailed ''underlying instruction may write to memory'')
          else Inr False)"

definition mayWriteToMemory :: "VPRecipeBase \<Rightarrow> error + bool" where
  "mayWriteToMemory R =
     (case getVPDefID R of
        VPWidenMemoryInstructionSC \<Rightarrow> Inr (isStore R)
      | VPReplicateSC \<Rightarrow> mayWriteToMemory_delegate R
      | VPWidenCallSC \<Rightarrow> mayWriteToMemory_delegate R
      | VPBranchOnMaskSC \<Rightarrow> Inr False
      | VPWidenIntOrFpInductionSC \<Rightarrow> mayWriteToMemory_pure R
      | VPWidenCanonicalIVSC \<Rightarrow> mayWriteToMemory_pure R
      | VPWidenPHISC \<Rightarrow> mayWriteToMemory_pure R
      | VPBlendSC \<Rightarrow> mayWriteToMemory_pure R
      | VPWidenSC \<Rightarrow> mayWriteToMemory_pure R
      | VPWidenGEPSC \<Rightarrow> mayWriteToMemory_pure R
      | VPReductionSC \<Rightarrow> mayWriteToMemory_pure R
      | VPWidenSelectSC \<Rightarrow> mayWriteToMemory_pure R
      | _ \<Rightarrow> Inr True)"

definition mayReadFromMemory_delegate :: "VPRecipeBase \<Rightarrow> error + bool" where
  "mayReadFromMemory_delegate R =
     (case cast_Instruction (getUnderlyingValue R) of
        Inl e \<Rightarrow> Inl e
      | Inr I \<Rightarrow> Inr (I_mayReadFromMemory I))"

definition mayReadFromMemory_pure :: "VPRecipeBase \<Rightarrow> error + bool" where
  "mayReadFromMemory_pure R =
     (case dyn_cast_or_null_Instruction (getUnderlyingValue R) of
        None \<Rightarrow> Inr False
      | Some I \<Rightarrow>
          if I_mayReadFromMemory I
          then Inl (AssertionFailed ''underlying instruction may read from memory'')
          else Inr False)"

definition mayReadFromMemory :: "VPRecipeBase \<Rightarrow> error + bool" where
  "mayReadFromMemory R =
     (case getVPDefID R of
        VPWidenMemoryInstructionSC \<Rightarrow> Inr (\<not> isStore R)
      | VPReplicateSC \<Rightarrow> mayReadFromMemory_delegate R
      | VPWidenCallSC \<Rightarrow> mayReadFromMemory_delegate R
      | VPBranchOnMaskSC \<Rightarrow> Inr False
      | VPWidenIntOrFpInductionSC \<Rightarrow> mayReadFromMemory_pure R
      | VPWidenCanonicalIVSC \<Rightarrow> mayReadFromMemory_pure R
      | VPWidenPHISC \<Rightarrow> mayReadFromMemory_pure R
      | VPBlendSC \<Rightarrow> mayReadFromMemory_pure R
      | VPWidenSC \<Rightarrow> mayReadFromMemory_pure R
      | VPWidenGEPSC \<Rightarrow> mayReadFromMemory_pure R
      | VPReductionSC \<Rightarrow> mayReadFromMemory_pure R
      | VPWidenSelectSC \<Rightarrow> mayReadFromMemory_pure R
      | _ \<Rightarrow> Inr True)"

definition mayHaveSideEffects_pure :: "VPRecipeBase \<Rightarrow> error + bool" where
  "mayHaveSideEffects_pure R =
     (case dyn_cast_or_null_Instruction (getUnderlyingValue R) of
        None \<Rightarrow> Inr False
      | Some I \<Rightarrow>
          if I_mayHaveSideEffects I
          then Inl (AssertionFailed ''underlying instruction has side-effects'')
          else Inr False)"

text \<open>
  \<^verbatim>\<open>VPReplicateRecipe::getUnderlyingInstr\<close> is \<^verbatim>\<open>cast<Instruction>(getUnderlyingValue())\<close>.
\<close>

definition mayHaveSideEffects :: "VPRecipeBase \<Rightarrow> error + bool" where
  "mayHaveSideEffects R =
     (case getVPDefID R of
        VPWidenIntOrFpInductionSC \<Rightarrow> mayHaveSideEffects_pure R
      | VPWidenPointerInductionSC \<Rightarrow> mayHaveSideEffects_pure R
      | VPWidenCanonicalIVSC \<Rightarrow> mayHaveSideEffects_pure R
      | VPWidenPHISC \<Rightarrow> mayHaveSideEffects_pure R
      | VPBlendSC \<Rightarrow> mayHaveSideEffects_pure R
      | VPWidenSC \<Rightarrow> mayHaveSideEffects_pure R
      | VPWidenGEPSC \<Rightarrow> mayHaveSideEffects_pure R
      | VPReductionSC \<Rightarrow> mayHaveSideEffects_pure R
      | VPWidenSelectSC \<Rightarrow> mayHaveSideEffects_pure R
      | VPScalarIVStepsSC \<Rightarrow> mayHaveSideEffects_pure R
      | VPReplicateSC \<Rightarrow>
          (case cast_Instruction (getUnderlyingValue R) of
             Inl e \<Rightarrow> Inl e
           | Inr I \<Rightarrow> Inr (I_mayHaveSideEffects I))
      | _ \<Rightarrow> Inr True)"

text \<open>
  The kinds whose label stands on the asserting block of \<^verbatim>\<open>mayWriteToMemory\<close> and of
  \<^verbatim>\<open>mayReadFromMemory\<close> (the two lists are the same), and of \<^verbatim>\<open>mayHaveSideEffects\<close>.
\<close>

definition memoryPureKinds :: "VPDefID list" where
  "memoryPureKinds =
     [VPWidenIntOrFpInductionSC, VPWidenCanonicalIVSC, VPWidenPHISC, VPBlendSC, VPWidenSC,
      VPWidenGEPSC, VPReductionSC, VPWidenSelectSC]"

definition sideEffectPureKinds :: "VPDefID list" where
  "sideEffectPureKinds =
     [VPWidenIntOrFpInductionSC, VPWidenPointerInductionSC, VPWidenCanonicalIVSC, VPWidenPHISC,
      VPBlendSC, VPWidenSC, VPWidenGEPSC, VPReductionSC, VPWidenSelectSC, VPScalarIVStepsSC]"

text \<open>The precondition of the pure kinds: the mirrored instruction, when present, has no effect.\<close>

definition underlyingEffectFree :: "VPRecipeBase \<Rightarrow> bool" where
  "underlyingEffectFree R =
     (case dyn_cast_or_null_Instruction (getUnderlyingValue R) of
        None \<Rightarrow> True
      | Some I \<Rightarrow> \<not> I_mayWriteToMemory I \<and> \<not> I_mayReadFromMemory I \<and> \<not> I_mayHaveSideEffects I)"

section \<open>Recipe blocks: membership\<close>

text \<open>
  A \<^verbatim>\<open>VPBasicBlock\<close> owns an intrusive list (\<^verbatim>\<open>iplist<VPRecipeBase>\<close>) of recipes and every
  recipe holds a \<^verbatim>\<open>Parent\<close> pointer. Recipes and blocks are named by their addresses; the
  store gives the \<^verbatim>\<open>Parent\<close> field of every recipe and the recipe list of every block.
  An iterator obtained from a recipe (\<^verbatim>\<open>getIterator()\<close>) is the recipe's own node.
\<close>

type_synonym VPRecipeRef = nat
type_synonym VPBasicBlockRef = nat

record VPlanStore =
  Parent :: "VPRecipeRef \<Rightarrow> VPBasicBlockRef option"
  getRecipeList :: "VPBasicBlockRef \<Rightarrow> VPRecipeRef list"

text \<open>
  \<^verbatim>\<open>iplist::insert(where, New)\<close>: links \<open>New\<close> in front of the node the iterator \<open>where\<close>
  stands on; the iterator \<^verbatim>\<open>end()\<close> is \<open>None\<close>.
\<close>

fun ilist_insert :: "'a option \<Rightarrow> 'a \<Rightarrow> 'a list \<Rightarrow> 'a list" where
  "ilist_insert wh New [] = [New]"
| "ilist_insert wh New (x # xs) =
     (if wh = Some x then New # x # xs else x # ilist_insert wh New xs)"

text \<open>\<^verbatim>\<open>iplist::insertAfter(where, New)\<close>: links \<open>New\<close> behind the node \<open>where\<close>.\<close>

fun ilist_insertAfter :: "'a option \<Rightarrow> 'a \<Rightarrow> 'a list \<Rightarrow> 'a list" where
  "ilist_insertAfter wh New [] = [New]"
| "ilist_insertAfter wh New (x # xs) =
     (if wh = Some x then x # New # xs else x # ilist_insertAfter wh New xs)"

text \<open>\<^verbatim>\<open>iplist::remove(IT)\<close>: unlinks the node, which stays alive.\<close>

fun ilist_remove :: "'a \<Rightarrow> 'a list \<Rightarrow> 'a list" where
  "ilist_remove n [] = []"
| "ilist_remove n (x # xs) = (if x = n then xs else x # ilist_remove n xs)"

definition insertBefore :: "VPRecipeRef \<Rightarrow> VPRecipeRef \<Rightarrow> VPlanStore \<Rightarrow> error + VPlanStore" where
  "insertBefore this InsertPos s =
     (if Parent s this \<noteq> None then Inl (AssertionFailed ''Recipe already in some VPBasicBlock'')
      else
        case Parent s InsertPos of
          None \<Rightarrow> Inl (AssertionFailed ''Insertion position not in any VPBasicBlock'')
        | Some BB \<Rightarrow>
            Inr (s\<lparr>Parent := (Parent s)(this := Some BB),
                   getRecipeList :=
                     (getRecipeList s)(BB := ilist_insert (Some InsertPos) this (getRecipeList s BB))\<rparr>))"

definition insertAfter :: "VPRecipeRef \<Rightarrow> VPRecipeRef \<Rightarrow> VPlanStore \<Rightarrow> error + VPlanStore" where
  "insertAfter this InsertPos s =
     (if Parent s this \<noteq> None then Inl (AssertionFailed ''Recipe already in some VPBasicBlock'')
      else
        case Parent s InsertPos of
          None \<Rightarrow> Inl (AssertionFailed ''Insertion position not in any VPBasicBlock'')
        | Some BB \<Rightarrow>
            Inr (s\<lparr>Parent := (Parent s)(this := Some BB),
                   getRecipeList :=
                     (getRecipeList s)(BB := ilist_insertAfter (Some InsertPos) this (getRecipeList s BB))\<rparr>))"

definition removeFromParent :: "VPRecipeRef \<Rightarrow> VPlanStore \<Rightarrow> error + VPlanStore" where
  "removeFromParent this s =
     (case Parent s this of
        None \<Rightarrow> Inl (AssertionFailed ''Recipe not in any VPBasicBlock'')
      | Some BB \<Rightarrow>
          Inr (s\<lparr>getRecipeList := (getRecipeList s)(BB := ilist_remove this (getRecipeList s BB)),
                 Parent := (Parent s)(this := None)\<rparr>))"

text \<open>\<^verbatim>\<open>moveAfter\<close> is \<^verbatim>\<open>removeFromParent\<close> followed by \<^verbatim>\<open>insertAfter\<close>.\<close>

definition moveAfter :: "VPRecipeRef \<Rightarrow> VPRecipeRef \<Rightarrow> VPlanStore \<Rightarrow> error + VPlanStore" where
  "moveAfter this InsertPos s =
     (case removeFromParent this s of
        Inl e \<Rightarrow> Inl e
      | Inr s' \<Rightarrow> insertAfter this InsertPos s')"

text \<open>
  The invariant of the intrusive list: a recipe is linked into the list of a block exactly
  when that block is its parent, and it is linked once.
\<close>

definition linked :: "VPlanStore \<Rightarrow> bool" where
  "linked s =
     ((\<forall>r BB. (Parent s r = Some BB) = (r \<in> set (getRecipeList s BB))) \<and>
      (\<forall>BB. distinct (getRecipeList s BB)))"

text \<open>Two calls in sequence; the second does not run when the first fails.\<close>

definition andThen :: "error + 'a \<Rightarrow> ('a \<Rightarrow> error + 'b) \<Rightarrow> error + 'b" where
  "andThen r f = (case r of Inl e \<Rightarrow> Inl e | Inr x \<Rightarrow> f x)"

section \<open>The target code under construction\<close>

text \<open>
  The lowering procedures emit target operations through an emitter (\<^verbatim>\<open>IRBuilder\<close>) into
  the function under construction. The emitter, the IR types and the IR values belong to
  the IR library, not to \<^verbatim>\<open>VPlanRecipes.cpp\<close>; this section models what the recipes use of
  them.
\<close>

type_synonym BasicBlock = nat
type_synonym DebugLoc = nat

text \<open>\<^verbatim>\<open>ElementCount\<close>: a number of lanes, fixed or a multiple of the run-time \<^verbatim>\<open>vscale\<close>.\<close>

datatype ElementCount = ElementCount (getKnownMinValue: nat) (isScalable: bool)

definition isScalar :: "ElementCount \<Rightarrow> bool" where
  "isScalar EC = (\<not> isScalable EC \<and> getKnownMinValue EC = 1)"

definition isVector :: "ElementCount \<Rightarrow> bool" where
  "isVector EC = ((isScalable EC \<and> getKnownMinValue EC \<noteq> 0) \<or> getKnownMinValue EC > 1)"

datatype Type =
    IntegerTy nat
  | FloatingPointTy
  | PointerTy
  | VoidTy
  | VectorTy Type ElementCount

fun isVectorTy :: "Type \<Rightarrow> bool" where
  "isVectorTy (VectorTy T EC) = True"
| "isVectorTy T = False"

fun isIntegerTy :: "Type \<Rightarrow> bool" where
  "isIntegerTy (IntegerTy w) = True"
| "isIntegerTy T = False"

fun getScalarType :: "Type \<Rightarrow> Type" where
  "getScalarType (VectorTy T EC) = T"
| "getScalarType T = T"

record FastMathFlags =
  AllowReassoc :: bool
  NoNaNs :: bool
  NoInfs :: bool
  NoSignedZeros :: bool
  AllowReciprocal :: bool
  AllowContract :: bool
  ApproxFunc :: bool

definition noFastMathFlags :: FastMathFlags where
  "noFastMathFlags =
     \<lparr>AllowReassoc = False, NoNaNs = False, NoInfs = False, NoSignedZeros = False,
      AllowReciprocal = False, AllowContract = False, ApproxFunc = False\<rparr>"

text \<open>
  The numeric-safety flags an instruction can carry: the no-overflow flags, the exact flag
  and the fast-math flags.
\<close>

record IRFlags =
  HasNoUnsignedWrap :: bool
  HasNoSignedWrap :: bool
  IsExact :: bool
  FastFlags :: FastMathFlags

definition noIRFlags :: IRFlags where
  "noIRFlags =
     \<lparr>HasNoUnsignedWrap = False, HasNoSignedWrap = False, IsExact = False,
      FastFlags = noFastMathFlags\<rparr>"

datatype BinaryOps =
    Add | FAdd | Sub | FSub | Mul | FMul | UDiv | SDiv | FDiv | URem | SRem | FRem
  | Shl | LShr | AShr | And | Or | Xor

datatype CastOps =
    Trunc | ZExt | SExt | FPToUI | FPToSI | UIToFP | SIToFP | FPTrunc | FPExt
  | PtrToInt | IntToPtr | BitCast | AddrSpaceCast

text \<open>
  Opcodes: those of \<^verbatim>\<open>llvm::Instruction\<close> (the binary operators and the casts are ranges of
  the enumeration, tested by \<^verbatim>\<open>Instruction::isBinaryOp\<close> and \<^verbatim>\<open>isCast\<close>), followed by the
  opcodes \<^verbatim>\<open>VPInstruction\<close> adds.
\<close>

datatype Opcode =
    BinaryOp BinaryOps
  | FNeg
  | Cast CastOps
  | Call | Br | PHI | GetElementPtr | Select | Freeze | ICmp | FCmp | Load | Store
  | OtherInstructionOpcode nat
  | VPNot
  | ICmpULE
  | SLPLoad
  | SLPStore
  | ActiveLaneMask
  | FirstOrderRecurrenceSplice
  | CanonicalIVIncrement
  | CanonicalIVIncrementNUW
  | BranchOnCond
  | BranchOnCount

datatype Predicate = ICMP_EQ | ICMP_ULE | OtherPredicate nat

datatype ConstantInt = ConstantInt (getBitWidth: nat) (getZExtValue: nat)

text \<open>\<^verbatim>\<open>ConstantInt::get(Ty, V)\<close> for an integer type of \<open>w\<close> bits: the value is truncated.\<close>

definition ConstantInt_get :: "nat \<Rightarrow> int \<Rightarrow> ConstantInt" where
  "ConstantInt_get w V = ConstantInt w (nat (V mod 2 ^ w))"

definition isZero :: "ConstantInt \<Rightarrow> bool" where
  "isZero C = (getZExtValue C = 0)"

definition isOne :: "ConstantInt \<Rightarrow> bool" where
  "isOne C = (getZExtValue C = 1)"

datatype ConstantFP = FP_Zero | FP_NegZero | FP_One | FP_Inf | FP_NegInf

text \<open>
  An IR value (\<^verbatim>\<open>Value *\<close>). Constants are uniqued, so a constant is its content. An
  instruction of the function under construction is named by its address (its index in the
  table of the function) and carries its type, which is fixed at its creation. Every other
  value defined outside the code under construction (an argument, a global, an instruction
  of the original loop's surroundings) is an \<open>ArgumentVal\<close>.
\<close>

datatype "Value" =
    ConstantIntVal ConstantInt
  | ConstantFPVal ConstantFP
  | PoisonValueVal Type
  | ArgumentVal nat Type
  | InstructionVal nat Type

fun getType :: "Value \<Rightarrow> Type" where
  "getType (ConstantIntVal C) = IntegerTy (getBitWidth C)"
| "getType (ConstantFPVal C) = FloatingPointTy"
| "getType (PoisonValueVal T) = T"
| "getType (ArgumentVal n T) = T"
| "getType (InstructionVal a T) = T"

text \<open>
  Modelled from the spec: the operations the target-code emitter constructs (section 6:
  binary, unary, cast, compare, select, branch, phi, vector-splat, vector-splice,
  vector-step, intrinsic-call construction). One construction is one operation of the
  function under construction; the emitter's constant folding is not modelled.
\<close>

datatype Operation =
    BinOp BinaryOps
  | FNegOp
  | NotOp
  | ICmpOp Predicate
  | FCmpOp Predicate
  | SelectOp
  | CastOp CastOps
  | FreezeOp
  | PHIOp
  | CondBrOp
  | UnreachableOp
  | VectorSplatOp
  | StepVectorOp
  | VectorSpliceOp int
  | InsertElementOp
  | ExtractElementOp
  | VScaleOp
  | IntrinsicOp string
  | OtherOp nat

record IRInstruction =
  Operation :: Operation
  Operands :: "Value list"
  ResultTy :: Type
  Flags :: IRFlags
  Name :: string
  DbgLoc :: DebugLoc
  Incoming :: "(Value \<times> BasicBlock) list"
  Successors :: "BasicBlock option list"
  Metadata :: "nat list"

definition newInstruction :: "Operation \<Rightarrow> Value list \<Rightarrow> Type \<Rightarrow> string \<Rightarrow> IRInstruction" where
  "newInstruction Op Ops T Nm =
     \<lparr>Operation = Op, Operands = Ops, ResultTy = T, Flags = noIRFlags, Name = Nm, DbgLoc = 0,
      Incoming = [], Successors = [], Metadata = []\<rparr>"

text \<open>
  The function under construction: the table of its instructions (an instruction's address
  is its index) and, for every basic block, the addresses of its instructions in order.
\<close>

record Function =
  Insts :: "IRInstruction list"
  BlockInsts :: "BasicBlock \<Rightarrow> nat list"

text \<open>
  The emitter: its insertion point (a block and an iterator into it, \<open>None\<close> for the end of
  the block), its fast-math flags and its current debug location.
\<close>

record IRBuilder =
  InsertBlock :: BasicBlock
  InsertPt :: "nat option"
  B_FMF :: FastMathFlags
  CurrentDebugLocation :: DebugLoc

text \<open>
  \<^verbatim>\<open>IRBuilder::Insert\<close>: the new instruction gets the next address, the emitter's debug
  location, and is linked in front of the insertion point.
\<close>

definition Insert :: "IRBuilder \<Rightarrow> IRInstruction \<Rightarrow> Function \<Rightarrow> Value \<times> Function" where
  "Insert B I F =
     (InstructionVal (length (Insts F)) (ResultTy I),
      F\<lparr>Insts := Insts F @ [I\<lparr>DbgLoc := CurrentDebugLocation B\<rparr>],
        BlockInsts := (BlockInsts F)
          (InsertBlock B := ilist_insert (InsertPt B) (length (Insts F))
             (BlockInsts F (InsertBlock B)))\<rparr>)"

text \<open>An instruction created at a given place of a block (\<^verbatim>\<open>PHINode::Create(..., InsertBefore)\<close>).\<close>

definition InsertAt :: "BasicBlock \<Rightarrow> nat option \<Rightarrow> IRInstruction \<Rightarrow> Function \<Rightarrow> Value \<times> Function" where
  "InsertAt BB Pt I F =
     (InstructionVal (length (Insts F)) (ResultTy I),
      F\<lparr>Insts := Insts F @ [I],
        BlockInsts := (BlockInsts F)(BB := ilist_insert Pt (length (Insts F)) (BlockInsts F BB))\<rparr>)"

fun isFPBinaryOp :: "BinaryOps \<Rightarrow> bool" where
  "isFPBinaryOp FAdd = True"
| "isFPBinaryOp FSub = True"
| "isFPBinaryOp FMul = True"
| "isFPBinaryOp FDiv = True"
| "isFPBinaryOp FRem = True"
| "isFPBinaryOp bop = False"

text \<open>A floating-point operation gets the emitter's fast-math flags at its creation.\<close>

definition setFPAttrs :: "IRBuilder \<Rightarrow> IRInstruction \<Rightarrow> IRInstruction" where
  "setFPAttrs B I = I\<lparr>Flags := (Flags I)\<lparr>FastFlags := B_FMF B\<rparr>\<rparr>"

definition CreateBinOp ::
  "IRBuilder \<Rightarrow> BinaryOps \<Rightarrow> Value \<Rightarrow> Value \<Rightarrow> Function \<Rightarrow> Value \<times> Function" where
  "CreateBinOp B Opc LHS RHS F =
     (let I = newInstruction (BinOp Opc) [LHS, RHS] (getType LHS) ''''
      in Insert B (if isFPBinaryOp Opc then setFPAttrs B I else I) F)"

definition CreateFNeg :: "IRBuilder \<Rightarrow> Value \<Rightarrow> Function \<Rightarrow> Value \<times> Function" where
  "CreateFNeg B V F = Insert B (setFPAttrs B (newInstruction FNegOp [V] (getType V) '''')) F"

text \<open>
  \<^verbatim>\<open>CreateNAryOp\<close>: a binary operator takes two operands, a unary one takes one; no other
  opcode is accepted.
\<close>

definition CreateNAryOp ::
  "IRBuilder \<Rightarrow> Opcode \<Rightarrow> Value list \<Rightarrow> Function \<Rightarrow> error + Value \<times> Function" where
  "CreateNAryOp B Opc Ops F =
     (case Opc of
        BinaryOp bop \<Rightarrow>
          (case Ops of
             [LHS, RHS] \<Rightarrow> Inr (CreateBinOp B bop LHS RHS F)
           | _ \<Rightarrow> Inl (AssertionFailed ''Invalid number of operands!''))
      | FNeg \<Rightarrow>
          (case Ops of
             [V] \<Rightarrow> Inr (CreateFNeg B V F)
           | _ \<Rightarrow> Inl (AssertionFailed ''Invalid number of operands!''))
      | _ \<Rightarrow> Inl (Unreachable ''Unexpected opcode!''))"

definition CreateAdd ::
  "IRBuilder \<Rightarrow> Value \<Rightarrow> Value \<Rightarrow> string \<Rightarrow> bool \<Rightarrow> bool \<Rightarrow> Function \<Rightarrow> Value \<times> Function" where
  "CreateAdd B LHS RHS Nm HasNUW HasNSW F =
     Insert B ((newInstruction (BinOp Add) [LHS, RHS] (getType LHS) Nm)
       \<lparr>Flags := noIRFlags\<lparr>HasNoUnsignedWrap := HasNUW, HasNoSignedWrap := HasNSW\<rparr>\<rparr>) F"

definition CreateNot :: "IRBuilder \<Rightarrow> Value \<Rightarrow> Function \<Rightarrow> Value \<times> Function" where
  "CreateNot B V F = Insert B (newInstruction NotOp [V] (getType V) '''') F"

text \<open>The type of the result of a comparison: \<^verbatim>\<open>i1\<close>, or a vector of \<^verbatim>\<open>i1\<close> of the operand's shape.\<close>

fun makeCmpResultType :: "Type \<Rightarrow> Type" where
  "makeCmpResultType (VectorTy T EC) = VectorTy (IntegerTy 1) EC"
| "makeCmpResultType T = IntegerTy 1"

definition CreateICmp ::
  "IRBuilder \<Rightarrow> Predicate \<Rightarrow> Value \<Rightarrow> Value \<Rightarrow> Function \<Rightarrow> Value \<times> Function" where
  "CreateICmp B P LHS RHS F =
     Insert B (newInstruction (ICmpOp P) [LHS, RHS] (makeCmpResultType (getType LHS)) '''') F"

definition CreateFCmp ::
  "IRBuilder \<Rightarrow> Predicate \<Rightarrow> Value \<Rightarrow> Value \<Rightarrow> Function \<Rightarrow> Value \<times> Function" where
  "CreateFCmp B P LHS RHS F =
     Insert B (setFPAttrs B
       (newInstruction (FCmpOp P) [LHS, RHS] (makeCmpResultType (getType LHS)) '''')) F"

definition CreateSelect ::
  "IRBuilder \<Rightarrow> Value \<Rightarrow> Value \<Rightarrow> Value \<Rightarrow> Function \<Rightarrow> Value \<times> Function" where
  "CreateSelect B C T E F =
     (let I = newInstruction SelectOp [C, T, E] (getType T) ''''
      in Insert B (if getScalarType (getType T) = FloatingPointTy then setFPAttrs B I else I) F)"

definition CreateFreeze :: "IRBuilder \<Rightarrow> Value \<Rightarrow> Function \<Rightarrow> Value \<times> Function" where
  "CreateFreeze B V F = Insert B (newInstruction FreezeOp [V] (getType V) '''') F"

definition CreateCast ::
  "IRBuilder \<Rightarrow> CastOps \<Rightarrow> Value \<Rightarrow> Type \<Rightarrow> Function \<Rightarrow> Value \<times> Function" where
  "CreateCast B Opc V DestTy F = Insert B (newInstruction (CastOp Opc) [V] DestTy '''') F"

definition CreateVectorSplat ::
  "IRBuilder \<Rightarrow> ElementCount \<Rightarrow> Value \<Rightarrow> string \<Rightarrow> Function \<Rightarrow> Value \<times> Function" where
  "CreateVectorSplat B EC V Nm F =
     Insert B (newInstruction VectorSplatOp [V] (VectorTy (getType V) EC) Nm) F"

text \<open>\<^verbatim>\<open>CreateStepVector(DstType)\<close>: the lane-index ramp 0, 1, 2, ... of an integer vector type.\<close>

definition CreateStepVector :: "IRBuilder \<Rightarrow> Type \<Rightarrow> Function \<Rightarrow> error + Value \<times> Function" where
  "CreateStepVector B DstType F =
     (if isVectorTy DstType \<and> isIntegerTy (getScalarType DstType)
      then Inr (Insert B (newInstruction StepVectorOp [] DstType '''') F)
      else Inl (AssertionFailed ''Expected an integer vector type''))"

definition CreateVectorSplice ::
  "IRBuilder \<Rightarrow> Value \<Rightarrow> Value \<Rightarrow> int \<Rightarrow> Function \<Rightarrow> error + Value \<times> Function" where
  "CreateVectorSplice B V1 V2 Imm F =
     (if \<not> isVectorTy (getType V1) then Inl (AssertionFailed ''Unexpected type'')
      else if getType V1 \<noteq> getType V2
      then Inl (AssertionFailed ''Splice expects matching operand types!'')
      else Inr (Insert B (newInstruction (VectorSpliceOp Imm) [V1, V2] (getType V1) '''') F))"

definition CreateInsertElement ::
  "IRBuilder \<Rightarrow> Value \<Rightarrow> Value \<Rightarrow> Value \<Rightarrow> string \<Rightarrow> Function \<Rightarrow> Value \<times> Function" where
  "CreateInsertElement B Vec NewElt Idx Nm F =
     Insert B (newInstruction InsertElementOp [Vec, NewElt, Idx] (getType Vec) Nm) F"

definition CreateExtractElement ::
  "IRBuilder \<Rightarrow> Value \<Rightarrow> Value \<Rightarrow> Function \<Rightarrow> Value \<times> Function" where
  "CreateExtractElement B Vec Idx F =
     Insert B (newInstruction ExtractElementOp [Vec, Idx] (getScalarType (getType Vec)) '''') F"

text \<open>\<^verbatim>\<open>CreateVScale(Scaling)\<close>: the run-time \<^verbatim>\<open>vscale\<close> multiplied by the constant \<open>Scaling\<close>.\<close>

definition CreateVScale :: "IRBuilder \<Rightarrow> Value \<Rightarrow> Function \<Rightarrow> Value \<times> Function" where
  "CreateVScale B Scaling F =
     Insert B (newInstruction VScaleOp [Scaling] (getType Scaling) '''') F"

definition CreateIntrinsic ::
  "IRBuilder \<Rightarrow> string \<Rightarrow> Type \<Rightarrow> Value list \<Rightarrow> string \<Rightarrow> Function \<Rightarrow> Value \<times> Function" where
  "CreateIntrinsic B ID RetTy Args Nm F =
     Insert B (newInstruction (IntrinsicOp ID) Args RetTy Nm) F"

definition CreateCondBr ::
  "IRBuilder \<Rightarrow> Value \<Rightarrow> BasicBlock option \<Rightarrow> BasicBlock option \<Rightarrow> Function \<Rightarrow> Value \<times> Function" where
  "CreateCondBr B Cond T E F =
     Insert B ((newInstruction CondBrOp [Cond] VoidTy '''')\<lparr>Successors := [T, E]\<rparr>) F"

definition CreatePHI :: "IRBuilder \<Rightarrow> Type \<Rightarrow> string \<Rightarrow> Function \<Rightarrow> Value \<times> Function" where
  "CreatePHI B T Nm F = Insert B (newInstruction PHIOp [] T Nm) F"

text \<open>Address of an instruction value; a value that is no instruction has none.\<close>

fun dyn_cast_InstructionVal :: "Value \<Rightarrow> nat option" where
  "dyn_cast_InstructionVal (InstructionVal a T) = Some a"
| "dyn_cast_InstructionVal V = None"

text \<open>In-place changes of an instruction of the table.\<close>

definition updateInst :: "nat \<Rightarrow> (IRInstruction \<Rightarrow> IRInstruction) \<Rightarrow> Function \<Rightarrow> Function" where
  "updateInst a f F =
     (if a < length (Insts F) then F\<lparr>Insts := (Insts F)[a := f (Insts F ! a)]\<rparr> else F)"

definition setSuccessor :: "nat \<Rightarrow> BasicBlock option \<Rightarrow> IRInstruction \<Rightarrow> IRInstruction" where
  "setSuccessor i BB I = I\<lparr>Successors := (Successors I)[i := BB]\<rparr>"

definition addIncoming :: "Value \<Rightarrow> BasicBlock \<Rightarrow> IRInstruction \<Rightarrow> IRInstruction" where
  "addIncoming V BB I = I\<lparr>Incoming := Incoming I @ [(V, BB)]\<rparr>"

fun isTerminator :: "Operation \<Rightarrow> bool" where
  "isTerminator CondBrOp = True"
| "isTerminator UnreachableOp = True"
| "isTerminator Op = False"

text \<open>
  \<^verbatim>\<open>BasicBlock::getTerminator\<close>: the last instruction of the block when it is a terminator,
  null otherwise.
\<close>

definition getTerminator :: "Function \<Rightarrow> BasicBlock \<Rightarrow> nat option" where
  "getTerminator F BB =
     (case rev (BlockInsts F BB) of
        [] \<Rightarrow> None
      | a # as \<Rightarrow>
          if a < length (Insts F) \<and> isTerminator (Operation (Insts F ! a)) then Some a else None)"

text \<open>
  \<^verbatim>\<open>BasicBlock::getFirstInsertionPt\<close>: the first instruction of the block that is not a phi
  (the end of the block when there is none).
\<close>

definition isPHI :: "Function \<Rightarrow> nat \<Rightarrow> bool" where
  "isPHI F a = (a < length (Insts F) \<and> Operation (Insts F ! a) = PHIOp)"

definition getFirstInsertionPt :: "Function \<Rightarrow> BasicBlock \<Rightarrow> nat option" where
  "getFirstInsertionPt F BB =
     (case dropWhile (isPHI F) (BlockInsts F BB) of [] \<Rightarrow> None | a # as \<Rightarrow> Some a)"

definition eraseFromParent_Inst :: "nat \<Rightarrow> BasicBlock \<Rightarrow> Function \<Rightarrow> Function" where
  "eraseFromParent_Inst a BB F = F\<lparr>BlockInsts := (BlockInsts F)(BB := ilist_remove a (BlockInsts F BB))\<rparr>"

section \<open>The execution state\<close>

type_synonym VPValueRef = nat
type_synonym VPBlockRef = nat

text \<open>
  \<^verbatim>\<open>VPTransformState\<close>, with the function under construction. \<^verbatim>\<open>Instance\<close> is the (stream,
  lane) pair being generated when a recipe is replicated per lane. The value cache
  \<^verbatim>\<open>Data.PerPartOutput\<close> maps a plan value and a stream to the generated value, and
  \<^verbatim>\<open>Data.PerPartScalars\<close> maps a plan value, a stream and a lane to a generated scalar.
  \<^verbatim>\<open>PreheaderBB\<close> is the answer of \<^verbatim>\<open>CFG.getPreheaderBBFor\<close> and \<^verbatim>\<open>CurrentVectorLoopHeader\<close>
  the one of \<^verbatim>\<open>CurrentVectorLoop->getHeader()\<close>.
\<close>

record VPTransformState =
  VF :: ElementCount
  UF :: nat
  Instance :: "(nat \<times> nat) option"
  PerPartOutput :: "VPValueRef \<times> nat \<Rightarrow> Value option"
  PerPartScalars :: "VPValueRef \<times> nat \<times> nat \<Rightarrow> Value option"
  Builder :: IRBuilder
  Fn :: Function
  PrevBB :: BasicBlock
  VPBB2IRBB :: "VPBlockRef \<Rightarrow> BasicBlock option"
  PreheaderBB :: BasicBlock
  CurrentVectorLoopHeader :: BasicBlock
  MayGeneratePoisonRecipes :: "VPRecipeRef set"

text \<open>
  Modelled from the spec: \<^verbatim>\<open>VPTransformState::set\<close> and \<^verbatim>\<open>VPTransformState::get\<close>, declared
  in \<^verbatim>\<open>VPlan.h\<close> (section 3: a value cache mapping (plan value, stream index) to the
  generated operand, with a per-lane entry when a value is produced per lane). \<open>State_get\<close>
  reads the entry of a stream; an operand that has no entry is an invariant violation here
  (materialising a loop-invariant input on demand is the work of the driver).
\<close>

definition State_set :: "VPValueRef \<Rightarrow> Value \<Rightarrow> nat \<Rightarrow> VPTransformState \<Rightarrow> VPTransformState" where
  "State_set Def V Part S = S\<lparr>PerPartOutput := (PerPartOutput S)((Def, Part) \<mapsto> V)\<rparr>"

definition State_get :: "VPTransformState \<Rightarrow> VPValueRef \<Rightarrow> nat \<Rightarrow> error + Value" where
  "State_get S Def Part =
     (case PerPartOutput S (Def, Part) of
        Some V \<Rightarrow> Inr V
      | None \<Rightarrow> Inl (AssertionFailed ''no generated value for this part''))"

text \<open>
  The per-lane read: the cached scalar when there is one; otherwise the value of the
  stream, itself when it is not vector-shaped, else one lane extracted from it.
\<close>

definition State_getLane ::
  "VPTransformState \<Rightarrow> VPValueRef \<Rightarrow> nat \<Rightarrow> nat \<Rightarrow> error + Value \<times> VPTransformState" where
  "State_getLane S Def Part Lane =
     (case PerPartScalars S (Def, Part, Lane) of
        Some V \<Rightarrow> Inr (V, S)
      | None \<Rightarrow>
          (case PerPartOutput S (Def, Part) of
             None \<Rightarrow> Inl (AssertionFailed ''no generated value for this part'')
           | Some VecPart \<Rightarrow>
               if \<not> isVectorTy (getType VecPart)
               then (if Lane = 0 then Inr (VecPart, S)
                     else Inl (AssertionFailed ''cannot get lane > 0 for scalar''))
               else
                 (case CreateExtractElement (Builder S) VecPart
                         (ConstantIntVal (ConstantInt_get 32 (int Lane))) (Fn S) of
                    (Extract, F') \<Rightarrow> Inr (Extract, S\<lparr>Fn := F'\<rparr>))))"

text \<open>
  Modelled from the spec: \<^verbatim>\<open>createStepForVF(B, Ty, VF, Step)\<close>, declared in \<^verbatim>\<open>VPlan.h\<close> and
  defined outside this file: a value for \<open>Step\<close> multiplied by \<open>VF\<close> (section 4.5: the
  increment of the canonical induction is \<open>vectorWidth * unrollCount\<close>, built by the call
  \<^verbatim>\<open>createStepForVF(Builder, Ty, State.VF, State.UF)\<close>, whose comment in the source reads
  "the loop step is equal to the vectorization factor times the unroll factor"). For a
  scalable width the constant is multiplied by the run-time \<^verbatim>\<open>vscale\<close>.
\<close>

definition createStepForVF ::
  "IRBuilder \<Rightarrow> Type \<Rightarrow> ElementCount \<Rightarrow> nat \<Rightarrow> Function \<Rightarrow> error + Value \<times> Function" where
  "createStepForVF B Ty EC Step F =
     (case Ty of
        IntegerTy w \<Rightarrow>
          (let StepVal = ConstantIntVal (ConstantInt_get w (int (Step * getKnownMinValue EC)))
           in if isScalable EC then Inr (CreateVScale B StepVal F) else Inr (StepVal, F))
      | _ \<Rightarrow> Inl (AssertionFailed ''Expected an integer step''))"

section \<open>VPInstruction\<close>

text \<open>
  A \<^verbatim>\<open>VPInstruction\<close>: the plan value it defines (the key of its cache entries), its opcode,
  its operands, its fast-math flags and its debug location. The last three fields are what
  the branch opcodes read of the plan around the recipe: whether its block is exiting
  (\<^verbatim>\<open>getParent()->isExiting()\<close>), the entry block of the region of its block
  (\<^verbatim>\<open>getParent()->getParent()->getEntryBasicBlock()\<close>) and the header of the vector loop region
  of its plan.
\<close>

record VPInstruction =
  VPI_Def :: VPValueRef
  VPI_Opcode :: Opcode
  VPI_operands :: "VPValueRef list"
  VPI_FMF :: FastMathFlags
  VPI_DL :: DebugLoc
  VPI_ParentIsExiting :: bool
  VPI_RegionEntry :: VPBlockRef
  VPI_VectorLoopHeader :: VPBlockRef

definition getOperand :: "VPValueRef list \<Rightarrow> nat \<Rightarrow> error + VPValueRef" where
  "getOperand Ops N =
     (if N < length Ops then Inr (Ops ! N)
      else Inl (AssertionFailed ''Operand index out of bound''))"

text \<open>\<^verbatim>\<open>State.get(getOperand(N), Part)\<close>.\<close>

definition getOperandValue ::
  "VPTransformState \<Rightarrow> VPValueRef list \<Rightarrow> nat \<Rightarrow> nat \<Rightarrow> error + Value" where
  "getOperandValue S Ops N Part = andThen (getOperand Ops N) (\<lambda>Op. State_get S Op Part)"

text \<open>The blocks of \<^verbatim>\<open>generateInstruction\<close>, one per opcode of its \<^verbatim>\<open>switch\<close>.\<close>

definition generate_BinaryOp ::
  "VPInstruction \<Rightarrow> BinaryOps \<Rightarrow> VPTransformState \<Rightarrow> nat \<Rightarrow> error + VPTransformState" where
  "generate_BinaryOp this bop S Part =
     andThen (getOperandValue S (VPI_operands this) 0 Part) (\<lambda>A.
     andThen (getOperandValue S (VPI_operands this) 1 Part) (\<lambda>B.
       case CreateBinOp (Builder S) bop A B (Fn S) of
         (V, F') \<Rightarrow> Inr (State_set (VPI_Def this) V Part (S\<lparr>Fn := F'\<rparr>))))"

definition generate_Not ::
  "VPInstruction \<Rightarrow> VPTransformState \<Rightarrow> nat \<Rightarrow> error + VPTransformState" where
  "generate_Not this S Part =
     andThen (getOperandValue S (VPI_operands this) 0 Part) (\<lambda>A.
       case CreateNot (Builder S) A (Fn S) of
         (V, F') \<Rightarrow> Inr (State_set (VPI_Def this) V Part (S\<lparr>Fn := F'\<rparr>)))"

definition generate_ICmpULE ::
  "VPInstruction \<Rightarrow> VPTransformState \<Rightarrow> nat \<Rightarrow> error + VPTransformState" where
  "generate_ICmpULE this S Part =
     andThen (getOperandValue S (VPI_operands this) 0 Part) (\<lambda>IV.
     andThen (getOperandValue S (VPI_operands this) 1 Part) (\<lambda>TC.
       case CreateICmp (Builder S) ICMP_ULE IV TC (Fn S) of
         (V, F') \<Rightarrow> Inr (State_set (VPI_Def this) V Part (S\<lparr>Fn := F'\<rparr>))))"

definition generate_Select ::
  "VPInstruction \<Rightarrow> VPTransformState \<Rightarrow> nat \<Rightarrow> error + VPTransformState" where
  "generate_Select this S Part =
     andThen (getOperandValue S (VPI_operands this) 0 Part) (\<lambda>Cond.
     andThen (getOperandValue S (VPI_operands this) 1 Part) (\<lambda>Op1.
     andThen (getOperandValue S (VPI_operands this) 2 Part) (\<lambda>Op2.
       case CreateSelect (Builder S) Cond Op1 Op2 (Fn S) of
         (V, F') \<Rightarrow> Inr (State_set (VPI_Def this) V Part (S\<lparr>Fn := F'\<rparr>)))))"

definition generate_ActiveLaneMask ::
  "VPInstruction \<Rightarrow> VPTransformState \<Rightarrow> nat \<Rightarrow> error + VPTransformState" where
  "generate_ActiveLaneMask this S Part =
     andThen (getOperand (VPI_operands this) 0) (\<lambda>Op0.
     andThen (State_getLane S Op0 Part 0) (\<lambda>(VIVElem0, S1).
     andThen (getOperandValue S1 (VPI_operands this) 1 Part) (\<lambda>ScalarTC.
       case CreateIntrinsic (Builder S1) ''get_active_lane_mask''
              (VectorTy (IntegerTy 1) (VF S1)) [VIVElem0, ScalarTC] ''active.lane.mask'' (Fn S1) of
         (CallI, F') \<Rightarrow> Inr (State_set (VPI_Def this) CallI Part (S1\<lparr>Fn := F'\<rparr>)))))"

definition generate_FirstOrderRecurrenceSplice ::
  "VPInstruction \<Rightarrow> VPTransformState \<Rightarrow> nat \<Rightarrow> error + VPTransformState" where
  "generate_FirstOrderRecurrenceSplice this S Part =
     andThen (getOperandValue S (VPI_operands this) 0 0) (\<lambda>V1.
     andThen (if Part = 0 then Inr V1
              else getOperandValue S (VPI_operands this) 1 (Part - 1)) (\<lambda>PartMinus1.
       if \<not> isVectorTy (getType PartMinus1)
       then Inr (State_set (VPI_Def this) PartMinus1 Part S)
       else
         andThen (getOperandValue S (VPI_operands this) 1 Part) (\<lambda>V2.
         andThen (CreateVectorSplice (Builder S) PartMinus1 V2 (- 1) (Fn S)) (\<lambda>(V, F').
           Inr (State_set (VPI_Def this) V Part (S\<lparr>Fn := F'\<rparr>))))))"

definition generate_CanonicalIVIncrement ::
  "VPInstruction \<Rightarrow> VPTransformState \<Rightarrow> nat \<Rightarrow> error + VPTransformState" where
  "generate_CanonicalIVIncrement this S Part =
     (if Part = 0
      then
        (let IsNUW = (VPI_Opcode this = CanonicalIVIncrementNUW) in
         andThen (getOperandValue S (VPI_operands this) 0 0) (\<lambda>Phi.
         andThen (createStepForVF (Builder S) (getType Phi) (VF S) (UF S) (Fn S)) (\<lambda>(Step, F1).
           case CreateAdd (Builder S) Phi Step ''index.next'' IsNUW False F1 of
             (Next, F2) \<Rightarrow> Inr (State_set (VPI_Def this) Next Part (S\<lparr>Fn := F2\<rparr>)))))
      else
        andThen (State_get S (VPI_Def this) 0) (\<lambda>Next.
          Inr (State_set (VPI_Def this) Next Part S)))"

text \<open>
  Both branch opcodes end by erasing the terminator of the emitter's block
  (\<^verbatim>\<open>Builder.GetInsertBlock()->getTerminator()->eraseFromParent()\<close>); a block with no
  terminator has none to erase.
\<close>

definition eraseTerminator :: "VPTransformState \<Rightarrow> error + VPTransformState" where
  "eraseTerminator S =
     (case getTerminator (Fn S) (InsertBlock (Builder S)) of
        None \<Rightarrow> Inl (AssertionFailed ''the block has no terminator'')
      | Some t \<Rightarrow> Inr (S\<lparr>Fn := eraseFromParent_Inst t (InsertBlock (Builder S)) (Fn S)\<rparr>))"

definition generate_BranchOnCond ::
  "VPInstruction \<Rightarrow> VPTransformState \<Rightarrow> nat \<Rightarrow> error + VPTransformState" where
  "generate_BranchOnCond this S Part =
     (if Part \<noteq> 0 then Inr S
      else
        andThen (getOperand (VPI_operands this) 0) (\<lambda>Op0.
        andThen (State_getLane S Op0 Part 0) (\<lambda>(Cond, S1).
          case CreateCondBr (Builder S1) Cond (Some (InsertBlock (Builder S1))) None (Fn S1) of
            (CondBr, F1) \<Rightarrow>
              (case dyn_cast_InstructionVal CondBr of
                 None \<Rightarrow> Inl (CastFailed ''cast<BranchInst>() argument of incompatible type'')
               | Some a \<Rightarrow>
                   (let F2 = (if VPI_ParentIsExiting this
                              then updateInst a
                                     (setSuccessor 1 (VPBB2IRBB S1 (VPI_RegionEntry this))) F1
                              else F1);
                        F3 = updateInst a (setSuccessor 0 None) F2
                    in eraseTerminator (S1\<lparr>Fn := F3\<rparr>))))))"

definition generate_BranchOnCount ::
  "VPInstruction \<Rightarrow> VPTransformState \<Rightarrow> nat \<Rightarrow> error + VPTransformState" where
  "generate_BranchOnCount this S Part =
     (if Part \<noteq> 0 then Inr S
      else
        andThen (getOperandValue S (VPI_operands this) 0 Part) (\<lambda>IV.
        andThen (getOperandValue S (VPI_operands this) 1 Part) (\<lambda>TC.
          case CreateICmp (Builder S) ICMP_EQ IV TC (Fn S) of
            (Cond, F1) \<Rightarrow>
              (case CreateCondBr (Builder S) Cond (Some (InsertBlock (Builder S)))
                      (VPBB2IRBB S (VPI_VectorLoopHeader this)) F1 of
                 (CondBr, F2) \<Rightarrow>
                   (case dyn_cast_InstructionVal CondBr of
                      None \<Rightarrow> Inl (CastFailed ''cast<BranchInst>() argument of incompatible type'')
                    | Some a \<Rightarrow>
                        eraseTerminator (S\<lparr>Fn := updateInst a (setSuccessor 0 None) F2\<rparr>))))))"

text \<open>
  \<^verbatim>\<open>VPInstruction::generateInstruction(State, Part)\<close>: the emitter takes the debug location of
  the recipe, then the opcode selects the block.
\<close>

definition generateInstruction ::
  "VPInstruction \<Rightarrow> VPTransformState \<Rightarrow> nat \<Rightarrow> error + VPTransformState" where
  "generateInstruction this State Part =
     (let S = State\<lparr>Builder := (Builder State)\<lparr>CurrentDebugLocation := VPI_DL this\<rparr>\<rparr> in
      case VPI_Opcode this of
        BinaryOp bop \<Rightarrow> generate_BinaryOp this bop S Part
      | VPNot \<Rightarrow> generate_Not this S Part
      | ICmpULE \<Rightarrow> generate_ICmpULE this S Part
      | Select \<Rightarrow> generate_Select this S Part
      | ActiveLaneMask \<Rightarrow> generate_ActiveLaneMask this S Part
      | FirstOrderRecurrenceSplice \<Rightarrow> generate_FirstOrderRecurrenceSplice this S Part
      | CanonicalIVIncrement \<Rightarrow> generate_CanonicalIVIncrement this S Part
      | CanonicalIVIncrementNUW \<Rightarrow> generate_CanonicalIVIncrement this S Part
      | BranchOnCond \<Rightarrow> generate_BranchOnCond this S Part
      | BranchOnCount \<Rightarrow> generate_BranchOnCount this S Part
      | _ \<Rightarrow> Inl (Unreachable ''Unsupported opcode for instruction''))"

text \<open>
  What no block of \<^verbatim>\<open>generateInstruction\<close> changes: the widths, the active instance, the
  emitter's flags and insertion point, and the control-flow bookkeeping.
\<close>

definition sameSetting :: "VPTransformState \<Rightarrow> VPTransformState \<Rightarrow> bool" where
  "sameSetting S S' =
     (VF S' = VF S \<and> UF S' = UF S \<and> Instance S' = Instance S \<and>
      B_FMF (Builder S') = B_FMF (Builder S) \<and>
      InsertBlock (Builder S') = InsertBlock (Builder S) \<and>
      InsertPt (Builder S') = InsertPt (Builder S) \<and>
      PrevBB S' = PrevBB S \<and> VPBB2IRBB S' = VPBB2IRBB S \<and>
      PreheaderBB S' = PreheaderBB S \<and>
      CurrentVectorLoopHeader S' = CurrentVectorLoopHeader S \<and>
      MayGeneratePoisonRecipes S' = MayGeneratePoisonRecipes S)"

section \<open>What generateInstruction leaves unchanged\<close>

lemma andThen_Inr:
  "andThen r f = Inr y \<longleftrightarrow> (\<exists>x. r = Inr x \<and> f x = Inr y)"
  by (cases r) (simp_all add: andThen_def)

lemma sameSetting_refl [simp]: "sameSetting S S"
  by (simp add: sameSetting_def)

lemma sameSetting_trans: "sameSetting S S' \<Longrightarrow> sameSetting S' S'' \<Longrightarrow> sameSetting S S''"
  by (simp add: sameSetting_def)

lemma sameSetting_Fn [simp]: "sameSetting S (S\<lparr>Fn := F\<rparr>)"
  by (simp add: sameSetting_def)

lemma sameSetting_State_set [simp]: "sameSetting S (State_set d V p S') = sameSetting S S'"
  by (simp add: sameSetting_def State_set_def)

lemma sameSetting_Fn' [simp]: "sameSetting S (S'\<lparr>Fn := F\<rparr>) = sameSetting S S'"
  by (simp add: sameSetting_def)

lemma State_getLane_sameSetting:
  "State_getLane S d p l = Inr (V, S') \<Longrightarrow> sameSetting S S'"
  by (auto simp: State_getLane_def split: option.splits if_splits prod.splits)

lemma eraseTerminator_sameSetting:
  "eraseTerminator S = Inr S' \<Longrightarrow> sameSetting S S'"
  by (auto simp: eraseTerminator_def split: option.splits)

lemma generate_BinaryOp_sameSetting:
  "generate_BinaryOp this bop S Part = Inr S' \<Longrightarrow> sameSetting S S'"
  by (auto simp: generate_BinaryOp_def andThen_Inr case_prod_beta)

lemma generate_Not_sameSetting:
  "generate_Not this S Part = Inr S' \<Longrightarrow> sameSetting S S'"
  by (auto simp: generate_Not_def andThen_Inr case_prod_beta)

lemma generate_ICmpULE_sameSetting:
  "generate_ICmpULE this S Part = Inr S' \<Longrightarrow> sameSetting S S'"
  by (auto simp: generate_ICmpULE_def andThen_Inr case_prod_beta)

lemma generate_Select_sameSetting:
  "generate_Select this S Part = Inr S' \<Longrightarrow> sameSetting S S'"
  by (auto simp: generate_Select_def andThen_Inr case_prod_beta)

lemma generate_ActiveLaneMask_sameSetting:
  "generate_ActiveLaneMask this S Part = Inr S' \<Longrightarrow> sameSetting S S'"
  by (auto simp: generate_ActiveLaneMask_def andThen_Inr case_prod_beta
      dest: State_getLane_sameSetting)

lemma generate_FirstOrderRecurrenceSplice_sameSetting:
  "generate_FirstOrderRecurrenceSplice this S Part = Inr S' \<Longrightarrow> sameSetting S S'"
  by (auto simp: generate_FirstOrderRecurrenceSplice_def andThen_Inr case_prod_beta split: if_splits)

lemma generate_CanonicalIVIncrement_sameSetting:
  "generate_CanonicalIVIncrement this S Part = Inr S' \<Longrightarrow> sameSetting S S'"
  by (auto simp: generate_CanonicalIVIncrement_def andThen_Inr case_prod_beta Let_def split: if_splits)

lemma generate_BranchOnCond_steps:
  assumes "generate_BranchOnCond this S 0 = Inr S'"
  shows "\<exists>Op0 V S1 F. State_getLane S Op0 0 0 = Inr (V, S1) \<and>
           eraseTerminator (S1\<lparr>Fn := F\<rparr>) = Inr S'"
proof -
  from assms obtain Op0 r where
    g: "State_getLane S Op0 0 0 = Inr r" and
    rest: "(case CreateCondBr (Builder (snd r)) (fst r) (Some (InsertBlock (Builder (snd r)))) None
              (Fn (snd r)) of
            (CondBr, F1) \<Rightarrow>
              (case dyn_cast_InstructionVal CondBr of
                 None \<Rightarrow> Inl (CastFailed ''cast<BranchInst>() argument of incompatible type'')
               | Some a \<Rightarrow>
                   (let F2 = (if VPI_ParentIsExiting this
                              then updateInst a
                                     (setSuccessor 1 (VPBB2IRBB (snd r) (VPI_RegionEntry this))) F1
                              else F1);
                        F3 = updateInst a (setSuccessor 0 None) F2
                    in eraseTerminator ((snd r)\<lparr>Fn := F3\<rparr>)))) = Inr S'"
    unfolding generate_BranchOnCond_def by (auto simp: andThen_Inr case_prod_beta)
  from rest obtain F where "eraseTerminator ((snd r)\<lparr>Fn := F\<rparr>) = Inr S'"
    by (auto simp: case_prod_beta Let_def split: option.splits)
  with g show ?thesis
    by (cases r) auto
qed

lemma generate_BranchOnCond_sameSetting:
  assumes "generate_BranchOnCond this S Part = Inr S'"
  shows "sameSetting S S'"
proof (cases "Part = 0")
  case False
  with assms show ?thesis by (simp add: generate_BranchOnCond_def)
next
  case True
  with assms generate_BranchOnCond_steps obtain Op0 V S1 F where
    "State_getLane S Op0 0 0 = Inr (V, S1)" "eraseTerminator (S1\<lparr>Fn := F\<rparr>) = Inr S'"
    by blast
  then have "sameSetting S S1" "sameSetting (S1\<lparr>Fn := F\<rparr>) S'"
    by (auto dest: State_getLane_sameSetting eraseTerminator_sameSetting)
  then show ?thesis
    by (simp add: sameSetting_def)
qed

lemma generate_BranchOnCount_steps:
  assumes "generate_BranchOnCount this S 0 = Inr S'"
  shows "\<exists>F. eraseTerminator (S\<lparr>Fn := F\<rparr>) = Inr S'"
  using assms unfolding generate_BranchOnCount_def
  by (auto simp: andThen_Inr case_prod_beta split: option.splits)

lemma generate_BranchOnCount_sameSetting:
  assumes "generate_BranchOnCount this S Part = Inr S'"
  shows "sameSetting S S'"
proof (cases "Part = 0")
  case False
  with assms show ?thesis by (simp add: generate_BranchOnCount_def)
next
  case True
  with assms generate_BranchOnCount_steps obtain F where
    "eraseTerminator (S\<lparr>Fn := F\<rparr>) = Inr S'"
    by blast
  then have "sameSetting (S\<lparr>Fn := F\<rparr>) S'"
    by (rule eraseTerminator_sameSetting)
  then show ?thesis
    by (simp add: sameSetting_def)
qed

lemma sameSetting_DebugLocation:
  "sameSetting (S\<lparr>Builder := (Builder S)\<lparr>CurrentDebugLocation := d\<rparr>\<rparr>) S' = sameSetting S S'"
  by (simp add: sameSetting_def)

lemma generateInstruction_sameSetting:
  assumes "generateInstruction this S Part = Inr S'"
  shows "sameSetting S S'"
proof -
  let ?S = "S\<lparr>Builder := (Builder S)\<lparr>CurrentDebugLocation := VPI_DL this\<rparr>\<rparr>"
  have "sameSetting ?S S'"
    using assms unfolding generateInstruction_def Let_def
    by (auto split: Opcode.splits
        dest: generate_BinaryOp_sameSetting generate_Not_sameSetting generate_ICmpULE_sameSetting
          generate_Select_sameSetting generate_ActiveLaneMask_sameSetting
          generate_FirstOrderRecurrenceSplice_sameSetting generate_CanonicalIVIncrement_sameSetting
          generate_BranchOnCond_sameSetting generate_BranchOnCount_sameSetting)
  then show ?thesis
    by (simp add: sameSetting_DebugLocation)
qed

section \<open>VPInstruction::execute\<close>

text \<open>
  The loop \<^verbatim>\<open>for (unsigned Part = 0; Part < State.UF; ++Part) generateInstruction(State, Part)\<close>,
  from the stream \<open>Part\<close> on. It reads \<^verbatim>\<open>State.UF\<close> at every turn; it terminates because
  \<^verbatim>\<open>generateInstruction\<close> leaves \<^verbatim>\<open>UF\<close> unchanged.
\<close>

function execute_loop ::
  "VPInstruction \<Rightarrow> VPTransformState \<Rightarrow> nat \<Rightarrow> error + VPTransformState" where
  "execute_loop this State Part =
     (if Part < UF State
      then (case generateInstruction this State Part of
              Inl e \<Rightarrow> Inl e
            | Inr S' \<Rightarrow> execute_loop this S' (Part + 1))
      else Inr State)"
  by pat_completeness auto
termination
proof (relation "measure (\<lambda>(this, State, Part). UF State - Part)")
  show "wf (measure (\<lambda>(this, State, Part). UF State - Part))"
    by simp
next
  fix this :: VPInstruction and State :: VPTransformState and Part :: nat and S' :: VPTransformState
  assume "Part < UF State" and "generateInstruction this State Part = Inr S'"
  then have "UF S' = UF State"
    using generateInstruction_sameSetting [of this State Part S'] by (simp add: sameSetting_def)
  with \<open>Part < UF State\<close>
  show "((this, S', Part + 1), (this, State, Part)) \<in> measure (\<lambda>(this, State, Part). UF State - Part)"
    by simp
qed

declare execute_loop.simps [simp del]

text \<open>
  \<^verbatim>\<open>VPInstruction::execute\<close>. The \<^verbatim>\<open>FastMathFlagGuard\<close> saves the emitter's fast-math flags
  when it is built and puts them back when the function returns.
\<close>

definition VPInstruction_execute :: "VPInstruction \<Rightarrow> VPTransformState \<Rightarrow> error + VPTransformState" where
  "VPInstruction_execute this State =
     (if Instance State \<noteq> None
      then Inl (AssertionFailed ''VPInstruction executing an Instance'')
      else
        (let FMFGuard = B_FMF (Builder State);
             S1 = State\<lparr>Builder := (Builder State)\<lparr>B_FMF := VPI_FMF this\<rparr>\<rparr>
         in case execute_loop this S1 0 of
              Inl e \<Rightarrow> Inl e
            | Inr S2 \<Rightarrow> Inr (S2\<lparr>Builder := (Builder S2)\<lparr>B_FMF := FMFGuard\<rparr>\<rparr>)))"

text \<open>
  Calls of \<^verbatim>\<open>generateInstruction\<close> one after the other, for the streams of a list in the
  order of the list; a failing call ends the sequence.
\<close>

fun generateEach ::
  "VPInstruction \<Rightarrow> nat list \<Rightarrow> VPTransformState \<Rightarrow> error + VPTransformState" where
  "generateEach this [] S = Inr S"
| "generateEach this (Part # Parts) S =
     andThen (generateInstruction this S Part) (generateEach this Parts)"

section \<open>Plan values and the widened induction\<close>

text \<open>
  A plan value (\<^verbatim>\<open>VPValue\<close>) as its recipes read it: the recipe that defines it (none for a
  live-in) and its underlying IR value (possibly null).
\<close>

record VPValue =
  VPV_Def :: "VPRecipeRef option"
  VPV_UnderlyingValue :: "Value option"

text \<open>
  \<^verbatim>\<open>VPValue::getLiveInIRValue\<close>: asserts that the value has no defining recipe and returns the
  underlying IR value.
\<close>

definition getLiveInIRValue :: "VPValue \<Rightarrow> error + Value option" where
  "getLiveInIRValue V =
     (if VPV_Def V \<noteq> None
      then Inl (AssertionFailed
                  ''VPValue is not a live-in; it is defined by a VPDef inside a VPlan'')
      else Inr (VPV_UnderlyingValue V))"

text \<open>\<^verbatim>\<open>dyn_cast<ConstantInt>(V)\<close>: its argument must not be null.\<close>

definition dyn_cast_ConstantInt :: "Value option \<Rightarrow> error + ConstantInt option" where
  "dyn_cast_ConstantInt V =
     (case V of
        None \<Rightarrow> Inl (AssertionFailed ''dyn_cast on a non-existent value'')
      | Some (ConstantIntVal C) \<Rightarrow> Inr (Some C)
      | Some _ \<Rightarrow> Inr None)"

text \<open>
  A closed-form expression (\<^verbatim>\<open>SCEV\<close>): a constant or any other expression.
  \<^verbatim>\<open>SCEVConstant::isOne\<close> and \<^verbatim>\<open>isZero\<close> are those of its \<^verbatim>\<open>ConstantInt\<close>.
\<close>

datatype SCEV = SCEVConstant ConstantInt | SCEVOther nat

fun dyn_cast_SCEVConstant :: "SCEV \<Rightarrow> ConstantInt option" where
  "dyn_cast_SCEVConstant (SCEVConstant C) = Some C"
| "dyn_cast_SCEVConstant (SCEVOther n) = None"

record InductionDescriptor =
  getStep :: SCEV

record VPWidenIntOrFpInductionRecipe =
  WI_StartValue :: VPValue
  WI_InductionDescriptor :: InductionDescriptor

text \<open>\<^verbatim>\<open>VPWidenIntOrFpInductionRecipe::isCanonical\<close>.\<close>

definition isCanonical :: "VPWidenIntOrFpInductionRecipe \<Rightarrow> error + bool" where
  "isCanonical this =
     andThen (getLiveInIRValue (WI_StartValue this)) (\<lambda>V.
     andThen (dyn_cast_ConstantInt V) (\<lambda>StartC.
       let StepC = dyn_cast_SCEVConstant (getStep (WI_InductionDescriptor this)) in
       Inr (case StartC of
              None \<Rightarrow> False
            | Some C \<Rightarrow>
                isZero C \<and> (case StepC of None \<Rightarrow> False | Some C' \<Rightarrow> isOne C'))))"

section \<open>VPWidenCanonicalIVRecipe::execute\<close>

record VPWidenCanonicalIVRecipe =
  WCIV_Def :: VPValueRef
  WCIV_operands :: "VPValueRef list"

text \<open>
  \<^verbatim>\<open>IRBuilder<> Builder(IP)\<close>: an emitter of its own, standing in front of the instruction
  \<open>IP\<close> of the block \<open>BB\<close>, with no fast-math flags and the debug location of \<open>IP\<close>.
\<close>

definition IRBuilder_at :: "Function \<Rightarrow> BasicBlock \<Rightarrow> nat \<Rightarrow> IRBuilder" where
  "IRBuilder_at F BB IP =
     \<lparr>InsertBlock = BB, InsertPt = Some IP, B_FMF = noFastMathFlags,
      CurrentDebugLocation = (if IP < length (Insts F) then DbgLoc (Insts F ! IP) else 0)\<rparr>"

text \<open>
  The body of the loop over the streams: the step of the stream, for a vector width
  broadcast and added to the lane-index ramp, is added to the broadcast start.
\<close>

definition WidenCanonicalIV_part ::
  "VPWidenCanonicalIVRecipe \<Rightarrow> IRBuilder \<Rightarrow> Type \<Rightarrow> ElementCount \<Rightarrow> Value \<Rightarrow>
   VPTransformState \<Rightarrow> nat \<Rightarrow> error + VPTransformState" where
  "WidenCanonicalIV_part this B STy EC VStart S Part =
     andThen (createStepForVF B STy EC Part (Fn S)) (\<lambda>(VStep0, F1).
     andThen
       (if isVector EC
        then (case CreateVectorSplat B EC VStep0 [] F1 of
                (VStep1, F2) \<Rightarrow>
                  andThen (CreateStepVector B (getType VStep1) F2) (\<lambda>(StepVector, F3).
                    Inr (CreateAdd B VStep1 StepVector [] False False F3)))
        else Inr (VStep0, F1)) (\<lambda>(VStep, F4).
       case CreateAdd B VStart VStep ''vec.iv'' False False F4 of
         (CanonicalVectorIV, F5) \<Rightarrow>
           Inr (State_set (WCIV_Def this) CanonicalVectorIV Part (S\<lparr>Fn := F5\<rparr>))))"

text \<open>
  The loop \<^verbatim>\<open>for (unsigned Part = 0, UF = State.UF; Part < UF; ++Part)\<close>, from the stream
  \<open>Part\<close> on; the bound is read once.
\<close>

function WidenCanonicalIV_loop ::
  "VPWidenCanonicalIVRecipe \<Rightarrow> IRBuilder \<Rightarrow> Type \<Rightarrow> ElementCount \<Rightarrow> Value \<Rightarrow> nat \<Rightarrow>
   VPTransformState \<Rightarrow> nat \<Rightarrow> error + VPTransformState" where
  "WidenCanonicalIV_loop this B STy EC VStart UF' S Part =
     (if Part < UF'
      then (case WidenCanonicalIV_part this B STy EC VStart S Part of
              Inl e \<Rightarrow> Inl e
            | Inr S' \<Rightarrow> WidenCanonicalIV_loop this B STy EC VStart UF' S' (Part + 1))
      else Inr S)"
  by pat_completeness auto
termination
  by (relation "measure (\<lambda>(this, B, STy, EC, VStart, UF', S, Part). UF' - Part)") auto

declare WidenCanonicalIV_loop.simps [simp del]

definition VPWidenCanonicalIVRecipe_execute ::
  "VPWidenCanonicalIVRecipe \<Rightarrow> VPTransformState \<Rightarrow> error + VPTransformState" where
  "VPWidenCanonicalIVRecipe_execute this State =
     andThen (getOperandValue State (WCIV_operands this) 0 0) (\<lambda>CanonicalIV.
       let STy = getType CanonicalIV in
       case getTerminator (Fn State) (PrevBB State) of
         None \<Rightarrow> Inl (AssertionFailed ''the block has no terminator'')
       | Some IP \<Rightarrow>
           (let B = IRBuilder_at (Fn State) (PrevBB State) IP;
                EC = VF State
            in case (if isScalar EC then (CanonicalIV, Fn State)
                     else CreateVectorSplat B EC CanonicalIV ''broadcast'' (Fn State)) of
                 (VStart, F1) \<Rightarrow>
                   WidenCanonicalIV_loop this B STy EC VStart (UF State) (State\<lparr>Fn := F1\<rparr>) 0))"

section \<open>VPWidenRecipe::execute\<close>

text \<open>
  The mirrored original instruction, as the widening reads it: its opcode, its
  numeric-safety flags, its type, its predicate (for a comparison), its debug location and
  its metadata.
\<close>

record ScalarInstruction =
  SI_Opcode :: Opcode
  SI_Flags :: IRFlags
  SI_Type :: Type
  SI_Predicate :: Predicate
  SI_DebugLoc :: DebugLoc
  SI_Metadata :: "nat list"

text \<open>
  A widening recipe: its own address (the key of \<^verbatim>\<open>MayGeneratePoisonRecipes\<close>), the plan
  value it defines, its operands and its underlying value cast to an instruction (\<open>None\<close>
  when the underlying value is null or not an instruction).
\<close>

record VPWidenRecipe =
  VPW_this :: VPRecipeRef
  VPW_Def :: VPValueRef
  VPW_operands :: "VPValueRef list"
  VPW_UnderlyingInstr :: "ScalarInstruction option"

text \<open>
  The operator classes of the IR that carry flags: overflowing binary operators (no-wrap
  flags), possibly exact operators (exact flag), floating-point operators (fast-math
  flags).
\<close>

fun isOverflowingBinaryOp :: "BinaryOps \<Rightarrow> bool" where
  "isOverflowingBinaryOp Add = True"
| "isOverflowingBinaryOp Sub = True"
| "isOverflowingBinaryOp Mul = True"
| "isOverflowingBinaryOp Shl = True"
| "isOverflowingBinaryOp bop = False"

fun isPossiblyExactBinaryOp :: "BinaryOps \<Rightarrow> bool" where
  "isPossiblyExactBinaryOp UDiv = True"
| "isPossiblyExactBinaryOp SDiv = True"
| "isPossiblyExactBinaryOp LShr = True"
| "isPossiblyExactBinaryOp AShr = True"
| "isPossiblyExactBinaryOp bop = False"

fun isOverflowingBinaryOperator :: "Operation \<Rightarrow> bool" where
  "isOverflowingBinaryOperator (BinOp bop) = isOverflowingBinaryOp bop"
| "isOverflowingBinaryOperator Op = False"

fun isPossiblyExactOperator :: "Operation \<Rightarrow> bool" where
  "isPossiblyExactOperator (BinOp bop) = isPossiblyExactBinaryOp bop"
| "isPossiblyExactOperator Op = False"

fun isFPMathOperator :: "Operation \<Rightarrow> bool" where
  "isFPMathOperator (BinOp bop) = isFPBinaryOp bop"
| "isFPMathOperator FNegOp = True"
| "isFPMathOperator (FCmpOp P) = True"
| "isFPMathOperator Op = False"

text \<open>The same classes, of the opcode of the original instruction.\<close>

fun Opcode_isOverflowing :: "Opcode \<Rightarrow> bool" where
  "Opcode_isOverflowing (BinaryOp bop) = isOverflowingBinaryOp bop"
| "Opcode_isOverflowing Opc = False"

fun Opcode_isPossiblyExact :: "Opcode \<Rightarrow> bool" where
  "Opcode_isPossiblyExact (BinaryOp bop) = isPossiblyExactBinaryOp bop"
| "Opcode_isPossiblyExact Opc = False"

fun Opcode_isFPMath :: "Opcode \<Rightarrow> bool" where
  "Opcode_isFPMath (BinaryOp bop) = isFPBinaryOp bop"
| "Opcode_isFPMath FNeg = True"
| "Opcode_isFPMath FCmp = True"
| "Opcode_isFPMath Opc = False"

text \<open>
  Modelled from the spec: \<^verbatim>\<open>Instruction::copyIRFlags\<close> of the IR library (section 4.4: copy
  the original operation's numeric-safety flags, e.g. no-overflow, exact, onto the result).
  A flag is copied when both instructions are of the class that carries it.
\<close>

definition copyIRFlags :: "IRInstruction \<Rightarrow> ScalarInstruction \<Rightarrow> IRInstruction" where
  "copyIRFlags VecOp I =
     (let wrap = isOverflowingBinaryOperator (Operation VecOp) \<and> Opcode_isOverflowing (SI_Opcode I);
          exact = isPossiblyExactOperator (Operation VecOp) \<and> Opcode_isPossiblyExact (SI_Opcode I);
          fp = isFPMathOperator (Operation VecOp) \<and> Opcode_isFPMath (SI_Opcode I)
      in VecOp\<lparr>Flags :=
           \<lparr>HasNoUnsignedWrap =
              (if wrap then HasNoUnsignedWrap (SI_Flags I) else HasNoUnsignedWrap (Flags VecOp)),
            HasNoSignedWrap =
              (if wrap then HasNoSignedWrap (SI_Flags I) else HasNoSignedWrap (Flags VecOp)),
            IsExact = (if exact then IsExact (SI_Flags I) else IsExact (Flags VecOp)),
            FastFlags = (if fp then FastFlags (SI_Flags I) else FastFlags (Flags VecOp))\<rparr>\<rparr>)"

text \<open>
  Modelled from the spec: \<^verbatim>\<open>Instruction::dropPoisonGeneratingFlags\<close> of the IR library
  (section 4.4: the numeric-safety flags that could assume absence of poison are dropped):
  the no-wrap flags of an overflowing operator, the exact flag of a possibly exact
  operator, the no-NaNs and no-infinities flags of a floating-point operator.
\<close>

definition dropPoisonGeneratingFlags :: "IRInstruction \<Rightarrow> IRInstruction" where
  "dropPoisonGeneratingFlags J =
     (let J1 = (if isOverflowingBinaryOperator (Operation J)
                then J\<lparr>Flags := (Flags J)\<lparr>HasNoUnsignedWrap := False, HasNoSignedWrap := False\<rparr>\<rparr>
                else if isPossiblyExactOperator (Operation J)
                then J\<lparr>Flags := (Flags J)\<lparr>IsExact := False\<rparr>\<rparr>
                else J)
      in if isFPMathOperator (Operation J1)
         then J1\<lparr>Flags := (Flags J1)\<lparr>FastFlags := (FastFlags (Flags J1))\<lparr>NoNaNs := False, NoInfs := False\<rparr>\<rparr>\<rparr>
         else J1)"

text \<open>\<^verbatim>\<open>State.setDebugLocFromInst(&I)\<close>: the emitter takes the debug location of \<open>I\<close>.\<close>

definition setDebugLocFromInst :: "ScalarInstruction \<Rightarrow> VPTransformState \<Rightarrow> VPTransformState" where
  "setDebugLocFromInst I S = S\<lparr>Builder := (Builder S)\<lparr>CurrentDebugLocation := SI_DebugLoc I\<rparr>\<rparr>"

text \<open>\<^verbatim>\<open>State.addMetadata(To, From)\<close>: a generated instruction gets the metadata of \<open>From\<close>.\<close>

definition addMetadata :: "Value \<Rightarrow> ScalarInstruction \<Rightarrow> VPTransformState \<Rightarrow> VPTransformState" where
  "addMetadata To From S =
     (case dyn_cast_InstructionVal To of
        None \<Rightarrow> S
      | Some a \<Rightarrow> S\<lparr>Fn := updateInst a (\<lambda>J. J\<lparr>Metadata := SI_Metadata From\<rparr>) (Fn S)\<rparr>)"

text \<open>The generated values of all operands for a stream, in the order of the operands.\<close>

fun getOperandValues :: "VPTransformState \<Rightarrow> VPValueRef list \<Rightarrow> nat \<Rightarrow> error + Value list" where
  "getOperandValues S [] Part = Inr []"
| "getOperandValues S (VPOp # VPOps) Part =
     andThen (State_get S VPOp Part) (\<lambda>V.
     andThen (getOperandValues S VPOps Part) (\<lambda>Vs. Inr (V # Vs)))"

text \<open>The body of the loop that widens a unary or binary operator.\<close>

definition widen_part ::
  "VPWidenRecipe \<Rightarrow> ScalarInstruction \<Rightarrow> VPTransformState \<Rightarrow> nat \<Rightarrow> error + VPTransformState" where
  "widen_part this I S Part =
     andThen (getOperandValues S (VPW_operands this) Part) (\<lambda>Ops.
     andThen (CreateNAryOp (Builder S) (SI_Opcode I) Ops (Fn S)) (\<lambda>(V, F1).
       let F2 =
         (case dyn_cast_InstructionVal V of
            Some VecOp \<Rightarrow>
              (let F' = updateInst VecOp (\<lambda>J. copyIRFlags J I) F1
               in if VPW_this this \<in> MayGeneratePoisonRecipes S
                  then updateInst VecOp dropPoisonGeneratingFlags F'
                  else F')
          | None \<Rightarrow> F1)
       in Inr (addMetadata V I (State_set (VPW_Def this) V Part (S\<lparr>Fn := F2\<rparr>)))))"

definition freeze_part ::
  "VPWidenRecipe \<Rightarrow> VPTransformState \<Rightarrow> nat \<Rightarrow> error + VPTransformState" where
  "freeze_part this S Part =
     andThen (getOperandValue S (VPW_operands this) 0 Part) (\<lambda>Op.
       case CreateFreeze (Builder S) Op (Fn S) of
         (Freeze', F1) \<Rightarrow> Inr (State_set (VPW_Def this) Freeze' Part (S\<lparr>Fn := F1\<rparr>)))"

text \<open>
  The body of the loop that widens a comparison; a floating-point comparison is built
  under the fast-math flags of the original one, which a guard removes again.
\<close>

definition cmp_part ::
  "VPWidenRecipe \<Rightarrow> ScalarInstruction \<Rightarrow> VPTransformState \<Rightarrow> nat \<Rightarrow> error + VPTransformState" where
  "cmp_part this I S Part =
     andThen (getOperandValue S (VPW_operands this) 0 Part) (\<lambda>A.
     andThen (getOperandValue S (VPW_operands this) 1 Part) (\<lambda>B.
       case (if SI_Opcode I = FCmp
             then CreateFCmp ((Builder S)\<lparr>B_FMF := FastFlags (SI_Flags I)\<rparr>)
                    (SI_Predicate I) A B (Fn S)
             else CreateICmp (Builder S) (SI_Predicate I) A B (Fn S)) of
         (C, F1) \<Rightarrow> Inr (addMetadata C I (State_set (VPW_Def this) C Part (S\<lparr>Fn := F1\<rparr>)))))"

definition cast_part ::
  "VPWidenRecipe \<Rightarrow> ScalarInstruction \<Rightarrow> CastOps \<Rightarrow> Type \<Rightarrow> VPTransformState \<Rightarrow> nat \<Rightarrow>
   error + VPTransformState" where
  "cast_part this I Opc DestTy S Part =
     andThen (getOperandValue S (VPW_operands this) 0 Part) (\<lambda>A.
       case CreateCast (Builder S) Opc A DestTy (Fn S) of
         (Cast', F1) \<Rightarrow>
           Inr (addMetadata Cast' I (State_set (VPW_Def this) Cast' Part (S\<lparr>Fn := F1\<rparr>))))"

lemma addMetadata_sameSetting [simp]:
  "sameSetting S (addMetadata V I S') = sameSetting S S'"
  by (simp add: addMetadata_def sameSetting_def split: option.splits)

lemma widen_part_sameSetting:
  "widen_part this I S Part = Inr S' \<Longrightarrow> sameSetting S S'"
  by (auto simp: widen_part_def andThen_Inr case_prod_beta Let_def)

lemma freeze_part_sameSetting:
  "freeze_part this S Part = Inr S' \<Longrightarrow> sameSetting S S'"
  by (auto simp: freeze_part_def andThen_Inr case_prod_beta)

lemma cmp_part_sameSetting:
  "cmp_part this I S Part = Inr S' \<Longrightarrow> sameSetting S S'"
  by (auto simp: cmp_part_def andThen_Inr case_prod_beta)

lemma cast_part_sameSetting:
  "cast_part this I Opc DestTy S Part = Inr S' \<Longrightarrow> sameSetting S S'"
  by (auto simp: cast_part_def andThen_Inr case_prod_beta)

text \<open>
  The four loops \<^verbatim>\<open>for (unsigned Part = 0; Part < State.UF; ++Part)\<close> of
  \<^verbatim>\<open>VPWidenRecipe::execute\<close>, each from the stream \<open>Part\<close> on. They read \<^verbatim>\<open>State.UF\<close> at
  every turn and terminate because their bodies leave it unchanged.
\<close>


function widen_loop ::
  "VPWidenRecipe \<Rightarrow> ScalarInstruction \<Rightarrow> VPTransformState \<Rightarrow> nat \<Rightarrow> error + VPTransformState" where
  "widen_loop this I State Part =
     (if Part < UF State
      then (case widen_part this I State Part of
              Inl e \<Rightarrow> Inl e
            | Inr S' \<Rightarrow> widen_loop this I S' (Part + 1))
      else Inr State)"
  by pat_completeness auto
termination
proof (relation "measure (\<lambda>(this, I, State, Part). UF State - Part)")
  show "wf (measure (\<lambda>(this, I, State, Part). UF State - Part))"
    by simp
next
  fix this :: VPWidenRecipe and I :: ScalarInstruction and State :: VPTransformState and Part :: nat and S' :: VPTransformState
  assume "Part < UF State" and "widen_part this I State Part = Inr S'"
  then have "UF S' = UF State"
    using widen_part_sameSetting [of this I State Part S'] by (simp add: sameSetting_def)
  with \<open>Part < UF State\<close>
  show "((this, I, S', Part + 1), (this, I, State, Part)) \<in> measure (\<lambda>(this, I, State, Part). UF State - Part)"
    by simp
qed

declare widen_loop.simps [simp del]


function freeze_loop ::
  "VPWidenRecipe \<Rightarrow> VPTransformState \<Rightarrow> nat \<Rightarrow> error + VPTransformState" where
  "freeze_loop this State Part =
     (if Part < UF State
      then (case freeze_part this State Part of
              Inl e \<Rightarrow> Inl e
            | Inr S' \<Rightarrow> freeze_loop this S' (Part + 1))
      else Inr State)"
  by pat_completeness auto
termination
proof (relation "measure (\<lambda>(this, State, Part). UF State - Part)")
  show "wf (measure (\<lambda>(this, State, Part). UF State - Part))"
    by simp
next
  fix this :: VPWidenRecipe and State :: VPTransformState and Part :: nat and S' :: VPTransformState
  assume "Part < UF State" and "freeze_part this State Part = Inr S'"
  then have "UF S' = UF State"
    using freeze_part_sameSetting [of this State Part S'] by (simp add: sameSetting_def)
  with \<open>Part < UF State\<close>
  show "((this, S', Part + 1), (this, State, Part)) \<in> measure (\<lambda>(this, State, Part). UF State - Part)"
    by simp
qed

declare freeze_loop.simps [simp del]


function cmp_loop ::
  "VPWidenRecipe \<Rightarrow> ScalarInstruction \<Rightarrow> VPTransformState \<Rightarrow> nat \<Rightarrow> error + VPTransformState" where
  "cmp_loop this I State Part =
     (if Part < UF State
      then (case cmp_part this I State Part of
              Inl e \<Rightarrow> Inl e
            | Inr S' \<Rightarrow> cmp_loop this I S' (Part + 1))
      else Inr State)"
  by pat_completeness auto
termination
proof (relation "measure (\<lambda>(this, I, State, Part). UF State - Part)")
  show "wf (measure (\<lambda>(this, I, State, Part). UF State - Part))"
    by simp
next
  fix this :: VPWidenRecipe and I :: ScalarInstruction and State :: VPTransformState and Part :: nat and S' :: VPTransformState
  assume "Part < UF State" and "cmp_part this I State Part = Inr S'"
  then have "UF S' = UF State"
    using cmp_part_sameSetting [of this I State Part S'] by (simp add: sameSetting_def)
  with \<open>Part < UF State\<close>
  show "((this, I, S', Part + 1), (this, I, State, Part)) \<in> measure (\<lambda>(this, I, State, Part). UF State - Part)"
    by simp
qed

declare cmp_loop.simps [simp del]


function cast_loop ::
  "VPWidenRecipe \<Rightarrow> ScalarInstruction \<Rightarrow> CastOps \<Rightarrow> Type \<Rightarrow> VPTransformState \<Rightarrow> nat \<Rightarrow> error + VPTransformState" where
  "cast_loop this I Opc DestTy State Part =
     (if Part < UF State
      then (case cast_part this I Opc DestTy State Part of
              Inl e \<Rightarrow> Inl e
            | Inr S' \<Rightarrow> cast_loop this I Opc DestTy S' (Part + 1))
      else Inr State)"
  by pat_completeness auto
termination
proof (relation "measure (\<lambda>(this, I, Opc, DestTy, State, Part). UF State - Part)")
  show "wf (measure (\<lambda>(this, I, Opc, DestTy, State, Part). UF State - Part))"
    by simp
next
  fix this :: VPWidenRecipe and I :: ScalarInstruction and Opc :: CastOps and DestTy :: Type and State :: VPTransformState and Part :: nat and S' :: VPTransformState
  assume "Part < UF State" and "cast_part this I Opc DestTy State Part = Inr S'"
  then have "UF S' = UF State"
    using cast_part_sameSetting [of this I Opc DestTy State Part S'] by (simp add: sameSetting_def)
  with \<open>Part < UF State\<close>
  show "((this, I, Opc, DestTy, S', Part + 1), (this, I, Opc, DestTy, State, Part)) \<in> measure (\<lambda>(this, I, Opc, DestTy, State, Part). UF State - Part)"
    by simp
qed

declare cast_loop.simps [simp del]

text \<open>
  \<^verbatim>\<open>VPWidenRecipe::execute\<close>: the \<^verbatim>\<open>switch\<close> over the opcode of the underlying instruction. All
  eighteen binary operators and \<^verbatim>\<open>FNeg\<close> stand on the labels of the widening block; of the
  casts, \<^verbatim>\<open>AddrSpaceCast\<close> has no label.
\<close>

definition VPWidenRecipe_execute :: "VPWidenRecipe \<Rightarrow> VPTransformState \<Rightarrow> error + VPTransformState" where
  "VPWidenRecipe_execute this State =
     (case VPW_UnderlyingInstr this of
        None \<Rightarrow> Inl (CastFailed ''cast<Instruction>() argument of incompatible type'')
      | Some I \<Rightarrow>
          (case SI_Opcode I of
             Call \<Rightarrow> Inl (Unreachable ''This instruction is handled by a different recipe.'')
           | Br \<Rightarrow> Inl (Unreachable ''This instruction is handled by a different recipe.'')
           | PHI \<Rightarrow> Inl (Unreachable ''This instruction is handled by a different recipe.'')
           | GetElementPtr \<Rightarrow> Inl (Unreachable ''This instruction is handled by a different recipe.'')
           | Select \<Rightarrow> Inl (Unreachable ''This instruction is handled by a different recipe.'')
           | BinaryOp bop \<Rightarrow> widen_loop this I (setDebugLocFromInst I State) 0
           | FNeg \<Rightarrow> widen_loop this I (setDebugLocFromInst I State) 0
           | Freeze \<Rightarrow> freeze_loop this (setDebugLocFromInst I State) 0
           | ICmp \<Rightarrow> cmp_loop this I (setDebugLocFromInst I State) 0
           | FCmp \<Rightarrow> cmp_loop this I (setDebugLocFromInst I State) 0
           | Cast Opc \<Rightarrow>
               (if Opc = AddrSpaceCast then Inl (Unreachable ''Unhandled instruction!'')
                else
                  (let S = setDebugLocFromInst I State;
                       DestTy = (if isScalar (VF S) then SI_Type I else VectorTy (SI_Type I) (VF S))
                   in cast_loop this I Opc DestTy S 0))
           | _ \<Rightarrow> Inl (Unreachable ''Unhandled instruction!'')))"

section \<open>VPReductionPHIRecipe::execute\<close>

text \<open>
  Modelled from the spec: the kinds of recurrence of the recurrence descriptors (section
  3: the kind of a descriptor, e.g. add/mul/min/max/select-compare), declared outside this file, with the two
  predicates that tell the min/max kinds and the select-compare kinds.
\<close>

datatype RecurKind =
    RecurKind_None | RecurKind_Add | RecurKind_Mul | RecurKind_Or | RecurKind_And
  | RecurKind_Xor | RecurKind_SMin | RecurKind_SMax | RecurKind_UMin | RecurKind_UMax
  | RecurKind_FAdd | RecurKind_FMul | RecurKind_FMin | RecurKind_FMax | RecurKind_FMulAdd
  | RecurKind_SelectICmp | RecurKind_SelectFCmp

fun isMinMaxRecurrenceKind :: "RecurKind \<Rightarrow> bool" where
  "isMinMaxRecurrenceKind RecurKind_SMin = True"
| "isMinMaxRecurrenceKind RecurKind_SMax = True"
| "isMinMaxRecurrenceKind RecurKind_UMin = True"
| "isMinMaxRecurrenceKind RecurKind_UMax = True"
| "isMinMaxRecurrenceKind RecurKind_FMin = True"
| "isMinMaxRecurrenceKind RecurKind_FMax = True"
| "isMinMaxRecurrenceKind K = False"

fun isSelectCmpRecurrenceKind :: "RecurKind \<Rightarrow> bool" where
  "isSelectCmpRecurrenceKind RecurKind_SelectICmp = True"
| "isSelectCmpRecurrenceKind RecurKind_SelectFCmp = True"
| "isSelectCmpRecurrenceKind K = False"

text \<open>
  Modelled from the spec: \<^verbatim>\<open>RecurrenceDescriptor::getRecurrenceIdentity(K, Tp, FMF)\<close>, defined
  outside this file: the mathematical identity element of the kind (section 4.6:
  "additive identity is the all-zero vector, multiplicative identity is all-one"), a
  constant of the scalar type \<open>Tp\<close>: zero for \<open>Add\<close>, \<open>Or\<close> and \<open>Xor\<close>, one for \<open>Mul\<close>, all
  bits set for \<open>And\<close>; for the floating-point kinds one for \<open>FMul\<close> and, for \<open>FAdd\<close> and
  \<open>FMulAdd\<close>, the negative zero, or the positive one when signed zeros do not matter.
  Min/max and select-compare kinds have no separate neutral element (section 4.6) and the
  recipe never asks for theirs.
\<close>

definition getRecurrenceIdentity :: "RecurKind \<Rightarrow> Type \<Rightarrow> FastMathFlags \<Rightarrow> error + Value" where
  "getRecurrenceIdentity K Tp FMF =
     (if K \<in> {RecurKind_Add, RecurKind_Or, RecurKind_Xor, RecurKind_Mul, RecurKind_And}
      then (case Tp of
              IntegerTy w \<Rightarrow>
                Inr (ConstantIntVal (ConstantInt_get w
                  (if K = RecurKind_Mul then 1 else if K = RecurKind_And then - 1 else 0)))
            | _ \<Rightarrow> Inl (CastFailed ''cast<IntegerType>() argument of incompatible type''))
      else if K \<in> {RecurKind_FAdd, RecurKind_FMulAdd, RecurKind_FMul}
      then (case Tp of
              FloatingPointTy \<Rightarrow>
                Inr (ConstantFPVal
                  (if K = RecurKind_FMul then FP_One
                   else if NoSignedZeros FMF then FP_Zero else FP_NegZero))
            | _ \<Rightarrow> Inl (AssertionFailed ''not a floating-point type''))
      else Inl (Unreachable ''Unknown recurrence kind''))"

record RecurrenceDescriptor =
  getRecurrenceKind :: RecurKind
  getFastMathFlags :: FastMathFlags

text \<open>
  A reduction-phi recipe: the plan value it defines, its underlying value cast to an
  instruction (\<open>None\<close> when it is null or no instruction), its start value (operand 0), its
  recurrence descriptor and its two flags.
\<close>

record VPReductionPHIRecipe =
  RP_Def :: VPValueRef
  RP_UnderlyingValue :: "ScalarInstruction option"
  RP_StartValue :: VPValue
  RP_RdxDesc :: RecurrenceDescriptor
  RP_IsInLoop :: bool
  RP_IsOrdered :: bool

text \<open>\<^verbatim>\<open>isOrdered()\<close>.\<close>

definition isOrdered :: "VPReductionPHIRecipe \<Rightarrow> bool" where
  "isOrdered this = RP_IsOrdered this"

text \<open>A null \<^verbatim>\<open>Value *\<close> given to the emitter or to a phi stops the run.\<close>

definition nonNull :: "Value option \<Rightarrow> error + Value" where
  "nonNull V = (case V of None \<Rightarrow> Inl (AssertionFailed ''use of a null value'') | Some V' \<Rightarrow> Inr V')"

text \<open>
  Modelled from the spec: \<^verbatim>\<open>Builder.SetInsertPoint(I)\<close> of the emitter (section 6: "current
  insertion point get/set"): the emitter stands in front of the instruction \<open>I\<close> of the
  block \<open>BB\<close> and takes its debug location. Under an \<^verbatim>\<open>InsertPointGuard\<close> the change lasts to
  the end of the scope: the emitter of the state is left as it was.
\<close>

definition SetInsertPoint :: "IRBuilder \<Rightarrow> Function \<Rightarrow> BasicBlock \<Rightarrow> nat \<Rightarrow> IRBuilder" where
  "SetInsertPoint B F BB I =
     B\<lparr>InsertBlock := BB, InsertPt := Some I,
       CurrentDebugLocation := (if I < length (Insts F) then DbgLoc (Insts F ! I) else 0)\<rparr>"

text \<open>\<^verbatim>\<open>cast<PHINode>(V)\<close>: the address of the phi.\<close>

definition cast_PHINode :: "Function \<Rightarrow> Value \<Rightarrow> error + nat" where
  "cast_PHINode F V =
     (case dyn_cast_InstructionVal V of
        Some a \<Rightarrow> if isPHI F a then Inr a
                  else Inl (CastFailed ''cast<PHINode>() argument of incompatible type'')
      | None \<Rightarrow> Inl (CastFailed ''cast<PHINode>() argument of incompatible type''))"

text \<open>
  The body of the first loop: a phi with no incoming edge is created at the first
  insertion point of the header (the iterator is dereferenced, so it must not be the end
  of the block) and cached for the stream.
\<close>

definition createEntryPart ::
  "VPReductionPHIRecipe \<Rightarrow> Type \<Rightarrow> BasicBlock \<Rightarrow> VPTransformState \<Rightarrow> nat \<Rightarrow>
   error + VPTransformState" where
  "createEntryPart this VecTy HeaderBB S Part =
     (case getFirstInsertionPt (Fn S) HeaderBB of
        None \<Rightarrow> Inl (AssertionFailed ''dereferencing end()'')
      | Some IP \<Rightarrow>
          (case InsertAt HeaderBB (Some IP) (newInstruction PHIOp [] VecTy ''vec.phi'') (Fn S) of
             (EntryPart, F') \<Rightarrow> Inr (State_set (RP_Def this) EntryPart Part (S\<lparr>Fn := F'\<rparr>))))"

text \<open>
  The loop \<^verbatim>\<open>for (unsigned Part = 0; Part < LastPartForNewPhi; ++Part)\<close> that creates the
  phis, from the stream \<open>Part\<close> on.
\<close>

function createEntryPart_loop ::
  "VPReductionPHIRecipe \<Rightarrow> Type \<Rightarrow> BasicBlock \<Rightarrow> nat \<Rightarrow> VPTransformState \<Rightarrow> nat \<Rightarrow>
   error + VPTransformState" where
  "createEntryPart_loop this VecTy HeaderBB LastPartForNewPhi S Part =
     (if Part < LastPartForNewPhi
      then (case createEntryPart this VecTy HeaderBB S Part of
              Inl e \<Rightarrow> Inl e
            | Inr S' \<Rightarrow> createEntryPart_loop this VecTy HeaderBB LastPartForNewPhi S' (Part + 1))
      else Inr S)"
  by pat_completeness auto
termination
  by (relation "measure (\<lambda>(this, VecTy, HeaderBB, LastPartForNewPhi, S, Part).
        LastPartForNewPhi - Part)") auto

declare createEntryPart_loop.simps [simp del]

text \<open>
  The start value and the identity that seed the phis. For a min/max or select-compare
  kind the identity is the start value, broadcast in the preheader when the phi is a
  vector. For another kind the identity is the one of the kind, and when the phi is a
  vector it is broadcast at the place where the emitter stands and the start value is
  inserted into it at lane 0, in the preheader.
\<close>

definition startAndIdentity ::
  "VPReductionPHIRecipe \<Rightarrow> bool \<Rightarrow> Type \<Rightarrow> BasicBlock \<Rightarrow> Value option \<Rightarrow> VPTransformState \<Rightarrow>
   error + Value option \<times> Value option \<times> VPTransformState" where
  "startAndIdentity this ScalarPHI VecTy VectorPH StartV S =
     (let RK = getRecurrenceKind (RP_RdxDesc this) in
      if isMinMaxRecurrenceKind RK \<or> isSelectCmpRecurrenceKind RK
      then
        (if ScalarPHI then Inr (StartV, StartV, S)
         else
           (case getTerminator (Fn S) VectorPH of
              None \<Rightarrow> Inl (AssertionFailed ''use of a null value'')
            | Some T \<Rightarrow>
                andThen (nonNull StartV) (\<lambda>V.
                  case CreateVectorSplat (SetInsertPoint (Builder S) (Fn S) VectorPH T) (VF S) V
                         ''minmax.ident'' (Fn S) of
                    (Splat, F') \<Rightarrow> Inr (Some Splat, Some Splat, S\<lparr>Fn := F'\<rparr>))))
      else
        andThen (getRecurrenceIdentity RK (getScalarType VecTy)
                   (getFastMathFlags (RP_RdxDesc this))) (\<lambda>Iden0.
          if ScalarPHI then Inr (StartV, Some Iden0, S)
          else
            (case CreateVectorSplat (Builder S) (VF S) Iden0 [] (Fn S) of
               (Iden, F1) \<Rightarrow>
                 (case getTerminator F1 VectorPH of
                    None \<Rightarrow> Inl (AssertionFailed ''use of a null value'')
                  | Some T \<Rightarrow>
                      andThen (nonNull StartV) (\<lambda>V.
                        case CreateInsertElement (SetInsertPoint (Builder S) F1 VectorPH T) Iden V
                               (ConstantIntVal (ConstantInt_get 32 0)) [] F1 of
                          (StartV', F2) \<Rightarrow> Inr (Some StartV', Some Iden, S\<lparr>Fn := F2\<rparr>))))))"

text \<open>
  The body of the second loop: the phi of the stream gets its value on the edge from the
  preheader, the start value for the stream 0 and the identity for every other stream.
\<close>

definition addIncomingPart ::
  "VPReductionPHIRecipe \<Rightarrow> Value option \<Rightarrow> Value option \<Rightarrow> BasicBlock \<Rightarrow> VPTransformState \<Rightarrow>
   nat \<Rightarrow> error + VPTransformState" where
  "addIncomingPart this StartV Iden VectorPH S Part =
     andThen (State_get S (RP_Def this) Part) (\<lambda>EntryPart.
       let StartVal = (if Part = 0 then StartV else Iden) in
       andThen (cast_PHINode (Fn S) EntryPart) (\<lambda>Phi.
       andThen (nonNull StartVal) (\<lambda>V.
         Inr (S\<lparr>Fn := updateInst Phi (addIncoming V VectorPH) (Fn S)\<rparr>))))"

function addIncomingPart_loop ::
  "VPReductionPHIRecipe \<Rightarrow> Value option \<Rightarrow> Value option \<Rightarrow> BasicBlock \<Rightarrow> nat \<Rightarrow>
   VPTransformState \<Rightarrow> nat \<Rightarrow> error + VPTransformState" where
  "addIncomingPart_loop this StartV Iden VectorPH LastPartForNewPhi S Part =
     (if Part < LastPartForNewPhi
      then (case addIncomingPart this StartV Iden VectorPH S Part of
              Inl e \<Rightarrow> Inl e
            | Inr S' \<Rightarrow>
                addIncomingPart_loop this StartV Iden VectorPH LastPartForNewPhi S' (Part + 1))
      else Inr S)"
  by pat_completeness auto
termination
  by (relation "measure (\<lambda>(this, StartV, Iden, VectorPH, LastPartForNewPhi, S, Part).
        LastPartForNewPhi - Part)") auto

declare addIncomingPart_loop.simps [simp del]

text \<open>\<^verbatim>\<open>VPReductionPHIRecipe::execute\<close>.\<close>

definition VPReductionPHIRecipe_execute ::
  "VPReductionPHIRecipe \<Rightarrow> VPTransformState \<Rightarrow> error + VPTransformState" where
  "VPReductionPHIRecipe_execute this State =
     (case RP_UnderlyingValue this of
        None \<Rightarrow> Inl (CastFailed ''cast<PHINode>() argument of incompatible type'')
      | Some PN \<Rightarrow>
          if SI_Opcode PN \<noteq> PHI
          then Inl (CastFailed ''cast<PHINode>() argument of incompatible type'')
          else
            (let ScalarPHI = (isScalar (VF State) \<or> RP_IsInLoop this);
                 VecTy = (if ScalarPHI then SI_Type PN else VectorTy (SI_Type PN) (VF State));
                 HeaderBB = PrevBB State
             in if CurrentVectorLoopHeader State \<noteq> HeaderBB
                then Inl (AssertionFailed ''recipe must be in the vector loop header'')
                else
                  (let LastPartForNewPhi = (if isOrdered this then 1 else UF State) in
                   andThen
                     (createEntryPart_loop this VecTy HeaderBB LastPartForNewPhi State 0) (\<lambda>S1.
                   let VectorPH = PreheaderBB S1 in
                   andThen (getLiveInIRValue (RP_StartValue this)) (\<lambda>StartV.
                   andThen (startAndIdentity this ScalarPHI VecTy VectorPH StartV S1)
                     (\<lambda>(StartV', Iden, S2).
                        addIncomingPart_loop this StartV' Iden VectorPH LastPartForNewPhi S2 0))))))"

section \<open>The meaning of the emitted operations\<close>

text \<open>
  Modelled from the spec: what the emitted target operations compute (section 8 states the
  lowering laws on the lanes of the generated values: a broadcast, a lane-index ramp, a
  splice of the last lane of one vector with all but the last lane of another, an
  insertion at lane 0, integer additions). A run-time value is a scalar or the list of the
  lanes of a vector; integers of \<open>w\<close> bits are the numbers below \<open>2 ^ w\<close> and additions
  wrap around. The run-time environment gives \<^verbatim>\<open>vscale\<close> and the value of whatever the
  operations below do not compute (arguments, phis on a given iteration, loads, ...).
  Poison is not modelled: the no-wrap flags do not change the value computed.
\<close>

datatype RTValue = Scalar int | Lanes "int list"

record RunTime =
  vscale :: nat
  valueOfLeaf :: "Value \<Rightarrow> RTValue option"

definition numLanes :: "RunTime \<Rightarrow> ElementCount \<Rightarrow> nat" where
  "numLanes E EC =
     (if isScalable EC then vscale E * getKnownMinValue EC else getKnownMinValue EC)"

fun scalarBits :: "Type \<Rightarrow> nat option" where
  "scalarBits (IntegerTy w) = Some w"
| "scalarBits (VectorTy (IntegerTy w) EC) = Some w"
| "scalarBits T = None"

text \<open>The values of the operands, given the values of the instructions computed so far.\<close>

fun operandValue :: "RunTime \<Rightarrow> RTValue option list \<Rightarrow> Value \<Rightarrow> RTValue option" where
  "operandValue E vals (ConstantIntVal C) =
     Some (Scalar (int (getZExtValue C) mod 2 ^ getBitWidth C))"
| "operandValue E vals (InstructionVal a T) = (if a < length vals then vals ! a else None)"
| "operandValue E vals V = valueOfLeaf E V"

fun lanewise :: "(int \<Rightarrow> int \<Rightarrow> int) \<Rightarrow> RTValue \<Rightarrow> RTValue \<Rightarrow> RTValue option" where
  "lanewise f (Scalar x) (Scalar y) = Some (Scalar (f x y))"
| "lanewise f (Lanes xs) (Lanes ys) =
     (if length xs = length ys then Some (Lanes (map2 f xs ys)) else None)"
| "lanewise f x y = None"

text \<open>
  The vector splice with immediate \<open>Imm\<close>: of the concatenation of the two vectors, as many
  lanes as one vector has, from lane \<open>Imm\<close> on, or for a negative \<open>Imm\<close> from the last
  \<open>-Imm\<close> lanes of the first vector on.
\<close>

definition splice :: "int \<Rightarrow> int list \<Rightarrow> int list \<Rightarrow> int list" where
  "splice Imm xs ys =
     (if Imm < 0 then take (length xs) (drop (length xs - nat (- Imm)) (xs @ ys))
      else take (length xs) (drop (nat Imm) (xs @ ys)))"

definition evalAdd :: "Type \<Rightarrow> RTValue option list \<Rightarrow> RTValue option" where
  "evalAdd T ops =
     (case ops of
        [Some x, Some y] \<Rightarrow>
          (case scalarBits T of
             Some w \<Rightarrow> lanewise (\<lambda>p q. (p + q) mod 2 ^ w) x y
           | None \<Rightarrow> None)
      | _ \<Rightarrow> None)"

definition evalVectorSplat :: "RunTime \<Rightarrow> Type \<Rightarrow> RTValue option list \<Rightarrow> RTValue option" where
  "evalVectorSplat E T ops =
     (case ops of
        [Some (Scalar x)] \<Rightarrow>
          (case T of
             VectorTy T' EC \<Rightarrow> Some (Lanes (replicate (numLanes E EC) x))
           | _ \<Rightarrow> None)
      | _ \<Rightarrow> None)"

definition evalStepVector :: "RunTime \<Rightarrow> Type \<Rightarrow> RTValue option" where
  "evalStepVector E T =
     (case T of
        VectorTy (IntegerTy w) EC \<Rightarrow> Some (Lanes (map (\<lambda>l. int l mod 2 ^ w) [0..<numLanes E EC]))
      | _ \<Rightarrow> None)"

definition evalVectorSplice :: "int \<Rightarrow> RTValue option list \<Rightarrow> RTValue option" where
  "evalVectorSplice Imm ops =
     (case ops of
        [Some (Lanes xs), Some (Lanes ys)] \<Rightarrow>
          if length xs = length ys then Some (Lanes (splice Imm xs ys)) else None
      | _ \<Rightarrow> None)"

definition evalInsertElement :: "RTValue option list \<Rightarrow> RTValue option" where
  "evalInsertElement ops =
     (case ops of
        [Some (Lanes xs), Some (Scalar e), Some (Scalar i)] \<Rightarrow>
          if 0 \<le> i \<and> i < int (length xs) then Some (Lanes (xs[nat i := e])) else None
      | _ \<Rightarrow> None)"

definition evalVScale :: "RunTime \<Rightarrow> Type \<Rightarrow> RTValue option list \<Rightarrow> RTValue option" where
  "evalVScale E T ops =
     (case ops of
        [Some (Scalar x)] \<Rightarrow>
          (case scalarBits T of
             Some w \<Rightarrow> Some (Scalar ((int (vscale E) * x) mod 2 ^ w))
           | None \<Rightarrow> None)
      | _ \<Rightarrow> None)"

text \<open>
  The value of the instruction at address \<open>a\<close>, given the values of the instructions before
  it.
\<close>

definition evalInstruction ::
  "RunTime \<Rightarrow> RTValue option list \<Rightarrow> nat \<Rightarrow> IRInstruction \<Rightarrow> RTValue option" where
  "evalInstruction E vals a I =
     (let ops = map (operandValue E vals) (Operands I) in
      case Operation I of
        BinOp Add \<Rightarrow> evalAdd (ResultTy I) ops
      | VectorSplatOp \<Rightarrow> evalVectorSplat E (ResultTy I) ops
      | StepVectorOp \<Rightarrow> evalStepVector E (ResultTy I)
      | VectorSpliceOp Imm \<Rightarrow> evalVectorSplice Imm ops
      | InsertElementOp \<Rightarrow> evalInsertElement ops
      | VScaleOp \<Rightarrow> evalVScale E (ResultTy I) ops
      | _ \<Rightarrow> valueOfLeaf E (InstructionVal a (ResultTy I)))"

text \<open>The values of all instructions of a table, in the order of their creation.\<close>

definition evalInsts :: "RunTime \<Rightarrow> IRInstruction list \<Rightarrow> RTValue option list" where
  "evalInsts E Is = foldl (\<lambda>vals I. vals @ [evalInstruction E vals (length vals) I]) [] Is"

definition valueOf :: "RunTime \<Rightarrow> Function \<Rightarrow> Value \<Rightarrow> RTValue option" where
  "valueOf E F V = operandValue E (evalInsts E (Insts F)) V"


text \<open>
  Modelled from the spec: the sum of a seed (section 8: "sum over all streams' seeds"): a
  scalar counts for itself, a vector for the sum of its lanes.
\<close>

fun laneSum :: "RTValue \<Rightarrow> int" where
  "laneSum (Scalar x) = x"
| "laneSum (Lanes xs) = sum_list xs"

section \<open>A concrete state\<close>

text \<open>
  A small state on which the theorems are instantiated: width 4, unroll count 2, and a
  function of two blocks: block 0 (the header of the vector loop) holds one phi of 64 bits
  (the canonical induction) and a placeholder terminator, block 1 (the preheader) holds
  its terminator. The emitter stands in front of the terminator of block 0. The cache
  holds that phi for the plan value 1, for both streams.
\<close>

definition exampleFunction :: Function where
  "exampleFunction =
     \<lparr>Insts = [newInstruction PHIOp [] (IntegerTy 64) ''index'',
               newInstruction UnreachableOp [] VoidTy [],
               newInstruction UnreachableOp [] VoidTy []],
      BlockInsts = (\<lambda>BB. [])(0 := [0, 1], 1 := [2])\<rparr>"

definition exampleBuilder :: IRBuilder where
  "exampleBuilder =
     \<lparr>InsertBlock = 0, InsertPt = Some 1, B_FMF = noFastMathFlags, CurrentDebugLocation = 0\<rparr>"

definition exampleState :: VPTransformState where
  "exampleState =
     \<lparr>VF = ElementCount 4 False, UF = 2, Instance = None,
      PerPartOutput = [(1, 0) \<mapsto> InstructionVal 0 (IntegerTy 64),
                       (1, 1) \<mapsto> InstructionVal 0 (IntegerTy 64)],
      PerPartScalars = Map.empty,
      Builder = exampleBuilder,
      Fn = exampleFunction,
      PrevBB = 0,
      VPBB2IRBB = Map.empty,
      PreheaderBB = 1,
      CurrentVectorLoopHeader = 0,
      MayGeneratePoisonRecipes = {}\<rparr>"

text \<open>A run in which the phi holds 10.\<close>

definition exampleRunTime :: RunTime where
  "exampleRunTime =
     \<lparr>vscale = 1, valueOfLeaf = [InstructionVal 0 (IntegerTy 64) \<mapsto> Scalar 10]\<rparr>"

definition exampleVPInstruction :: "Opcode \<Rightarrow> VPValueRef list \<Rightarrow> VPInstruction" where
  "exampleVPInstruction Opc Ops =
     \<lparr>VPI_Def = 2, VPI_Opcode = Opc, VPI_operands = Ops, VPI_FMF = noFastMathFlags, VPI_DL = 7,
      VPI_ParentIsExiting = False, VPI_RegionEntry = 0, VPI_VectorLoopHeader = 0\<rparr>"

text \<open>
  The same state with vector-shaped cache entries: the plan value 3 (a recurrence phi) for
  stream 0 and the plan value 4 for both streams, and a run in which they hold the lanes
  1..4, 5..8 and 9..12.
\<close>

definition exampleVectorState :: VPTransformState where
  "exampleVectorState =
     exampleState\<lparr>PerPartOutput :=
       [(3, 0) \<mapsto> ArgumentVal 0 (VectorTy (IntegerTy 32) (ElementCount 4 False)),
        (4, 0) \<mapsto> ArgumentVal 1 (VectorTy (IntegerTy 32) (ElementCount 4 False)),
        (4, 1) \<mapsto> ArgumentVal 2 (VectorTy (IntegerTy 32) (ElementCount 4 False))]\<rparr>"

definition exampleVectorRunTime :: RunTime where
  "exampleVectorRunTime =
     \<lparr>vscale = 1,
      valueOfLeaf =
        [ArgumentVal 0 (VectorTy (IntegerTy 32) (ElementCount 4 False)) \<mapsto> Lanes [1, 2, 3, 4],
         ArgumentVal 1 (VectorTy (IntegerTy 32) (ElementCount 4 False)) \<mapsto> Lanes [5, 6, 7, 8],
         ArgumentVal 2 (VectorTy (IntegerTy 32) (ElementCount 4 False)) \<mapsto> Lanes [9, 10, 11, 12]]\<rparr>"


text \<open>
  A widening recipe (at the address 5, defining the plan value 2) of an integer addition of
  the plan value 1 to itself, whose original instruction carries both no-wrap flags, and
  the state above with that recipe in the set \<^verbatim>\<open>MayGeneratePoisonRecipes\<close>.
\<close>

definition exampleScalarAdd :: ScalarInstruction where
  "exampleScalarAdd =
     \<lparr>SI_Opcode = BinaryOp Add,
      SI_Flags = noIRFlags\<lparr>HasNoUnsignedWrap := True, HasNoSignedWrap := True\<rparr>,
      SI_Type = IntegerTy 64, SI_Predicate = ICMP_EQ, SI_DebugLoc = 7, SI_Metadata = []\<rparr>"

definition exampleWidenRecipe :: VPWidenRecipe where
  "exampleWidenRecipe =
     \<lparr>VPW_this = 5, VPW_Def = 2, VPW_operands = [1, 1],
      VPW_UnderlyingInstr = Some exampleScalarAdd\<rparr>"

definition examplePoisonState :: VPTransformState where
  "examplePoisonState = exampleState\<lparr>MayGeneratePoisonRecipes := {5}\<rparr>"

text \<open>
  A reduction-phi recipe (defining the plan value 2) of a reduction of 32-bit integers that
  starts at the constant 10, of a given kind, in-loop or not.
\<close>

definition exampleScalarPHI :: ScalarInstruction where
  "exampleScalarPHI =
     \<lparr>SI_Opcode = PHI, SI_Flags = noIRFlags, SI_Type = IntegerTy 32, SI_Predicate = ICMP_EQ,
      SI_DebugLoc = 0, SI_Metadata = []\<rparr>"

definition exampleReductionPHI :: "RecurKind \<Rightarrow> bool \<Rightarrow> VPReductionPHIRecipe" where
  "exampleReductionPHI K InLoop =
     \<lparr>RP_Def = 2, RP_UnderlyingValue = Some exampleScalarPHI,
      RP_StartValue = \<lparr>VPV_Def = None, VPV_UnderlyingValue = Some (ConstantIntVal (ConstantInt 32 10))\<rparr>,
      RP_RdxDesc = \<lparr>getRecurrenceKind = K, getFastMathFlags = noFastMathFlags\<rparr>,
      RP_IsInLoop = InLoop, RP_IsOrdered = False\<rparr>"
section \<open>Theorems\<close>

subsection \<open>The effect classifier\<close>

lemma dyn_cast_or_null_Instruction_None [simp]:
  "dyn_cast_or_null_Instruction None = None"
  by (simp add: dyn_cast_or_null_Instruction_def)

lemma underlyingEffectFree_pure:
  assumes "underlyingEffectFree R"
  shows "mayWriteToMemory_pure R = Inr False"
    and "mayReadFromMemory_pure R = Inr False"
    and "mayHaveSideEffects_pure R = Inr False"
  using assms
  by (auto simp: underlyingEffectFree_def mayWriteToMemory_pure_def mayReadFromMemory_pure_def
      mayHaveSideEffects_pure_def split: option.splits)

lemma memoryPureKinds_cases:
  "k \<in> set memoryPureKinds \<longleftrightarrow>
     k = VPWidenIntOrFpInductionSC \<or> k = VPWidenCanonicalIVSC \<or> k = VPWidenPHISC \<or>
     k = VPBlendSC \<or> k = VPWidenSC \<or> k = VPWidenGEPSC \<or> k = VPReductionSC \<or>
     k = VPWidenSelectSC"
  by (auto simp: memoryPureKinds_def)

lemma sideEffectPureKinds_cases:
  "k \<in> set sideEffectPureKinds \<longleftrightarrow>
     k = VPWidenIntOrFpInductionSC \<or> k = VPWidenPointerInductionSC \<or>
     k = VPWidenCanonicalIVSC \<or> k = VPWidenPHISC \<or> k = VPBlendSC \<or> k = VPWidenSC \<or>
     k = VPWidenGEPSC \<or> k = VPReductionSC \<or> k = VPWidenSelectSC \<or> k = VPScalarIVStepsSC"
  by (auto simp: sideEffectPureKinds_def)

lemma mayWriteToMemory_memoryPure:
  "getVPDefID R \<in> set memoryPureKinds \<Longrightarrow> mayWriteToMemory R = mayWriteToMemory_pure R"
  by (auto simp: memoryPureKinds_cases mayWriteToMemory_def)

lemma mayReadFromMemory_memoryPure:
  "getVPDefID R \<in> set memoryPureKinds \<Longrightarrow> mayReadFromMemory R = mayReadFromMemory_pure R"
  by (auto simp: memoryPureKinds_cases mayReadFromMemory_def)

lemma mayHaveSideEffects_sideEffectPure:
  "getVPDefID R \<in> set sideEffectPureKinds \<Longrightarrow> mayHaveSideEffects R = mayHaveSideEffects_pure R"
  by (auto simp: sideEffectPureKinds_cases mayHaveSideEffects_def)

lemma memoryPure_sideEffectPure:
  "k \<in> set memoryPureKinds \<Longrightarrow> k \<in> set sideEffectPureKinds"
  by (auto simp: memoryPureKinds_def sideEffectPureKinds_def)

lemma mayWriteToMemory_not_listed:
  "getVPDefID R = VPWidenPointerInductionSC \<or> getVPDefID R = VPScalarIVStepsSC \<Longrightarrow>
   mayWriteToMemory R = Inr True \<and> mayReadFromMemory R = Inr True"
  by (auto simp: mayWriteToMemory_def mayReadFromMemory_def)

text \<open>
  C1 (as amended). Under the precondition that the mirrored original operation, when present,
  neither accesses memory nor has side effects: \<^verbatim>\<open>mayReadFromMemory\<close> and \<^verbatim>\<open>mayWriteToMemory\<close>
  return false for every recipe of the eight kinds on their asserting block (widened
  integer/float induction, widened canonical induction, widened phi, blend, widened
  arithmetic/compare, widened GEP, reduction, widened select), and \<^verbatim>\<open>mayHaveSideEffects\<close>
  returns false for every recipe of those kinds and of the pointer-induction and
  scalar-IV-steps kinds.
\<close>

theorem C1_pure_kinds_answer_false:
  assumes "underlyingEffectFree R"
  shows "(getVPDefID R \<in> set memoryPureKinds \<longrightarrow>
            mayReadFromMemory R = Inr False \<and> mayWriteToMemory R = Inr False) \<and>
         (getVPDefID R \<in> set sideEffectPureKinds \<longrightarrow> mayHaveSideEffects R = Inr False)"
  using assms
  by (simp add: mayWriteToMemory_memoryPure mayReadFromMemory_memoryPure
      mayHaveSideEffects_sideEffectPure underlyingEffectFree_pure)

theorem C1_pure_kinds_answer_false_witness:
  "underlyingEffectFree
     \<lparr>getVPDefID = VPWidenSC,
      getUnderlyingValue = Some (IsInstruction
        \<lparr>I_mayWriteToMemory = False, I_mayReadFromMemory = False, I_mayHaveSideEffects = False\<rparr>),
      isStore = False\<rparr> \<and>
   mayReadFromMemory
     \<lparr>getVPDefID = VPWidenSC,
      getUnderlyingValue = Some (IsInstruction
        \<lparr>I_mayWriteToMemory = False, I_mayReadFromMemory = False, I_mayHaveSideEffects = False\<rparr>),
      isStore = False\<rparr> = Inr False \<and>
   mayWriteToMemory
     \<lparr>getVPDefID = VPWidenSC,
      getUnderlyingValue = Some (IsInstruction
        \<lparr>I_mayWriteToMemory = False, I_mayReadFromMemory = False, I_mayHaveSideEffects = False\<rparr>),
      isStore = False\<rparr> = Inr False \<and>
   mayHaveSideEffects
     \<lparr>getVPDefID = VPWidenSC,
      getUnderlyingValue = Some (IsInstruction
        \<lparr>I_mayWriteToMemory = False, I_mayReadFromMemory = False, I_mayHaveSideEffects = False\<rparr>),
      isStore = False\<rparr> = Inr False"
proof -
  let ?R = "\<lparr>getVPDefID = VPWidenSC,
      getUnderlyingValue = Some (IsInstruction
        \<lparr>I_mayWriteToMemory = False, I_mayReadFromMemory = False, I_mayHaveSideEffects = False\<rparr>),
      isStore = False\<rparr>"
  have free: "underlyingEffectFree ?R"
    by (simp add: underlyingEffectFree_def dyn_cast_or_null_Instruction_def)
  have m: "getVPDefID ?R \<in> set memoryPureKinds"
    by (simp add: memoryPureKinds_def)
  have e: "getVPDefID ?R \<in> set sideEffectPureKinds"
    by (simp add: sideEffectPureKinds_def)
  from C1_pure_kinds_answer_false [OF free] m e free show ?thesis
    by blast
qed

text \<open>
  C1 as stated fails: a scalar-IV-steps recipe (and likewise a pointer-induction recipe) with
  no mirrored operation is on no label of \<^verbatim>\<open>mayWriteToMemory\<close> or \<^verbatim>\<open>mayReadFromMemory\<close>, and
  the \<^verbatim>\<open>default\<close> label answers true.
\<close>

theorem C1_scalar_steps_counterexample:
  "underlyingEffectFree
     \<lparr>getVPDefID = VPScalarIVStepsSC, getUnderlyingValue = None, isStore = False\<rparr> \<and>
   VPScalarIVStepsSC \<in> set sideEffectPureKinds \<and>
   mayWriteToMemory
     \<lparr>getVPDefID = VPScalarIVStepsSC, getUnderlyingValue = None, isStore = False\<rparr> = Inr True \<and>
   mayReadFromMemory
     \<lparr>getVPDefID = VPScalarIVStepsSC, getUnderlyingValue = None, isStore = False\<rparr> = Inr True \<and>
   mayWriteToMemory
     \<lparr>getVPDefID = VPWidenPointerInductionSC, getUnderlyingValue = None, isStore = False\<rparr>
     = Inr True \<and>
   mayReadFromMemory
     \<lparr>getVPDefID = VPWidenPointerInductionSC, getUnderlyingValue = None, isStore = False\<rparr>
     = Inr True"
  by (simp add: underlyingEffectFree_def sideEffectPureKinds_def mayWriteToMemory_def
      mayReadFromMemory_def)

text \<open>
  C9. Each query, on a recipe of a kind of its own asserting block, fails with its assertion
  exactly when the mirrored original instruction is present and has the effect the query is
  about (writes memory for \<^verbatim>\<open>mayWriteToMemory\<close>, reads memory for \<^verbatim>\<open>mayReadFromMemory\<close>, has
  side effects for \<^verbatim>\<open>mayHaveSideEffects\<close>); and when the mirrored instruction (if present) is
  effect-free, none of the three queries fails on a recipe of a pure kind: the assertion
  branch is not reached.
\<close>

theorem C9_pure_kinds_assertion:
  "(getVPDefID R \<in> set memoryPureKinds \<longrightarrow>
      (mayWriteToMemory R = Inl (AssertionFailed ''underlying instruction may write to memory''))
        = (\<exists>I. getUnderlyingValue R = Some (IsInstruction I) \<and> I_mayWriteToMemory I) \<and>
      (mayWriteToMemory R \<noteq> Inl (AssertionFailed ''underlying instruction may write to memory'')
        \<longrightarrow> mayWriteToMemory R = Inr False)) \<and>
   (getVPDefID R \<in> set memoryPureKinds \<longrightarrow>
      (mayReadFromMemory R = Inl (AssertionFailed ''underlying instruction may read from memory''))
        = (\<exists>I. getUnderlyingValue R = Some (IsInstruction I) \<and> I_mayReadFromMemory I) \<and>
      (mayReadFromMemory R \<noteq> Inl (AssertionFailed ''underlying instruction may read from memory'')
        \<longrightarrow> mayReadFromMemory R = Inr False)) \<and>
   (getVPDefID R \<in> set sideEffectPureKinds \<longrightarrow>
      (mayHaveSideEffects R = Inl (AssertionFailed ''underlying instruction has side-effects''))
        = (\<exists>I. getUnderlyingValue R = Some (IsInstruction I) \<and> I_mayHaveSideEffects I) \<and>
      (mayHaveSideEffects R \<noteq> Inl (AssertionFailed ''underlying instruction has side-effects'')
        \<longrightarrow> mayHaveSideEffects R = Inr False)) \<and>
   (getVPDefID R \<in> set sideEffectPureKinds \<and> underlyingEffectFree R \<longrightarrow>
      (\<forall>e. mayWriteToMemory R \<noteq> Inl e \<and> mayReadFromMemory R \<noteq> Inl e \<and>
           mayHaveSideEffects R \<noteq> Inl e))"
proof (intro conjI impI)
  assume k: "getVPDefID R \<in> set memoryPureKinds"
  show "(mayWriteToMemory R = Inl (AssertionFailed ''underlying instruction may write to memory''))
        = (\<exists>I. getUnderlyingValue R = Some (IsInstruction I) \<and> I_mayWriteToMemory I)"
    unfolding mayWriteToMemory_memoryPure [OF k]
    by (auto simp: mayWriteToMemory_pure_def dyn_cast_or_null_Instruction_def
        split: option.splits UnderlyingValue.splits)
  show "mayWriteToMemory R = Inr False"
    if "mayWriteToMemory R \<noteq> Inl (AssertionFailed ''underlying instruction may write to memory'')"
    using that unfolding mayWriteToMemory_memoryPure [OF k]
    by (auto simp: mayWriteToMemory_pure_def split: option.splits if_splits)
  show "(mayReadFromMemory R = Inl (AssertionFailed ''underlying instruction may read from memory''))
        = (\<exists>I. getUnderlyingValue R = Some (IsInstruction I) \<and> I_mayReadFromMemory I)"
    unfolding mayReadFromMemory_memoryPure [OF k]
    by (auto simp: mayReadFromMemory_pure_def dyn_cast_or_null_Instruction_def
        split: option.splits UnderlyingValue.splits)
  show "mayReadFromMemory R = Inr False"
    if "mayReadFromMemory R \<noteq> Inl (AssertionFailed ''underlying instruction may read from memory'')"
    using that unfolding mayReadFromMemory_memoryPure [OF k]
    by (auto simp: mayReadFromMemory_pure_def split: option.splits if_splits)
next
  assume k: "getVPDefID R \<in> set sideEffectPureKinds"
  show "(mayHaveSideEffects R = Inl (AssertionFailed ''underlying instruction has side-effects''))
        = (\<exists>I. getUnderlyingValue R = Some (IsInstruction I) \<and> I_mayHaveSideEffects I)"
    unfolding mayHaveSideEffects_sideEffectPure [OF k]
    by (auto simp: mayHaveSideEffects_pure_def dyn_cast_or_null_Instruction_def
        split: option.splits UnderlyingValue.splits)
  show "mayHaveSideEffects R = Inr False"
    if "mayHaveSideEffects R \<noteq> Inl (AssertionFailed ''underlying instruction has side-effects'')"
    using that unfolding mayHaveSideEffects_sideEffectPure [OF k]
    by (auto simp: mayHaveSideEffects_pure_def split: option.splits if_splits)
next
  assume a: "getVPDefID R \<in> set sideEffectPureKinds \<and> underlyingEffectFree R"
  then have k: "getVPDefID R \<in> set sideEffectPureKinds" and f: "underlyingEffectFree R"
    by simp_all
  have se: "mayHaveSideEffects R = Inr False"
    by (simp add: mayHaveSideEffects_sideEffectPure [OF k] underlyingEffectFree_pure [OF f])
  have "mayWriteToMemory R = Inr False \<and> mayReadFromMemory R = Inr False \<or>
        mayWriteToMemory R = Inr True \<and> mayReadFromMemory R = Inr True"
  proof (cases "getVPDefID R \<in> set memoryPureKinds")
    case True
    then show ?thesis
      by (simp add: mayWriteToMemory_memoryPure mayReadFromMemory_memoryPure
          underlyingEffectFree_pure [OF f])
  next
    case False
    with k have "getVPDefID R = VPWidenPointerInductionSC \<or> getVPDefID R = VPScalarIVStepsSC"
      by (auto simp: sideEffectPureKinds_cases memoryPureKinds_cases)
    then show ?thesis
      by (simp add: mayWriteToMemory_not_listed)
  qed
  with se show "\<forall>e. mayWriteToMemory R \<noteq> Inl e \<and> mayReadFromMemory R \<noteq> Inl e \<and>
          mayHaveSideEffects R \<noteq> Inl e"
    by auto
qed

theorem C9_pure_kinds_assertion_witness:
  "mayWriteToMemory
     \<lparr>getVPDefID = VPWidenSC,
      getUnderlyingValue = Some (IsInstruction
        \<lparr>I_mayWriteToMemory = True, I_mayReadFromMemory = True, I_mayHaveSideEffects = True\<rparr>),
      isStore = False\<rparr>
     = Inl (AssertionFailed ''underlying instruction may write to memory'') \<and>
   mayReadFromMemory
     \<lparr>getVPDefID = VPWidenSC,
      getUnderlyingValue = Some (IsInstruction
        \<lparr>I_mayWriteToMemory = True, I_mayReadFromMemory = True, I_mayHaveSideEffects = True\<rparr>),
      isStore = False\<rparr>
     = Inl (AssertionFailed ''underlying instruction may read from memory'') \<and>
   mayHaveSideEffects
     \<lparr>getVPDefID = VPWidenSC,
      getUnderlyingValue = Some (IsInstruction
        \<lparr>I_mayWriteToMemory = True, I_mayReadFromMemory = True, I_mayHaveSideEffects = True\<rparr>),
      isStore = False\<rparr>
     = Inl (AssertionFailed ''underlying instruction has side-effects'') \<and>
   underlyingEffectFree
     \<lparr>getVPDefID = VPReductionSC, getUnderlyingValue = Some NotAnInstruction, isStore = False\<rparr> \<and>
   mayWriteToMemory
     \<lparr>getVPDefID = VPReductionSC, getUnderlyingValue = Some NotAnInstruction, isStore = False\<rparr>
     = Inr False"
proof -
  let ?I = "\<lparr>I_mayWriteToMemory = True, I_mayReadFromMemory = True, I_mayHaveSideEffects = True\<rparr>"
  let ?R = "\<lparr>getVPDefID = VPWidenSC, getUnderlyingValue = Some (IsInstruction ?I),
            isStore = False\<rparr>"
  let ?Q = "\<lparr>getVPDefID = VPReductionSC, getUnderlyingValue = Some NotAnInstruction,
            isStore = False\<rparr>"
  have m: "getVPDefID ?R \<in> set memoryPureKinds" "getVPDefID ?Q \<in> set memoryPureKinds"
    by (simp_all add: memoryPureKinds_def)
  have e: "getVPDefID ?R \<in> set sideEffectPureKinds" "getVPDefID ?Q \<in> set sideEffectPureKinds"
    by (simp_all add: sideEffectPureKinds_def)
  have i: "\<exists>I. getUnderlyingValue ?R = Some (IsInstruction I) \<and> I_mayWriteToMemory I"
    "\<exists>I. getUnderlyingValue ?R = Some (IsInstruction I) \<and> I_mayReadFromMemory I"
    "\<exists>I. getUnderlyingValue ?R = Some (IsInstruction I) \<and> I_mayHaveSideEffects I"
    by simp_all
  have f: "underlyingEffectFree ?Q"
    by (simp add: underlyingEffectFree_def dyn_cast_or_null_Instruction_def)
  have n: "\<not> (\<exists>I. getUnderlyingValue ?Q = Some (IsInstruction I) \<and> I_mayWriteToMemory I)"
    by simp
  from C9_pure_kinds_assertion [of ?R] m(1) e(1) i
  have r: "mayWriteToMemory ?R = Inl (AssertionFailed ''underlying instruction may write to memory'')"
    "mayReadFromMemory ?R = Inl (AssertionFailed ''underlying instruction may read from memory'')"
    "mayHaveSideEffects ?R = Inl (AssertionFailed ''underlying instruction has side-effects'')"
    by blast+
  from C9_pure_kinds_assertion [of ?Q] m(2) n
  have q: "mayWriteToMemory ?Q = Inr False"
    by blast
  from r q f show ?thesis
    by blast
qed

subsection \<open>Block membership\<close>

lemma ilist_remove_insert:
  "New \<notin> set xs \<Longrightarrow> ilist_remove New (ilist_insert wh New xs) = xs"
  by (induction xs) auto

lemma ilist_remove_insertAfter:
  "New \<notin> set xs \<Longrightarrow> wh \<noteq> Some New \<Longrightarrow> ilist_remove New (ilist_insertAfter wh New xs) = xs"
  by (induction xs) auto

lemma ilist_insert_at:
  "wh \<in> set xs \<Longrightarrow>
   \<exists>ys zs. xs = ys @ wh # zs \<and> wh \<notin> set ys \<and> ilist_insert (Some wh) New xs = ys @ New # wh # zs"
proof (induction xs)
  case Nil
  then show ?case by simp
next
  case (Cons x xs)
  show ?case
  proof (cases "x = wh")
    case True
    then have "x # xs = [] @ wh # xs \<and> wh \<notin> set [] \<and>
        ilist_insert (Some wh) New (x # xs) = [] @ New # wh # xs"
      by simp
    then show ?thesis by blast
  next
    case False
    with Cons obtain ys zs where
      "xs = ys @ wh # zs" "wh \<notin> set ys" "ilist_insert (Some wh) New xs = ys @ New # wh # zs"
      by auto
    with False have "x # xs = (x # ys) @ wh # zs \<and> wh \<notin> set (x # ys) \<and>
        ilist_insert (Some wh) New (x # xs) = (x # ys) @ New # wh # zs"
      by simp
    then show ?thesis by blast
  qed
qed

lemma ilist_insertAfter_at:
  "wh \<in> set xs \<Longrightarrow>
   \<exists>ys zs. xs = ys @ wh # zs \<and> wh \<notin> set ys \<and>
     ilist_insertAfter (Some wh) New xs = ys @ wh # New # zs"
proof (induction xs)
  case Nil
  then show ?case by simp
next
  case (Cons x xs)
  show ?case
  proof (cases "x = wh")
    case True
    then have "x # xs = [] @ wh # xs \<and> wh \<notin> set [] \<and>
        ilist_insertAfter (Some wh) New (x # xs) = [] @ wh # New # xs"
      by simp
    then show ?thesis by blast
  next
    case False
    with Cons obtain ys zs where
      "xs = ys @ wh # zs" "wh \<notin> set ys" "ilist_insertAfter (Some wh) New xs = ys @ wh # New # zs"
      by auto
    with False have "x # xs = (x # ys) @ wh # zs \<and> wh \<notin> set (x # ys) \<and>
        ilist_insertAfter (Some wh) New (x # xs) = (x # ys) @ wh # New # zs"
      by simp
    then show ?thesis by blast
  qed
qed

lemma linked_unlinked:
  assumes "linked s" and "Parent s r = None"
  shows "r \<notin> set (getRecipeList s BB)"
proof
  assume "r \<in> set (getRecipeList s BB)"
  with assms(1) have "Parent s r = Some BB"
    unfolding linked_def by blast
  with assms(2) show False by simp
qed

lemma linked_member:
  assumes "linked s" and "Parent s r = Some BB"
  shows "r \<in> set (getRecipeList s BB)"
  using assms unfolding linked_def by blast

text \<open>
  C7. In a store that satisfies the list invariant, for a recipe \<open>R\<close> with no parent and a
  position \<open>P\<close> linked into a block \<open>BB\<close>: \<^verbatim>\<open>insertBefore(P)\<close> succeeds and links \<open>R\<close> into
  \<open>BB\<close> directly in front of \<open>P\<close>, \<^verbatim>\<open>insertAfter(P)\<close> succeeds and links it directly behind
  \<open>P\<close>, and in both cases the following \<^verbatim>\<open>removeFromParent()\<close> succeeds and gives back the
  store as it was before the insertion: every block has its former recipe sequence and \<open>R\<close>
  has no parent.
\<close>

theorem C7_insert_then_remove:
  assumes "linked s" and "Parent s R = None" and "Parent s P = Some BB"
  shows "(\<exists>s1 ys zs. insertBefore R P s = Inr s1 \<and> Parent s1 R = Some BB \<and>
            getRecipeList s BB = ys @ P # zs \<and> getRecipeList s1 BB = ys @ R # P # zs \<and>
            removeFromParent R s1 = Inr s) \<and>
         (\<exists>s1 ys zs. insertAfter R P s = Inr s1 \<and> Parent s1 R = Some BB \<and>
            getRecipeList s BB = ys @ P # zs \<and> getRecipeList s1 BB = ys @ P # R # zs \<and>
            removeFromParent R s1 = Inr s) \<and>
         andThen (insertBefore R P s) (removeFromParent R) = Inr s \<and>
         andThen (insertAfter R P s) (removeFromParent R) = Inr s \<and>
         Parent s R = None"
proof -
  let ?xs = "getRecipeList s BB"
  have notin: "R \<notin> set ?xs"
    using assms(1,2) by (rule linked_unlinked)
  have pin: "P \<in> set ?xs"
    using assms(1,3) by (rule linked_member)
  have ne: "Some P \<noteq> Some R"
    using assms(2,3) by auto
  have par: "(Parent s)(R := None) = Parent s"
    using assms(2) by auto
  define s1 where "s1 = s\<lparr>Parent := (Parent s)(R := Some BB),
      getRecipeList := (getRecipeList s)(BB := ilist_insert (Some P) R ?xs)\<rparr>"
  define s2 where "s2 = s\<lparr>Parent := (Parent s)(R := Some BB),
      getRecipeList := (getRecipeList s)(BB := ilist_insertAfter (Some P) R ?xs)\<rparr>"
  have ib: "insertBefore R P s = Inr s1"
    using assms(2,3) by (simp add: insertBefore_def s1_def)
  have ia: "insertAfter R P s = Inr s2"
    using assms(2,3) by (simp add: insertAfter_def s2_def)
  have r1: "removeFromParent R s1 = Inr s"
    by (simp add: removeFromParent_def s1_def ilist_remove_insert [OF notin] par)
  have r2: "removeFromParent R s2 = Inr s"
    by (simp add: removeFromParent_def s2_def ilist_remove_insertAfter [OF notin ne] par)
  obtain ys zs where b: "?xs = ys @ P # zs" "ilist_insert (Some P) R ?xs = ys @ R # P # zs"
    using ilist_insert_at [OF pin] by blast
  obtain ys' zs' where a: "?xs = ys' @ P # zs'" "ilist_insertAfter (Some P) R ?xs = ys' @ P # R # zs'"
    using ilist_insertAfter_at [OF pin] by blast
  have c1: "\<exists>s1 ys zs. insertBefore R P s = Inr s1 \<and> Parent s1 R = Some BB \<and>
            getRecipeList s BB = ys @ P # zs \<and> getRecipeList s1 BB = ys @ R # P # zs \<and>
            removeFromParent R s1 = Inr s"
    using ib r1 b by (intro exI [of _ s1] exI [of _ ys] exI [of _ zs]) (simp add: s1_def)
  have c2: "\<exists>s1 ys zs. insertAfter R P s = Inr s1 \<and> Parent s1 R = Some BB \<and>
            getRecipeList s BB = ys @ P # zs \<and> getRecipeList s1 BB = ys @ P # R # zs \<and>
            removeFromParent R s1 = Inr s"
    using ia r2 a by (intro exI [of _ s2] exI [of _ ys'] exI [of _ zs']) (simp add: s2_def)
  have c3: "andThen (insertBefore R P s) (removeFromParent R) = Inr s"
    by (simp add: andThen_def ib r1)
  have c4: "andThen (insertAfter R P s) (removeFromParent R) = Inr s"
    by (simp add: andThen_def ia r2)
  from c1 c2 c3 c4 assms(2) show ?thesis
    by blast
qed

theorem C7_insert_then_remove_witness:
  "linked \<lparr>Parent = (\<lambda>r. None)(1 := Some 0, 3 := Some 0),
           getRecipeList = (\<lambda>BB. [])(0 := [1, 3])\<rparr> \<and>
   insertBefore 2 3 \<lparr>Parent = (\<lambda>r. None)(1 := Some 0, 3 := Some 0),
                      getRecipeList = (\<lambda>BB. [])(0 := [1, 3])\<rparr> =
     Inr \<lparr>Parent = (\<lambda>r. None)(1 := Some 0, 3 := Some 0, 2 := Some 0),
          getRecipeList = (\<lambda>BB. [])(0 := [1, 2, 3])\<rparr> \<and>
   andThen (insertBefore 2 3 \<lparr>Parent = (\<lambda>r. None)(1 := Some 0, 3 := Some 0),
                               getRecipeList = (\<lambda>BB. [])(0 := [1, 3])\<rparr>)
     (removeFromParent 2) =
     Inr \<lparr>Parent = (\<lambda>r. None)(1 := Some 0, 3 := Some 0),
          getRecipeList = (\<lambda>BB. [])(0 := [1, 3])\<rparr> \<and>
   andThen (insertAfter 2 3 \<lparr>Parent = (\<lambda>r. None)(1 := Some 0, 3 := Some 0),
                              getRecipeList = (\<lambda>BB. [])(0 := [1, 3])\<rparr>)
     (removeFromParent 2) =
     Inr \<lparr>Parent = (\<lambda>r. None)(1 := Some 0, 3 := Some 0),
          getRecipeList = (\<lambda>BB. [])(0 := [1, 3])\<rparr>"
proof -
  let ?s = "\<lparr>Parent = (\<lambda>r. None)(1 := Some (0::nat), 3 := Some 0),
             getRecipeList = (\<lambda>BB. [])(0 := [1, 3::nat])\<rparr>"
  have l: "linked ?s"
    unfolding linked_def by (auto split: if_splits)
  have r: "Parent ?s 2 = None"
    by simp
  have p: "Parent ?s 3 = Some 0"
    by simp
  have i: "insertBefore 2 3 ?s =
     Inr \<lparr>Parent = (\<lambda>r. None)(1 := Some 0, 3 := Some 0, 2 := Some 0),
          getRecipeList = (\<lambda>BB. [])(0 := [1, 2, 3])\<rparr>"
    by (simp add: insertBefore_def)
  from C7_insert_then_remove [OF l r p] l i show ?thesis
    by blast
qed

subsection \<open>The emitter and the concrete state\<close>

lemma Insert_fst [simp]:
  "fst (Insert B I F) = InstructionVal (length (Insts F)) (ResultTy I)"
  by (simp add: Insert_def)

lemma Insert_Insts [simp]:
  "Insts (snd (Insert B I F)) = Insts F @ [I\<lparr>DbgLoc := CurrentDebugLocation B\<rparr>]"
  by (simp add: Insert_def)

lemma exampleState_simps [simp]:
  "UF exampleState = 2" "VF exampleState = ElementCount 4 False" "Instance exampleState = None"
  "Fn exampleState = exampleFunction"
  "PerPartOutput exampleState = [(1, 0) \<mapsto> InstructionVal 0 (IntegerTy 64),
                       (1, 1) \<mapsto> InstructionVal 0 (IntegerTy 64)]"
  by (simp_all add: exampleState_def)

lemma exampleFunction_value:
  "valueOf exampleRunTime exampleFunction (InstructionVal 0 (IntegerTy 64)) = Some (Scalar 10)"
  by (simp add: valueOf_def exampleFunction_def evalInsts_def evalInstruction_def
      newInstruction_def exampleRunTime_def)

lemma exampleVPInstruction_simps [simp]:
  "VPI_Def (exampleVPInstruction Opc Ops) = 2"
  "VPI_Opcode (exampleVPInstruction Opc Ops) = Opc"
  "VPI_operands (exampleVPInstruction Opc Ops) = Ops"
  "VPI_FMF (exampleVPInstruction Opc Ops) = noFastMathFlags"
  "VPI_DL (exampleVPInstruction Opc Ops) = 7"
  by (simp_all add: exampleVPInstruction_def)

lemma CreateAdd_fst:
  "fst (CreateAdd B L R Nm nuw nsw F) = InstructionVal (length (Insts F)) (getType L)"
  by (simp add: CreateAdd_def newInstruction_def)

lemma CreateAdd_Insts:
  "Insts (snd (CreateAdd B L R Nm nuw nsw F)) =
   Insts F @ [(newInstruction (BinOp Add) [L, R] (getType L) Nm)
                \<lparr>Flags := noIRFlags\<lparr>HasNoUnsignedWrap := nuw, HasNoSignedWrap := nsw\<rparr>,
                 DbgLoc := CurrentDebugLocation B\<rparr>]"
  by (simp add: CreateAdd_def newInstruction_def)

lemma CreateVectorSplat_fst:
  "fst (CreateVectorSplat B EC V Nm F) = InstructionVal (length (Insts F)) (VectorTy (getType V) EC)"
  by (simp add: CreateVectorSplat_def newInstruction_def)

lemma CreateVectorSplat_Insts:
  "Insts (snd (CreateVectorSplat B EC V Nm F)) =
   Insts F @ [(newInstruction VectorSplatOp [V] (VectorTy (getType V) EC) Nm)
                \<lparr>DbgLoc := CurrentDebugLocation B\<rparr>]"
  by (simp add: CreateVectorSplat_def newInstruction_def)

lemma CreateStepVector_vector:
  "CreateStepVector B (VectorTy (IntegerTy w) EC) F =
   Inr (InstructionVal (length (Insts F)) (VectorTy (IntegerTy w) EC),
        snd (Insert B (newInstruction StepVectorOp [] (VectorTy (IntegerTy w) EC) []) F))"
  by (simp add: CreateStepVector_def Insert_def newInstruction_def)

lemma CreateInsertElement_fst:
  "fst (CreateInsertElement B Vec E Idx Nm F) = InstructionVal (length (Insts F)) (getType Vec)"
  by (simp add: CreateInsertElement_def newInstruction_def)

lemma CreateInsertElement_Insts:
  "Insts (snd (CreateInsertElement B Vec E Idx Nm F)) =
   Insts F @ [(newInstruction InsertElementOp [Vec, E, Idx] (getType Vec) Nm)
                \<lparr>DbgLoc := CurrentDebugLocation B\<rparr>]"
  by (simp add: CreateInsertElement_def newInstruction_def)

subsection \<open>Evaluation of the emitted operations\<close>

lemma evalInsts_Nil [simp]: "evalInsts E [] = []"
  by (simp add: evalInsts_def)

lemma evalInsts_snoc:
  "evalInsts E (Is @ [I]) = evalInsts E Is @ [evalInstruction E (evalInsts E Is) (length (evalInsts E Is)) I]"
  by (simp add: evalInsts_def)

lemma length_evalInsts [simp]: "length (evalInsts E Is) = length Is"
  by (induction Is rule: rev_induct) (simp_all add: evalInsts_snoc)

lemma evalInsts_snoc':
  "evalInsts E (Is @ [I]) = evalInsts E Is @ [evalInstruction E (evalInsts E Is) (length Is) I]"
  by (simp add: evalInsts_snoc)

lemma evalInsts_append_prefix:
  "\<exists>ws. evalInsts E (Is @ Js) = evalInsts E Is @ ws"
proof (induction Js rule: rev_induct)
  case Nil
  then show ?case by simp
next
  case (snoc J Js)
  then obtain ws where ws: "evalInsts E (Is @ Js) = evalInsts E Is @ ws"
    by blast
  have "evalInsts E (Is @ Js @ [J]) = evalInsts E ((Is @ Js) @ [J])"
    by simp
  also have "\<dots> = evalInsts E Is @ (ws @ [evalInstruction E (evalInsts E (Is @ Js)) (length (Is @ Js)) J])"
    unfolding evalInsts_snoc' ws by simp
  finally show ?case
    by blast
qed

lemma evalInsts_append_nth:
  assumes "a < length Is"
  shows "evalInsts E (Is @ Js) ! a = evalInsts E Is ! a"
proof -
  obtain ws where "evalInsts E (Is @ Js) = evalInsts E Is @ ws"
    using evalInsts_append_prefix by blast
  with assms show ?thesis
    by (simp add: nth_append)
qed

text \<open>A value that evaluates keeps its value when instructions are appended.\<close>

lemma operandValue_append:
  assumes "operandValue E (evalInsts E Is) V = Some r"
  shows "operandValue E (evalInsts E (Is @ Js)) V = Some r"
proof (cases V)
  case (InstructionVal a T)
  with assms have "a < length Is"
    by (simp split: if_splits)
  with assms InstructionVal show ?thesis
    by (simp add: evalInsts_append_nth)
qed (use assms in simp_all)

lemma valueOf_Insts_append:
  assumes "valueOf E F V = Some r" and "Insts F' = Insts F @ Js"
  shows "valueOf E F' V = Some r"
  using assms by (simp add: valueOf_def operandValue_append)

lemma valueOf_new:
  assumes "Insts F' = Insts F @ [I]"
  shows "valueOf E F' (InstructionVal (length (Insts F)) T) =
         evalInstruction E (evalInsts E (Insts F)) (length (Insts F)) I"
  using assms by (simp add: valueOf_def evalInsts_snoc' nth_append)

subsection \<open>VPInstruction::execute\<close>

lemma execute_loop_generateEach:
  "execute_loop this S Part = generateEach this [Part..<UF S] S"
proof (induction this S Part rule: execute_loop.induct)
  case (1 this State Part)
  show ?case
  proof (cases "Part < UF State")
    case False
    then show ?thesis by (simp add: execute_loop.simps)
  next
    case True
    show ?thesis
    proof (cases "generateInstruction this State Part")
      case (Inl e)
      with True show ?thesis
        by (simp add: execute_loop.simps [of this State Part] upt_conv_Cons andThen_def)
    next
      case (Inr S')
      then have "UF S' = UF State"
        using generateInstruction_sameSetting [of this State Part S'] by (simp add: sameSetting_def)
      with True Inr "1.IH" [OF True Inr] show ?thesis
        by (simp add: execute_loop.simps [of this State Part] upt_conv_Cons andThen_def)
    qed
  qed
qed

lemma generateEach_sameSetting:
  "generateEach this Parts S = Inr S' \<Longrightarrow> sameSetting S S'"
proof (induction Parts arbitrary: S)
  case Nil
  then show ?case by simp
next
  case (Cons Part Parts)
  then obtain S1 where "generateInstruction this S Part = Inr S1" "generateEach this Parts S1 = Inr S'"
    by (auto simp: andThen_Inr)
  with Cons.IH show ?case
    by (blast intro: sameSetting_trans generateInstruction_sameSetting)
qed

text \<open>
  C10. \<^verbatim>\<open>VPInstruction::execute\<close> fails with its assertion when a per-lane instance is active.
  When none is, it is the sequence of the calls \<^verbatim>\<open>generateInstruction(State, Part)\<close> for
  \<open>Part = 0, 1, ..., UF - 1\<close> in this order, one call per stream, started in the state whose
  emitter carries the fast-math flags of the recipe, and followed by putting back the flags
  the emitter had before. Whatever calls have been made, the emitter still carries the
  flags of the recipe: they are installed during every call. After a successful return the
  emitter has its previous flags.
\<close>

theorem C10_execute:
  "(Instance S \<noteq> None \<longrightarrow>
      VPInstruction_execute this S = Inl (AssertionFailed ''VPInstruction executing an Instance'')) \<and>
   (Instance S = None \<longrightarrow>
      VPInstruction_execute this S =
        andThen (generateEach this [0..<UF S] (S\<lparr>Builder := (Builder S)\<lparr>B_FMF := VPI_FMF this\<rparr>\<rparr>))
          (\<lambda>S2. Inr (S2\<lparr>Builder := (Builder S2)\<lparr>B_FMF := B_FMF (Builder S)\<rparr>\<rparr>))) \<and>
   (\<forall>Parts S2.
      generateEach this Parts (S\<lparr>Builder := (Builder S)\<lparr>B_FMF := VPI_FMF this\<rparr>\<rparr>) = Inr S2 \<longrightarrow>
      B_FMF (Builder S2) = VPI_FMF this) \<and>
   (\<forall>S'. VPInstruction_execute this S = Inr S' \<longrightarrow> B_FMF (Builder S') = B_FMF (Builder S))"
proof (intro conjI impI allI)
  assume "Instance S \<noteq> None"
  then show "VPInstruction_execute this S = Inl (AssertionFailed ''VPInstruction executing an Instance'')"
    by (simp add: VPInstruction_execute_def)
next
  assume "Instance S = None"
  then show "VPInstruction_execute this S =
        andThen (generateEach this [0..<UF S] (S\<lparr>Builder := (Builder S)\<lparr>B_FMF := VPI_FMF this\<rparr>\<rparr>))
          (\<lambda>S2. Inr (S2\<lparr>Builder := (Builder S2)\<lparr>B_FMF := B_FMF (Builder S)\<rparr>\<rparr>))"
    by (simp add: VPInstruction_execute_def Let_def execute_loop_generateEach andThen_def)
next
  fix Parts S2
  assume "generateEach this Parts (S\<lparr>Builder := (Builder S)\<lparr>B_FMF := VPI_FMF this\<rparr>\<rparr>) = Inr S2"
  then have "sameSetting (S\<lparr>Builder := (Builder S)\<lparr>B_FMF := VPI_FMF this\<rparr>\<rparr>) S2"
    by (rule generateEach_sameSetting)
  then show "B_FMF (Builder S2) = VPI_FMF this"
    by (simp add: sameSetting_def)
next
  fix S'
  assume "VPInstruction_execute this S = Inr S'"
  then show "B_FMF (Builder S') = B_FMF (Builder S)"
    by (auto simp: VPInstruction_execute_def Let_def split: if_splits sum.splits)
qed

lemma generateInstruction_Not:
  assumes "VPI_Opcode this = VPNot"
    and "PerPartOutput S (Op, Part) = Some A" and "VPI_operands this = Op # Ops"
  shows "\<exists>S1. generateInstruction this S Part = Inr S1 \<and>
           PerPartOutput S1 =
             (PerPartOutput S)((VPI_Def this, Part) \<mapsto>
                InstructionVal (length (Insts (Fn S))) (getType A)) \<and>
           length (Insts (Fn S1)) = Suc (length (Insts (Fn S)))"
  using assms
  by (simp add: generateInstruction_def generate_Not_def getOperandValue_def getOperand_def
      State_get_def andThen_def case_prod_beta CreateNot_def newInstruction_def State_set_def)

theorem C10_execute_witness:
  "Instance exampleState = None \<and>
   (\<exists>S'. VPInstruction_execute (exampleVPInstruction VPNot [1]) exampleState = Inr S' \<and>
         PerPartOutput S' (2, 0) = Some (InstructionVal 3 (IntegerTy 64)) \<and>
         PerPartOutput S' (2, 1) = Some (InstructionVal 4 (IntegerTy 64)) \<and>
         B_FMF (Builder S') = B_FMF (Builder exampleState)) \<and>
   VPInstruction_execute (exampleVPInstruction VPNot [1]) (exampleState\<lparr>Instance := Some (0, 0)\<rparr>) =
     Inl (AssertionFailed ''VPInstruction executing an Instance'')"
proof -
  let ?I = "exampleVPInstruction VPNot [1]"
  let ?Phi = "InstructionVal 0 (IntegerTy 64)"
  let ?S0 = "exampleState\<lparr>Builder := (Builder exampleState)\<lparr>B_FMF := VPI_FMF ?I\<rparr>\<rparr>"
  have n: "Instance exampleState = None"
    by simp
  have i: "Instance (exampleState\<lparr>Instance := Some (0, 0)\<rparr>) \<noteq> None"
    by simp
  have opc: "VPI_Opcode ?I = VPNot" and ops: "VPI_operands ?I = 1 # []" and d: "VPI_Def ?I = 2"
    by (simp_all add: exampleVPInstruction_def)
  have p0: "PerPartOutput ?S0 (1, 0) = Some ?Phi"
    by simp
  have l0: "length (Insts (Fn ?S0)) = 3"
    by (simp add: exampleFunction_def)
  from generateInstruction_Not [OF opc p0 ops] obtain S1 where
    g1: "generateInstruction ?I ?S0 0 = Inr S1" and
    o1: "PerPartOutput S1 = (PerPartOutput ?S0)((2, 0) \<mapsto> InstructionVal 3 (IntegerTy 64))" and
    l1: "length (Insts (Fn S1)) = 4"
    unfolding d l0 by auto
  have p1: "PerPartOutput S1 (1, 1) = Some ?Phi"
    by (simp add: o1)
  from generateInstruction_Not [OF opc p1 ops] obtain S2 where
    g2: "generateInstruction ?I S1 1 = Inr S2" and
    o2: "PerPartOutput S2 = (PerPartOutput S1)((2, 1) \<mapsto> InstructionVal 4 (IntegerTy 64))"
    unfolding d l1 by auto
  have up: "[0..<UF exampleState] = [0, 1]"
    by (simp add: upt_conv_Cons)
  have g: "generateEach ?I [0..<UF exampleState] ?S0 = Inr S2"
    unfolding up using g1 g2 by (simp add: andThen_def)
  let ?S' = "S2\<lparr>Builder := (Builder S2)\<lparr>B_FMF := B_FMF (Builder exampleState)\<rparr>\<rparr>"
  from C10_execute [of exampleState ?I, THEN conjunct2, THEN conjunct1] n
  have "VPInstruction_execute ?I exampleState =
      andThen (generateEach ?I [0..<UF exampleState] ?S0)
        (\<lambda>S2. Inr (S2\<lparr>Builder := (Builder S2)\<lparr>B_FMF := B_FMF (Builder exampleState)\<rparr>\<rparr>))"
    by (rule mp)
  then have e: "VPInstruction_execute ?I exampleState = Inr ?S'"
    unfolding g by (simp add: andThen_def)
  from C10_execute [of "exampleState\<lparr>Instance := Some (0, 0)\<rparr>" ?I, THEN conjunct1] i
  have f: "VPInstruction_execute ?I (exampleState\<lparr>Instance := Some (0, 0)\<rparr>) =
     Inl (AssertionFailed ''VPInstruction executing an Instance'')"
    by blast
  have "PerPartOutput ?S' (2, 0) = Some (InstructionVal 3 (IntegerTy 64)) \<and>
        PerPartOutput ?S' (2, 1) = Some (InstructionVal 4 (IntegerTy 64)) \<and>
        B_FMF (Builder ?S') = B_FMF (Builder exampleState)"
    by (simp add: o2 o1)
  with e n f show ?thesis
    by blast
qed

subsection \<open>The canonical induction increment\<close>

lemma generate_CanonicalIVIncrement_later:
  assumes "Part \<noteq> 0" and "PerPartOutput S (VPI_Def this, 0) = Some Next"
  shows "generate_CanonicalIVIncrement this S Part = Inr (State_set (VPI_Def this) Next Part S)"
  using assms by (simp add: generate_CanonicalIVIncrement_def State_get_def andThen_def)

lemma generateInstruction_CanonicalIVIncrement:
  assumes "VPI_Opcode this = CanonicalIVIncrement \<or> VPI_Opcode this = CanonicalIVIncrementNUW"
  shows "generateInstruction this S Part =
         generate_CanonicalIVIncrement this
           (S\<lparr>Builder := (Builder S)\<lparr>CurrentDebugLocation := VPI_DL this\<rparr>\<rparr>) Part"
  using assms by (auto simp: generateInstruction_def Let_def)

lemma generateEach_CanonicalIVIncrement_later:
  assumes "VPI_Opcode this = CanonicalIVIncrement \<or> VPI_Opcode this = CanonicalIVIncrementNUW"
    and "0 \<notin> set Parts" and "PerPartOutput S (VPI_Def this, 0) = Some Next"
  shows "\<exists>S'. generateEach this Parts S = Inr S' \<and> Fn S' = Fn S \<and>
           PerPartOutput S' =
             (\<lambda>k. if fst k = VPI_Def this \<and> snd k \<in> set Parts then Some Next
                  else PerPartOutput S k)"
  using assms(2,3)
proof (induction Parts arbitrary: S)
  case Nil
  then show ?case by simp
next
  case (Cons Part Parts)
  let ?S0 = "S\<lparr>Builder := (Builder S)\<lparr>CurrentDebugLocation := VPI_DL this\<rparr>\<rparr>"
  let ?S1 = "State_set (VPI_Def this) Next Part ?S0"
  from Cons.prems have p: "Part \<noteq> 0" and r: "0 \<notin> set Parts"
    by auto
  have g: "generateInstruction this S Part = Inr ?S1"
    using Cons.prems(2) p
    by (simp add: generateInstruction_CanonicalIVIncrement [OF assms(1)]
        generate_CanonicalIVIncrement_later)
  have n: "PerPartOutput ?S1 (VPI_Def this, 0) = Some Next"
    using Cons.prems(2) p by (simp add: State_set_def)
  from Cons.IH [OF r n] obtain S' where
    S': "generateEach this Parts ?S1 = Inr S'" "Fn S' = Fn ?S1"
      "PerPartOutput S' =
         (\<lambda>k. if fst k = VPI_Def this \<and> snd k \<in> set Parts then Some Next
              else PerPartOutput ?S1 k)"
    by blast
  have "generateEach this (Part # Parts) S = Inr S'"
    using g S'(1) by (simp add: andThen_def)
  moreover have "Fn S' = Fn S"
    using S'(2) by (simp add: State_set_def)
  moreover have "PerPartOutput S' =
      (\<lambda>k. if fst k = VPI_Def this \<and> snd k \<in> set (Part # Parts) then Some Next
           else PerPartOutput S k)"
    unfolding S'(3) by (auto simp: fun_eq_iff State_set_def)
  ultimately show ?case
    by blast
qed

text \<open>Stream 0 of the canonical induction increment.\<close>

lemma generate_CanonicalIVIncrement_first:
  assumes "getOperandValue S (VPI_operands this) 0 0 = Inr Phi"
    and "getType Phi = IntegerTy w"
  shows "\<exists>S1 Step F1.
           generate_CanonicalIVIncrement this S 0 = Inr S1 \<and>
           createStepForVF (Builder S) (IntegerTy w) (VF S) (UF S) (Fn S) = Inr (Step, F1) \<and>
           Insts (Fn S1) = Insts F1 @
             [(newInstruction (BinOp Add) [Phi, Step] (IntegerTy w) ''index.next'')
                \<lparr>Flags := noIRFlags\<lparr>HasNoUnsignedWrap := (VPI_Opcode this = CanonicalIVIncrementNUW),
                                    HasNoSignedWrap := False\<rparr>,
                 DbgLoc := CurrentDebugLocation (Builder S)\<rparr>] \<and>
           PerPartOutput S1 =
             (PerPartOutput S)((VPI_Def this, 0) \<mapsto> InstructionVal (length (Insts F1)) (IntegerTy w)) \<and>
           sameSetting S S1"
proof -
  have "\<exists>r. createStepForVF (Builder S) (IntegerTy w) (VF S) (UF S) (Fn S) = Inr r"
    by (simp add: createStepForVF_def Let_def)
  then obtain Step F1 where
    st: "createStepForVF (Builder S) (IntegerTy w) (VF S) (UF S) (Fn S) = Inr (Step, F1)"
    by (metis surj_pair)
  show ?thesis
    using assms st
    by (simp add: generate_CanonicalIVIncrement_def andThen_def Let_def CreateAdd_def
        case_prod_beta State_set_def newInstruction_def sameSetting_def)
qed


lemma createStepForVF_value:
  assumes "createStepForVF B (IntegerTy w) EC Step F = Inr (StepV, F1)"
  shows "\<exists>Js. Insts F1 = Insts F @ Js \<and> length Js = (if isScalable EC then 1 else 0) \<and>
           (\<forall>E. valueOf E F1 StepV = Some (Scalar (int (numLanes E EC * Step) mod 2 ^ w)))"
proof (cases "isScalable EC")
  case False
  with assms have eq: "StepV = ConstantIntVal (ConstantInt_get w (int (Step * getKnownMinValue EC)))"
    "F1 = F"
    by (simp_all add: createStepForVF_def Let_def)
  have "\<forall>E. valueOf E F1 StepV = Some (Scalar (int (numLanes E EC * Step) mod 2 ^ w))"
    using False unfolding eq
    by (simp add: valueOf_def ConstantInt_get_def numLanes_def mult.commute)
  with False eq show ?thesis
    by simp
next
  case True
  let ?c = "ConstantIntVal (ConstantInt_get w (int (Step * getKnownMinValue EC)))"
  let ?I = "(newInstruction VScaleOp [?c] (IntegerTy w) [])\<lparr>DbgLoc := CurrentDebugLocation B\<rparr>"
  from True assms have eq: "StepV = InstructionVal (length (Insts F)) (IntegerTy w)"
    "Insts F1 = Insts F @ [?I]"
    by (auto simp: createStepForVF_def Let_def CreateVScale_def Insert_def newInstruction_def
        ConstantInt_get_def)
  have "valueOf E F1 StepV = Some (Scalar (int (numLanes E EC * Step) mod 2 ^ w))" for E
  proof -
    have "valueOf E F1 StepV = evalInstruction E (evalInsts E (Insts F)) (length (Insts F)) ?I"
      unfolding eq(1) by (rule valueOf_new [OF eq(2)])
    also have "\<dots> = Some (Scalar ((int (vscale E) * (int (Step * getKnownMinValue EC) mod 2 ^ w)) mod 2 ^ w))"
      by (simp add: evalInstruction_def newInstruction_def evalVScale_def ConstantInt_get_def)
    also have "(int (vscale E) * (int (Step * getKnownMinValue EC) mod 2 ^ w)) mod 2 ^ w
        = int (numLanes E EC * Step) mod 2 ^ w"
      using True by (simp add: numLanes_def mod_mult_right_eq mult.commute mult.left_commute)
    finally show ?thesis .
  qed
  with True eq show ?thesis
    by simp
qed

lemma valueOf_Add:
  assumes "Insts F2 = Insts F1 @ [I]" and "Operation I = BinOp Add" and "Operands I = [L, R]"
    and "ResultTy I = IntegerTy w"
    and "valueOf E F1 L = Some (Scalar p)" and "valueOf E F1 R = Some (Scalar q)"
  shows "valueOf E F2 (InstructionVal (length (Insts F1)) T) = Some (Scalar ((p + q) mod 2 ^ w))"
  using assms(2-) unfolding valueOf_new [OF assms(1)]
  by (simp add: evalInstruction_def evalAdd_def valueOf_def)


lemma getOperandValue_PerPartOutput:
  "PerPartOutput S' = PerPartOutput S \<Longrightarrow> getOperandValue S' Ops N Part = getOperandValue S Ops N Part"
  by (simp add: getOperandValue_def State_get_def andThen_def)

text \<open>
  C2. A canonical-induction-increment recipe (with or without the no-unsigned-wrap variant)
  is executed with no active instance, an unroll count \<open>U > 0\<close> and the generated value
  \<open>Phi\<close> of its operand for stream 0, of an integer type of \<open>w\<close> bits. Then the execution
  succeeds; the cache holds one and the same value object \<open>Next\<close> for every stream
  \<open>0, ..., U - 1\<close>; \<open>Next\<close> is the last emitted instruction, the addition
  \<open>Phi + Step\<close> named \<^verbatim>\<open>index.next\<close>, with the no-unsigned-wrap flag exactly for the
  \<^verbatim>\<open>NUW\<close> opcode; it is emitted once whatever \<open>U\<close> is (one instruction, and one more
  for the step when the width is scalable); and whenever \<open>Phi\<close> has the value \<open>p\<close> at run
  time, \<open>Next\<close> has the value \<open>p + W * U\<close> in \<open>w\<close>-bit arithmetic, \<open>W\<close> being the run-time
  vector width.
\<close>

theorem C2_canonical_iv_increment:
  assumes "VPI_Opcode this = CanonicalIVIncrement \<or> VPI_Opcode this = CanonicalIVIncrementNUW"
    and "Instance S = None"
    and "0 < UF S"
    and "getOperandValue S (VPI_operands this) 0 0 = Inr Phi"
    and "getType Phi = IntegerTy w"
  shows "\<exists>S' Next Step.
           VPInstruction_execute this S = Inr S' \<and>
           (\<forall>s < UF S. PerPartOutput S' (VPI_Def this, s) = Some Next) \<and>
           Next = InstructionVal (length (Insts (Fn S')) - 1) (IntegerTy w) \<and>
           length (Insts (Fn S')) = length (Insts (Fn S)) + (if isScalable (VF S) then 2 else 1) \<and>
           Insts (Fn S') ! (length (Insts (Fn S')) - 1) =
             (newInstruction (BinOp Add) [Phi, Step] (IntegerTy w) ''index.next'')
               \<lparr>Flags := noIRFlags\<lparr>HasNoUnsignedWrap := (VPI_Opcode this = CanonicalIVIncrementNUW),
                                   HasNoSignedWrap := False\<rparr>,
                DbgLoc := VPI_DL this\<rparr> \<and>
           (\<forall>E p. valueOf E (Fn S) Phi = Some (Scalar p) \<longrightarrow>
              valueOf E (Fn S') Next =
                Some (Scalar ((p + int (numLanes E (VF S) * UF S)) mod 2 ^ w)))"
proof -
  let ?S0 = "S\<lparr>Builder := (Builder S)\<lparr>B_FMF := VPI_FMF this\<rparr>\<rparr>"
  let ?Sd = "?S0\<lparr>Builder := (Builder ?S0)\<lparr>CurrentDebugLocation := VPI_DL this\<rparr>\<rparr>"
  let ?I = "\<lambda>Step. (newInstruction (BinOp Add) [Phi, Step] (IntegerTy w) ''index.next'')
               \<lparr>Flags := noIRFlags\<lparr>HasNoUnsignedWrap := (VPI_Opcode this = CanonicalIVIncrementNUW),
                                   HasNoSignedWrap := False\<rparr>,
                DbgLoc := VPI_DL this\<rparr>"
  have op: "getOperandValue ?Sd (VPI_operands this) 0 0 = Inr Phi"
    using assms(4) getOperandValue_PerPartOutput [of ?Sd S "VPI_operands this" 0 0] by simp
  from generate_CanonicalIVIncrement_first [OF op assms(5)] obtain S1 Step F1 where
    g: "generate_CanonicalIVIncrement this ?Sd 0 = Inr S1" and
    st: "createStepForVF (Builder ?Sd) (IntegerTy w) (VF ?Sd) (UF ?Sd) (Fn ?Sd) = Inr (Step, F1)" and
    i1: "Insts (Fn S1) = Insts F1 @ [?I Step]" and
    o1: "PerPartOutput S1 =
           (PerPartOutput ?Sd)((VPI_Def this, 0) \<mapsto> InstructionVal (length (Insts F1)) (IntegerTy w))" and
    s1: "sameSetting ?Sd S1"
    by auto
  let ?Next = "InstructionVal (length (Insts F1)) (IntegerTy w)"
  from createStepForVF_value [OF st] obtain Js where
    js: "Insts F1 = Insts (Fn S) @ Js" "length Js = (if isScalable (VF S) then 1 else 0)" and
    sv: "\<And>E. valueOf E F1 Step = Some (Scalar (int (numLanes E (VF S) * UF S) mod 2 ^ w))"
    by auto
  have g0: "generateInstruction this ?S0 0 = Inr S1"
    using g by (simp add: generateInstruction_CanonicalIVIncrement [OF assms(1)])
  have n1: "PerPartOutput S1 (VPI_Def this, 0) = Some ?Next"
    by (simp add: o1)
  have z: "0 \<notin> set [1..<UF S]"
    by simp
  from generateEach_CanonicalIVIncrement_later [OF assms(1) z n1] obtain S2 where
    e2: "generateEach this [1..<UF S] S1 = Inr S2" and f2: "Fn S2 = Fn S1" and
    o2: "PerPartOutput S2 =
           (\<lambda>k. if fst k = VPI_Def this \<and> snd k \<in> set [1..<UF S] then Some ?Next
                else PerPartOutput S1 k)"
    by blast
  let ?S' = "S2\<lparr>Builder := (Builder S2)\<lparr>B_FMF := B_FMF (Builder S)\<rparr>\<rparr>"
  have up: "[0..<UF S] = 0 # [1..<UF S]"
    using assms(3) by (simp add: upt_conv_Cons)
  have "execute_loop this ?S0 0 = generateEach this [0..<UF S] ?S0"
    by (simp add: execute_loop_generateEach)
  also have "\<dots> = Inr S2"
    unfolding up using g0 e2 by (simp add: andThen_def)
  finally have ex: "VPInstruction_execute this S = Inr ?S'"
    using assms(2) by (simp add: VPInstruction_execute_def Let_def)
  have all: "\<forall>s < UF S. PerPartOutput ?S' (VPI_Def this, s) = Some ?Next"
  proof (intro allI impI)
    fix s assume "s < UF S"
    show "PerPartOutput ?S' (VPI_Def this, s) = Some ?Next"
    proof (cases "s = 0")
      case True
      with n1 show ?thesis by (simp add: o2)
    next
      case False
      with \<open>s < UF S\<close> show ?thesis by (simp add: o2)
    qed
  qed
  have len: "length (Insts (Fn ?S')) = length (Insts (Fn S)) + (if isScalable (VF S) then 2 else 1)"
    using js by (simp add: f2 i1)
  have nx: "?Next = InstructionVal (length (Insts (Fn ?S')) - 1) (IntegerTy w)"
    by (simp add: f2 i1)
  have last: "Insts (Fn ?S') ! (length (Insts (Fn ?S')) - 1) = ?I Step"
    by (simp add: f2 i1)
  have sem: "valueOf E (Fn ?S') ?Next = Some (Scalar ((p + int (numLanes E (VF S) * UF S)) mod 2 ^ w))"
    if p: "valueOf E (Fn S) Phi = Some (Scalar p)" for E p
  proof -
    have i': "Insts (Fn ?S') = Insts F1 @ [?I Step]"
      by (simp add: f2 i1)
    have pv: "valueOf E F1 Phi = Some (Scalar p)"
      using p js(1) by (rule valueOf_Insts_append)
    have "valueOf E (Fn ?S') ?Next =
        Some (Scalar ((p + int (numLanes E (VF S) * UF S) mod 2 ^ w) mod 2 ^ w))"
      by (rule valueOf_Add [OF i' _ _ _ pv sv]) (simp_all add: newInstruction_def)
    then show ?thesis
      by (simp add: mod_add_right_eq)
  qed
  from ex all nx len last sem show ?thesis
    by blast
qed


theorem C2_canonical_iv_increment_witness:
  "\<exists>S'. VPInstruction_execute (exampleVPInstruction CanonicalIVIncrementNUW [1]) exampleState = Inr S' \<and>
        PerPartOutput S' (2, 0) = Some (InstructionVal 3 (IntegerTy 64)) \<and>
        PerPartOutput S' (2, 1) = Some (InstructionVal 3 (IntegerTy 64)) \<and>
        length (Insts (Fn S')) = 4 \<and>
        valueOf exampleRunTime (Fn S') (InstructionVal 3 (IntegerTy 64)) = Some (Scalar 18)"
proof -
  let ?I = "exampleVPInstruction CanonicalIVIncrementNUW [1]"
  let ?Phi = "InstructionVal 0 (IntegerTy 64)"
  have 1: "VPI_Opcode ?I = CanonicalIVIncrement \<or> VPI_Opcode ?I = CanonicalIVIncrementNUW"
    by (simp add: exampleVPInstruction_def)
  have 2: "Instance exampleState = None" and 3: "0 < UF exampleState"
    by simp_all
  have 4: "getOperandValue exampleState (VPI_operands ?I) 0 0 = Inr ?Phi"
    by (simp add: exampleVPInstruction_def getOperandValue_def getOperand_def State_get_def
        andThen_def)
  have 5: "getType ?Phi = IntegerTy 64"
    by simp
  from C2_canonical_iv_increment [OF 1 2 3 4 5] obtain S' Next where
    ex: "VPInstruction_execute ?I exampleState = Inr S'" and
    all: "\<forall>s < UF exampleState. PerPartOutput S' (VPI_Def ?I, s) = Some Next" and
    nx: "Next = InstructionVal (length (Insts (Fn S')) - 1) (IntegerTy 64)" and
    len: "length (Insts (Fn S')) = length (Insts (Fn exampleState)) +
            (if isScalable (VF exampleState) then 2 else 1)" and
    sem: "\<forall>E p. valueOf E (Fn exampleState) ?Phi = Some (Scalar p) \<longrightarrow>
              valueOf E (Fn S') Next =
                Some (Scalar ((p + int (numLanes E (VF exampleState) * UF exampleState)) mod 2 ^ 64))"
    by blast
  from len have l2: "length (Insts (Fn S')) = 4"
    by (simp add: exampleFunction_def)
  with nx have n1: "Next = InstructionVal 3 (IntegerTy 64)"
    by simp
  from all have "PerPartOutput S' (VPI_Def ?I, 0) = Some Next" "PerPartOutput S' (VPI_Def ?I, 1) = Some Next"
    by simp_all
  then have c: "PerPartOutput S' (2, 0) = Some (InstructionVal 3 (IntegerTy 64))"
    "PerPartOutput S' (2, 1) = Some (InstructionVal 3 (IntegerTy 64))"
    by (simp_all add: n1 exampleVPInstruction_def)
  from sem exampleFunction_value
  have "valueOf exampleRunTime (Fn S') Next =
      Some (Scalar ((10 + int (numLanes exampleRunTime (VF exampleState) * UF exampleState)) mod 2 ^ 64))"
    by simp
  then have v: "valueOf exampleRunTime (Fn S') (InstructionVal 3 (IntegerTy 64)) = Some (Scalar 18)"
    by (simp add: n1 numLanes_def)
  from ex c l2 v show ?thesis
    by blast
qed

subsection \<open>The first-order recurrence splice\<close>

lemma splice_last_lane:
  assumes "length xs = length ys" and "0 < length xs"
  shows "length (splice (- 1) xs ys) = length xs"
    and "splice (- 1) xs ys ! 0 = xs ! (length xs - 1)"
    and "\<And>l. 1 \<le> l \<Longrightarrow> l < length xs \<Longrightarrow> splice (- 1) xs ys ! l = ys ! (l - 1)"
proof -
  let ?n = "length xs"
  have d: "splice (- 1) xs ys = take ?n (drop (?n - 1) (xs @ ys))"
    by (simp add: splice_def)
  show "length (splice (- 1) xs ys) = length xs"
    using assms by (simp add: d)
  show "splice (- 1) xs ys ! 0 = xs ! (length xs - 1)"
    using assms by (simp add: d nth_append)
  show "splice (- 1) xs ys ! l = ys ! (l - 1)" if "1 \<le> l" "l < length xs" for l
    using assms that by (simp add: d nth_append)
qed

lemma generateInstruction_FirstOrderRecurrenceSplice:
  assumes "VPI_Opcode this = FirstOrderRecurrenceSplice"
  shows "generateInstruction this S Part =
         generate_FirstOrderRecurrenceSplice this
           (S\<lparr>Builder := (Builder S)\<lparr>CurrentDebugLocation := VPI_DL this\<rparr>\<rparr>) Part"
  using assms by (simp add: generateInstruction_def Let_def)

lemma valueOf_VectorSplice:
  assumes "Insts F2 = Insts F1 @ [I]" and "Operation I = VectorSpliceOp Imm"
    and "Operands I = [L, R]"
    and "valueOf E F1 L = Some (Lanes xs)" and "valueOf E F1 R = Some (Lanes ys)"
    and "length xs = length ys"
  shows "valueOf E F2 (InstructionVal (length (Insts F1)) T) = Some (Lanes (splice Imm xs ys))"
  using assms(2-) unfolding valueOf_new [OF assms(1)]
  by (simp add: evalInstruction_def evalVectorSplice_def valueOf_def)

lemma generate_FirstOrderRecurrenceSplice_unfold:
  assumes "getOperandValue S (VPI_operands this) 0 0 = Inr V1"
    and "(if Part = 0 then Inr V1
          else getOperandValue S (VPI_operands this) 1 (Part - 1)) = Inr Previous"
  shows "generate_FirstOrderRecurrenceSplice this S Part =
         (if \<not> isVectorTy (getType Previous)
          then Inr (State_set (VPI_Def this) Previous Part S)
          else
            andThen (getOperandValue S (VPI_operands this) 1 Part) (\<lambda>V2.
            andThen (CreateVectorSplice (Builder S) Previous V2 (- 1) (Fn S)) (\<lambda>(V, F').
              Inr (State_set (VPI_Def this) V Part (S\<lparr>Fn := F'\<rparr>)))))"
proof (cases "Part = 0")
  case True
  with assms show ?thesis
    by (simp add: generate_FirstOrderRecurrenceSplice_def andThen_def)
next
  case False
  with assms(2) have "getOperandValue S (VPI_operands this) 1 (Part - 1) = Inr Previous"
    by simp
  with False assms(1) show ?thesis
    by (simp add: generate_FirstOrderRecurrenceSplice_def andThen_def)
qed

text \<open>
  C4. A first-order-recurrence splice is lowered at stream \<open>Part\<close>; \<open>V1\<close> is the generated
  value of the recurrence phi (operand 0, stream 0). The previous value is \<open>V1\<close> when
  \<open>Part = 0\<close> and the generated value of the current operand (operand 1) at stream
  \<open>Part - 1\<close> otherwise. When the previous value is not vector-shaped, the lowering succeeds,
  stores exactly the previous value for the stream and emits nothing. When it is
  vector-shaped (and the current operand has a generated value of the same type at the
  stream), the lowering succeeds and stores a newly emitted vector splice of the previous
  and the current value with immediate -1; at run time lane 0 of the splice is the last
  lane of the previous value and every lane \<open>l\<close> from 1 on is lane \<open>l - 1\<close> of the current
  value.
\<close>

theorem C4_first_order_recurrence_splice:
  assumes "VPI_Opcode this = FirstOrderRecurrenceSplice"
    and "VPI_operands this = Op0 # Op1 # Ops"
    and "PerPartOutput S (Op0, 0) = Some V1"
    and "(if Part = 0 then Some V1 else PerPartOutput S (Op1, Part - 1)) = Some Previous"
  shows "(\<not> isVectorTy (getType Previous) \<longrightarrow>
            (\<exists>S'. generateInstruction this S Part = Inr S' \<and>
                  PerPartOutput S' = (PerPartOutput S)((VPI_Def this, Part) \<mapsto> Previous) \<and>
                  Fn S' = Fn S)) \<and>
         (isVectorTy (getType Previous) \<longrightarrow>
            (\<forall>Current. PerPartOutput S (Op1, Part) = Some Current \<and>
                       getType Current = getType Previous \<longrightarrow>
               (\<exists>S' Splice.
                  generateInstruction this S Part = Inr S' \<and>
                  PerPartOutput S' = (PerPartOutput S)((VPI_Def this, Part) \<mapsto> Splice) \<and>
                  Splice = InstructionVal (length (Insts (Fn S))) (getType Previous) \<and>
                  Insts (Fn S') = Insts (Fn S) @
                    [(newInstruction (VectorSpliceOp (- 1)) [Previous, Current] (getType Previous) [])
                       \<lparr>DbgLoc := VPI_DL this\<rparr>] \<and>
                  (\<forall>E xs ys.
                     valueOf E (Fn S) Previous = Some (Lanes xs) \<and>
                     valueOf E (Fn S) Current = Some (Lanes ys) \<and>
                     length xs = length ys \<and> 0 < length xs \<longrightarrow>
                     (\<exists>zs. valueOf E (Fn S') Splice = Some (Lanes zs) \<and>
                           length zs = length xs \<and>
                           zs ! 0 = xs ! (length xs - 1) \<and>
                           (\<forall>l. 1 \<le> l \<and> l < length xs \<longrightarrow> zs ! l = ys ! (l - 1)))))))"
proof (intro conjI impI allI)
  let ?Sd = "S\<lparr>Builder := (Builder S)\<lparr>CurrentDebugLocation := VPI_DL this\<rparr>\<rparr>"
  have v1: "getOperandValue ?Sd (VPI_operands this) 0 0 = Inr V1"
    using assms(2,3) by (simp add: getOperandValue_def getOperand_def State_get_def andThen_def)
  have pm: "(if Part = 0 then Inr V1
             else getOperandValue ?Sd (VPI_operands this) 1 (Part - 1)) = Inr Previous"
    using assms(2,4)
    by (auto simp: getOperandValue_def getOperand_def State_get_def andThen_def split: if_splits)
  {
    assume nv: "\<not> isVectorTy (getType Previous)"
    have "generateInstruction this S Part = Inr (State_set (VPI_Def this) Previous Part ?Sd)"
      unfolding generateInstruction_FirstOrderRecurrenceSplice [OF assms(1)]
        generate_FirstOrderRecurrenceSplice_unfold [OF v1 pm]
      using nv by simp
    then show "\<exists>S'. generateInstruction this S Part = Inr S' \<and>
                  PerPartOutput S' = (PerPartOutput S)((VPI_Def this, Part) \<mapsto> Previous) \<and>
                  Fn S' = Fn S"
      by (simp add: State_set_def)
  }
  {
    fix Current
    assume isv: "isVectorTy (getType Previous)"
      and cur: "PerPartOutput S (Op1, Part) = Some Current \<and> getType Current = getType Previous"
    let ?Splice = "InstructionVal (length (Insts (Fn S))) (getType Previous)"
    let ?I = "(newInstruction (VectorSpliceOp (- 1)) [Previous, Current] (getType Previous) [])
                       \<lparr>DbgLoc := VPI_DL this\<rparr>"
    let ?F' = "snd (Insert (Builder ?Sd)
                 (newInstruction (VectorSpliceOp (- 1)) [Previous, Current] (getType Previous) [])
                 (Fn S))"
    let ?S' = "State_set (VPI_Def this) ?Splice Part (?Sd\<lparr>Fn := ?F'\<rparr>)"
    have v2: "getOperandValue ?Sd (VPI_operands this) 1 Part = Inr Current"
      using assms(2) cur by (simp add: getOperandValue_def getOperand_def State_get_def andThen_def)
    have cs: "CreateVectorSplice (Builder ?Sd) Previous Current (- 1) (Fn ?Sd) =
        Inr (?Splice, ?F')"
      using isv cur by (simp add: CreateVectorSplice_def Insert_def newInstruction_def)
    have g: "generateInstruction this S Part = Inr ?S'"
      unfolding generateInstruction_FirstOrderRecurrenceSplice [OF assms(1)]
        generate_FirstOrderRecurrenceSplice_unfold [OF v1 pm] v2
      using isv cs by (simp add: andThen_def)
    have o: "PerPartOutput ?S' = (PerPartOutput S)((VPI_Def this, Part) \<mapsto> ?Splice)"
      by (simp add: State_set_def)
    have i: "Insts (Fn ?S') = Insts (Fn S) @ [?I]"
      by (simp add: State_set_def newInstruction_def)
    have sem: "\<exists>zs. valueOf E (Fn ?S') ?Splice = Some (Lanes zs) \<and>
                           length zs = length xs \<and>
                           zs ! 0 = xs ! (length xs - 1) \<and>
                           (\<forall>l. 1 \<le> l \<and> l < length xs \<longrightarrow> zs ! l = ys ! (l - 1))"
      if h: "valueOf E (Fn S) Previous = Some (Lanes xs) \<and>
                     valueOf E (Fn S) Current = Some (Lanes ys) \<and>
                     length xs = length ys \<and> 0 < length xs" for E xs ys
    proof -
      from h have px: "valueOf E (Fn S) Previous = Some (Lanes xs)"
        and cy: "valueOf E (Fn S) Current = Some (Lanes ys)"
        and le: "length xs = length ys" and pos: "0 < length xs"
        by blast+
      have "valueOf E (Fn ?S') ?Splice = Some (Lanes (splice (- 1) xs ys))"
        by (rule valueOf_VectorSplice [OF i _ _ px cy le]) (simp_all add: newInstruction_def)
      with splice_last_lane [OF le pos] show ?thesis
        by simp
    qed
    from g o i sem
    show "\<exists>S' Splice.
                  generateInstruction this S Part = Inr S' \<and>
                  PerPartOutput S' = (PerPartOutput S)((VPI_Def this, Part) \<mapsto> Splice) \<and>
                  Splice = InstructionVal (length (Insts (Fn S))) (getType Previous) \<and>
                  Insts (Fn S') = Insts (Fn S) @
                    [(newInstruction (VectorSpliceOp (- 1)) [Previous, Current] (getType Previous) [])
                       \<lparr>DbgLoc := VPI_DL this\<rparr>] \<and>
                  (\<forall>E xs ys.
                     valueOf E (Fn S) Previous = Some (Lanes xs) \<and>
                     valueOf E (Fn S) Current = Some (Lanes ys) \<and>
                     length xs = length ys \<and> 0 < length xs \<longrightarrow>
                     (\<exists>zs. valueOf E (Fn S') Splice = Some (Lanes zs) \<and>
                           length zs = length xs \<and>
                           zs ! 0 = xs ! (length xs - 1) \<and>
                           (\<forall>l. 1 \<le> l \<and> l < length xs \<longrightarrow> zs ! l = ys ! (l - 1))))"
      by blast
  }
qed

theorem C4_first_order_recurrence_splice_witness:
  "(\<exists>S'. generateInstruction (exampleVPInstruction FirstOrderRecurrenceSplice [1, 1]) exampleState 0
           = Inr S' \<and>
         PerPartOutput S' (2, 0) = Some (InstructionVal 0 (IntegerTy 64)) \<and>
         Fn S' = Fn exampleState) \<and>
   (\<exists>S' zs. generateInstruction (exampleVPInstruction FirstOrderRecurrenceSplice [3, 4])
              exampleVectorState 1 = Inr S' \<and>
         PerPartOutput S' (2, 1) =
           Some (InstructionVal 3 (VectorTy (IntegerTy 32) (ElementCount 4 False))) \<and>
         valueOf exampleVectorRunTime (Fn S')
           (InstructionVal 3 (VectorTy (IntegerTy 32) (ElementCount 4 False))) = Some (Lanes zs) \<and>
         length zs = 4 \<and> zs ! 0 = 8 \<and> zs ! 1 = 9 \<and> zs ! 2 = 10 \<and> zs ! 3 = 11)"
proof -
  let ?T = "VectorTy (IntegerTy 32) (ElementCount 4 False)"
  let ?I = "exampleVPInstruction FirstOrderRecurrenceSplice [1, 1]"
  let ?J = "exampleVPInstruction FirstOrderRecurrenceSplice [3, 4]"
  let ?Phi = "InstructionVal 0 (IntegerTy 64)"
  have i1: "VPI_Opcode ?I = FirstOrderRecurrenceSplice" and i2: "VPI_operands ?I = 1 # 1 # []"
    and j1: "VPI_Opcode ?J = FirstOrderRecurrenceSplice" and j2: "VPI_operands ?J = 3 # 4 # []"
    and d: "VPI_Def ?I = 2" "VPI_Def ?J = 2"
    by simp_all
  have i3: "PerPartOutput exampleState (1, 0) = Some ?Phi"
    by simp
  have i4: "(if (0::nat) = 0 then Some ?Phi else PerPartOutput exampleState (1, 0 - 1)) = Some ?Phi"
    by simp
  have nv: "\<not> isVectorTy (getType ?Phi)"
    by simp
  from C4_first_order_recurrence_splice [OF i1 i2 i3 i4, THEN conjunct1] nv
  obtain S' where
    "generateInstruction ?I exampleState 0 = Inr S'"
    "PerPartOutput S' = (PerPartOutput exampleState)((VPI_Def ?I, 0) \<mapsto> ?Phi)"
    "Fn S' = Fn exampleState"
    by blast
  then have first: "\<exists>S'. generateInstruction ?I exampleState 0 = Inr S' \<and>
         PerPartOutput S' (2, 0) = Some ?Phi \<and> Fn S' = Fn exampleState"
    by auto
  have f: "Fn exampleVectorState = exampleFunction"
    and o: "PerPartOutput exampleVectorState =
       [(3, 0) \<mapsto> ArgumentVal 0 ?T, (4, 0) \<mapsto> ArgumentVal 1 ?T, (4, 1) \<mapsto> ArgumentVal 2 ?T]"
    by (simp_all add: exampleVectorState_def)
  have j3: "PerPartOutput exampleVectorState (3, 0) = Some (ArgumentVal 0 ?T)"
    by (simp add: o)
  have j4: "(if (1::nat) = 0 then Some (ArgumentVal 0 ?T)
             else PerPartOutput exampleVectorState (4, 1 - 1)) = Some (ArgumentVal 1 ?T)"
    by (simp add: o)
  have iv: "isVectorTy (getType (ArgumentVal 1 ?T))"
    by simp
  have cur: "PerPartOutput exampleVectorState (4, 1) = Some (ArgumentVal 2 ?T) \<and>
             getType (ArgumentVal 2 ?T) = getType (ArgumentVal 1 ?T)"
    by (simp add: o)
  have px: "valueOf exampleVectorRunTime (Fn exampleVectorState) (ArgumentVal 1 ?T)
            = Some (Lanes [5, 6, 7, 8])"
    and cy: "valueOf exampleVectorRunTime (Fn exampleVectorState) (ArgumentVal 2 ?T)
            = Some (Lanes [9, 10, 11, 12])"
    by (simp_all add: valueOf_def exampleVectorRunTime_def)
  from C4_first_order_recurrence_splice [OF j1 j2 j3 j4, THEN conjunct2] iv cur
  obtain S2 Splice where
    g: "generateInstruction ?J exampleVectorState 1 = Inr S2" and
    po: "PerPartOutput S2 = (PerPartOutput exampleVectorState)((VPI_Def ?J, 1) \<mapsto> Splice)" and
    sp: "Splice = InstructionVal (length (Insts (Fn exampleVectorState))) (getType (ArgumentVal 1 ?T))" and
    sem: "\<forall>E xs ys.
            valueOf E (Fn exampleVectorState) (ArgumentVal 1 ?T) = Some (Lanes xs) \<and>
            valueOf E (Fn exampleVectorState) (ArgumentVal 2 ?T) = Some (Lanes ys) \<and>
            length xs = length ys \<and> 0 < length xs \<longrightarrow>
            (\<exists>zs. valueOf E (Fn S2) Splice = Some (Lanes zs) \<and>
                  length zs = length xs \<and>
                  zs ! 0 = xs ! (length xs - 1) \<and>
                  (\<forall>l. 1 \<le> l \<and> l < length xs \<longrightarrow> zs ! l = ys ! (l - 1)))"
    by blast
  have sp': "Splice = InstructionVal 3 ?T"
    unfolding sp by (simp add: f exampleFunction_def)
  from sem px cy obtain zs where
    z: "valueOf exampleVectorRunTime (Fn S2) Splice = Some (Lanes zs)"
      "length zs = length [5, 6, 7, 8::int]"
      "zs ! 0 = [5, 6, 7, 8::int] ! (length [5, 6, 7, 8::int] - 1)"
      "\<forall>l. 1 \<le> l \<and> l < length [5, 6, 7, 8::int] \<longrightarrow> zs ! l = [9, 10, 11, 12::int] ! (l - 1)"
    by force
  from z(4) have "zs ! 1 = [9, 10, 11, 12::int] ! (1 - 1)" "zs ! 2 = [9, 10, 11, 12::int] ! (2 - 1)"
    "zs ! 3 = [9, 10, 11, 12::int] ! (3 - 1)"
    by simp_all
  then have l: "zs ! 1 = 9" "zs ! 2 = 10" "zs ! 3 = 11"
    by simp_all
  from z(2,3) have l0: "length zs = 4" "zs ! 0 = 8"
    by simp_all
  have "PerPartOutput S2 (2, 1) = Some (InstructionVal 3 ?T)"
    by (simp add: po d sp')
  with g z(1) l l0 have second: "\<exists>S' zs. generateInstruction ?J exampleVectorState 1 = Inr S' \<and>
         PerPartOutput S' (2, 1) = Some (InstructionVal 3 ?T) \<and>
         valueOf exampleVectorRunTime (Fn S') (InstructionVal 3 ?T) = Some (Lanes zs) \<and>
         length zs = 4 \<and> zs ! 0 = 8 \<and> zs ! 1 = 9 \<and> zs ! 2 = 10 \<and> zs ! 3 = 11"
    unfolding sp' by blast
  from first second show ?thesis
    by blast
qed

subsection \<open>The widened induction\<close>

lemma isCanonical_live:
  assumes "VPV_Def (WI_StartValue this) = None"
    and "VPV_UnderlyingValue (WI_StartValue this) = Some V"
  shows "isCanonical this =
         Inr ((\<exists>w. V = ConstantIntVal (ConstantInt w 0)) \<and>
              (\<exists>w. getStep (WI_InductionDescriptor this) = SCEVConstant (ConstantInt w 1)))"
proof -
  have s: "(case dyn_cast_SCEVConstant (getStep (WI_InductionDescriptor this)) of
              None \<Rightarrow> False | Some C' \<Rightarrow> isOne C') =
           (\<exists>w. getStep (WI_InductionDescriptor this) = SCEVConstant (ConstantInt w 1))"
  proof (cases "getStep (WI_InductionDescriptor this)")
    case (SCEVConstant C')
    then show ?thesis
      by (cases C') (auto simp: isOne_def)
  next
    case (SCEVOther n)
    then show ?thesis by simp
  qed
  show ?thesis
  proof (cases V)
    case (ConstantIntVal C)
    have "isZero C = (\<exists>w. C = ConstantInt w 0)"
      by (cases C) (auto simp: isZero_def)
    with assms ConstantIntVal s show ?thesis
      by (simp add: isCanonical_def getLiveInIRValue_def dyn_cast_ConstantInt_def andThen_def)
  qed (use assms in
      \<open>simp_all add: isCanonical_def getLiveInIRValue_def dyn_cast_ConstantInt_def andThen_def\<close>)
qed

lemma isCanonical_not_live:
  assumes "VPV_Def (WI_StartValue this) \<noteq> None \<or> VPV_UnderlyingValue (WI_StartValue this) = None"
  shows "\<exists>e. isCanonical this = Inl e"
  using assms
  by (auto simp: isCanonical_def getLiveInIRValue_def dyn_cast_ConstantInt_def andThen_def)

text \<open>
  C8. \<^verbatim>\<open>isCanonical\<close> of a widened integer/float induction returns true exactly when the
  start value is a live-in whose IR value is a constant integer of value zero and the step
  of the induction descriptor is a constant of value one. It returns an answer exactly
  when the start value is a live-in with an IR value.
\<close>

theorem C8_isCanonical:
  "(isCanonical this = Inr True) =
     ((\<exists>w. VPV_Def (WI_StartValue this) = None \<and>
           VPV_UnderlyingValue (WI_StartValue this) = Some (ConstantIntVal (ConstantInt w 0))) \<and>
      (\<exists>w. getStep (WI_InductionDescriptor this) = SCEVConstant (ConstantInt w 1))) \<and>
   (\<exists>b. isCanonical this = Inr b) =
     (VPV_Def (WI_StartValue this) = None \<and> VPV_UnderlyingValue (WI_StartValue this) \<noteq> None)"
proof (cases "VPV_Def (WI_StartValue this) = None \<and> VPV_UnderlyingValue (WI_StartValue this) \<noteq> None")
  case True
  then obtain V where "VPV_Def (WI_StartValue this) = None"
    "VPV_UnderlyingValue (WI_StartValue this) = Some V"
    by auto
  with isCanonical_live [OF this] show ?thesis
    by auto
next
  case False
  then have "VPV_Def (WI_StartValue this) \<noteq> None \<or> VPV_UnderlyingValue (WI_StartValue this) = None"
    by auto
  from isCanonical_not_live [OF this] obtain e where "isCanonical this = Inl e"
    by blast
  with False show ?thesis
    by auto
qed

theorem C8_isCanonical_witness:
  "isCanonical
     \<lparr>WI_StartValue =
        \<lparr>VPV_Def = None, VPV_UnderlyingValue = Some (ConstantIntVal (ConstantInt 64 0))\<rparr>,
      WI_InductionDescriptor = \<lparr>getStep = SCEVConstant (ConstantInt 64 1)\<rparr>\<rparr> = Inr True \<and>
   isCanonical
     \<lparr>WI_StartValue =
        \<lparr>VPV_Def = None, VPV_UnderlyingValue = Some (ConstantIntVal (ConstantInt 64 0))\<rparr>,
      WI_InductionDescriptor = \<lparr>getStep = SCEVConstant (ConstantInt 64 2)\<rparr>\<rparr> \<noteq> Inr True"
proof -
  let ?R = "\<lambda>s. \<lparr>WI_StartValue =
        \<lparr>VPV_Def = None, VPV_UnderlyingValue = Some (ConstantIntVal (ConstantInt 64 0))\<rparr>,
      WI_InductionDescriptor = \<lparr>getStep = SCEVConstant (ConstantInt 64 s)\<rparr>\<rparr>"
  from C8_isCanonical [of "?R 1", THEN conjunct1] have "isCanonical (?R 1) = Inr True"
    by simp
  moreover from C8_isCanonical [of "?R 2", THEN conjunct1] have "isCanonical (?R 2) \<noteq> Inr True"
    by simp
  ultimately show ?thesis
    by simp
qed

subsection \<open>The widened canonical induction\<close>

lemma valueOf_Add_lanewise:
  assumes "Insts F2 = Insts F1 @ [I]" and "Operation I = BinOp Add" and "Operands I = [L, R]"
    and "scalarBits (ResultTy I) = Some w"
    and "valueOf E F1 L = Some x" and "valueOf E F1 R = Some y"
  shows "valueOf E F2 (InstructionVal (length (Insts F1)) T) =
         lanewise (\<lambda>p q. (p + q) mod 2 ^ w) x y"
  using assms(2-) unfolding valueOf_new [OF assms(1)]
  by (simp add: evalInstruction_def evalAdd_def valueOf_def)

lemma valueOf_VectorSplat:
  assumes "Insts F2 = Insts F1 @ [I]" and "Operation I = VectorSplatOp" and "Operands I = [V]"
    and "ResultTy I = VectorTy T' EC"
    and "valueOf E F1 V = Some (Scalar x)"
  shows "valueOf E F2 (InstructionVal (length (Insts F1)) T) =
         Some (Lanes (replicate (numLanes E EC) x))"
  using assms(2-) unfolding valueOf_new [OF assms(1)]
  by (simp add: evalInstruction_def evalVectorSplat_def valueOf_def)

lemma valueOf_StepVector:
  assumes "Insts F2 = Insts F1 @ [I]" and "Operation I = StepVectorOp"
    and "ResultTy I = VectorTy (IntegerTy w) EC"
  shows "valueOf E F2 (InstructionVal (length (Insts F1)) T) =
         Some (Lanes (map (\<lambda>l. int l mod 2 ^ w) [0..<numLanes E EC]))"
  using assms(2-) unfolding valueOf_new [OF assms(1)]
  by (simp add: evalInstruction_def evalStepVector_def)

lemma map2_replicate_upt:
  "map2 f (replicate n a) (map g [0..<n]) = map (\<lambda>l. f a (g l)) [0..<n]"
  by (rule nth_equalityI) simp_all

lemma map2_replicate_map:
  "map2 f (replicate n a) (map g [0..<n]) = map (\<lambda>l. f a (g l)) [0..<n]"
  by (rule map2_replicate_upt)

lemma createStepForVF_type:
  assumes "createStepForVF B (IntegerTy w) EC Step F = Inr (StepV, F1)"
  shows "getType StepV = IntegerTy w"
  using assms
  by (auto simp: createStepForVF_def Let_def CreateVScale_def Insert_def newInstruction_def
      ConstantInt_get_def split: if_splits)

lemma createStepForVF_total:
  "\<exists>StepV F1. createStepForVF B (IntegerTy w) EC Step F = Inr (StepV, F1)"
proof -
  have "\<exists>r. createStepForVF B (IntegerTy w) EC Step F = Inr r"
    by (simp add: createStepForVF_def Let_def)
  then show ?thesis
    by (metis surj_pair)
qed

lemma WidenCanonicalIV_part_scalar:
  assumes "isScalar EC" and "getType VStart = IntegerTy w"
  shows "\<exists>S' V. WidenCanonicalIV_part this B (IntegerTy w) EC VStart S Part = Inr S' \<and>
           (\<exists>Js. Insts (Fn S') = Insts (Fn S) @ Js) \<and>
           PerPartOutput S' = (PerPartOutput S)((WCIV_Def this, Part) \<mapsto> V) \<and>
           (\<forall>E c. valueOf E (Fn S) VStart = Some (Scalar c) \<longrightarrow>
                  valueOf E (Fn S') V = Some (Scalar ((c + int Part) mod 2 ^ w)))"
proof -
  from assms(1) have ec: "\<not> isScalable EC" "getKnownMinValue EC = 1" "\<not> isVector EC"
    by (auto simp: isScalar_def isVector_def)
  let ?Step = "ConstantIntVal (ConstantInt_get w (int Part))"
  let ?I = "(newInstruction (BinOp Add) [VStart, ?Step] (IntegerTy w) ''vec.iv'')
              \<lparr>Flags := noIRFlags\<lparr>HasNoUnsignedWrap := False, HasNoSignedWrap := False\<rparr>\<rparr>"
  let ?F5 = "snd (CreateAdd B VStart ?Step ''vec.iv'' False False (Fn S))"
  let ?V = "InstructionVal (length (Insts (Fn S))) (IntegerTy w)"
  let ?S' = "State_set (WCIV_Def this) ?V Part (S\<lparr>Fn := ?F5\<rparr>)"
  have st: "createStepForVF B (IntegerTy w) EC Part (Fn S) = Inr (?Step, Fn S)"
    using ec by (simp add: createStepForVF_def)
  have run: "WidenCanonicalIV_part this B (IntegerTy w) EC VStart S Part = Inr ?S'"
    using ec assms(2)
    by (simp add: WidenCanonicalIV_part_def st andThen_def case_prod_beta CreateAdd_fst)
  have ins: "Insts (Fn ?S') = Insts (Fn S) @ [?I\<lparr>DbgLoc := CurrentDebugLocation B\<rparr>]"
    using assms(2) by (simp add: State_set_def CreateAdd_Insts)
  have sem: "valueOf E (Fn ?S') ?V = Some (Scalar ((c + int Part) mod 2 ^ w))"
    if c: "valueOf E (Fn S) VStart = Some (Scalar c)" for E c
  proof -
    have sv: "valueOf E (Fn S) ?Step = Some (Scalar (int Part mod 2 ^ w))"
      by (simp add: valueOf_def ConstantInt_get_def)
    have "valueOf E (Fn ?S') ?V = Some (Scalar ((c + int Part mod 2 ^ w) mod 2 ^ w))"
      by (rule valueOf_Add [OF ins _ _ _ c sv]) (simp_all add: newInstruction_def)
    then show ?thesis
      by (simp add: mod_add_right_eq)
  qed
  have "PerPartOutput ?S' = (PerPartOutput S)((WCIV_Def this, Part) \<mapsto> ?V)"
    by (simp add: State_set_def)
  with run ins sem show ?thesis
    by blast
qed

lemma WidenCanonicalIV_part_vector:
  assumes "isVector EC" and "getType VStart = VectorTy (IntegerTy w) EC"
  shows "\<exists>S' V. WidenCanonicalIV_part this B (IntegerTy w) EC VStart S Part = Inr S' \<and>
           (\<exists>Js. Insts (Fn S') = Insts (Fn S) @ Js) \<and>
           PerPartOutput S' = (PerPartOutput S)((WCIV_Def this, Part) \<mapsto> V) \<and>
           (\<forall>E c. valueOf E (Fn S) VStart = Some (Lanes (replicate (numLanes E EC) c)) \<longrightarrow>
                  valueOf E (Fn S') V =
                    Some (Lanes (map (\<lambda>l. (c + int (numLanes E EC * Part) + int l) mod 2 ^ w)
                                 [0..<numLanes E EC])))"
proof -
  let ?T = "VectorTy (IntegerTy w) EC"
  obtain StepV F1 where st: "createStepForVF B (IntegerTy w) EC Part (Fn S) = Inr (StepV, F1)"
    using createStepForVF_total by blast
  have ty: "getType StepV = IntegerTy w"
    using st by (rule createStepForVF_type)
  from createStepForVF_value [OF st] obtain Js where
    js: "Insts F1 = Insts (Fn S) @ Js" and
    sv: "\<And>E. valueOf E F1 StepV = Some (Scalar (int (numLanes E EC * Part) mod 2 ^ w))"
    by blast
  define V1 where "V1 = InstructionVal (length (Insts F1)) ?T"
  define F2 where "F2 = snd (CreateVectorSplat B EC StepV [] F1)"
  define SV where "SV = InstructionVal (length (Insts F2)) ?T"
  define F3 where "F3 = snd (Insert B (newInstruction StepVectorOp [] ?T []) F2)"
  define VStep where "VStep = InstructionVal (length (Insts F3)) ?T"
  define F4 where "F4 = snd (CreateAdd B V1 SV [] False False F3)"
  define V where "V = InstructionVal (length (Insts F4)) ?T"
  define F5 where "F5 = snd (CreateAdd B VStart VStep ''vec.iv'' False False F4)"
  define S' where "S' = State_set (WCIV_Def this) V Part (S\<lparr>Fn := F5\<rparr>)"
  have tys: "getType V1 = ?T" "getType SV = ?T" "getType VStep = ?T"
    by (simp_all add: V1_def SV_def VStep_def)
  have i2: "Insts F2 = Insts F1 @ [(newInstruction VectorSplatOp [StepV] ?T [])
                \<lparr>DbgLoc := CurrentDebugLocation B\<rparr>]"
    by (simp add: F2_def CreateVectorSplat_Insts ty)
  have i3: "Insts F3 = Insts F2 @ [(newInstruction StepVectorOp [] ?T [])
                \<lparr>DbgLoc := CurrentDebugLocation B\<rparr>]"
    by (simp add: F3_def)
  have i4: "Insts F4 = Insts F3 @
      [(newInstruction (BinOp Add) [V1, SV] ?T [])
         \<lparr>Flags := noIRFlags\<lparr>HasNoUnsignedWrap := False, HasNoSignedWrap := False\<rparr>,
          DbgLoc := CurrentDebugLocation B\<rparr>]"
    by (simp add: F4_def CreateAdd_Insts tys)
  have i5: "Insts F5 = Insts F4 @
      [(newInstruction (BinOp Add) [VStart, VStep] ?T ''vec.iv'')
         \<lparr>Flags := noIRFlags\<lparr>HasNoUnsignedWrap := False, HasNoSignedWrap := False\<rparr>,
          DbgLoc := CurrentDebugLocation B\<rparr>]"
    by (simp add: F5_def CreateAdd_Insts assms(2))
  have sp: "CreateVectorSplat B EC StepV [] F1 = (V1, F2)"
    by (simp add: prod_eq_iff V1_def F2_def CreateVectorSplat_fst ty)
  have stv: "CreateStepVector B (getType V1) F2 = Inr (SV, F3)"
    by (simp add: tys CreateStepVector_vector SV_def F3_def)
  have a4: "CreateAdd B V1 SV [] False False F3 = (VStep, F4)"
    by (simp add: prod_eq_iff VStep_def F4_def CreateAdd_fst tys)
  have a5: "CreateAdd B VStart VStep ''vec.iv'' False False F4 = (V, F5)"
    by (simp add: prod_eq_iff V_def F5_def CreateAdd_fst assms(2))
  have run: "WidenCanonicalIV_part this B (IntegerTy w) EC VStart S Part = Inr S'"
    using assms(1)
    by (simp add: WidenCanonicalIV_part_def st andThen_def sp stv a4 a5 S'_def)
  have fn: "Fn S' = F5"
    by (simp add: S'_def State_set_def)
  have ext: "\<exists>Ks. Insts (Fn S') = Insts (Fn S) @ Ks"
    unfolding fn i5 i4 i3 i2 js by simp
  have out: "PerPartOutput S' = (PerPartOutput S)((WCIV_Def this, Part) \<mapsto> V)"
    by (simp add: S'_def State_set_def)
  have sem: "valueOf E (Fn S') V =
      Some (Lanes (map (\<lambda>l. (c + int (numLanes E EC * Part) + int l) mod 2 ^ w)
                    [0..<numLanes E EC]))"
    if c: "valueOf E (Fn S) VStart = Some (Lanes (replicate (numLanes E EC) c))" for E c
  proof -
    let ?W = "numLanes E EC"
    let ?st = "int (?W * Part) mod 2 ^ w"
    have v1: "valueOf E F2 V1 = Some (Lanes (replicate ?W ?st))"
      unfolding V1_def
      by (rule valueOf_VectorSplat [OF i2 _ _ _ sv]) (simp_all add: newInstruction_def)
    have v1': "valueOf E F3 V1 = Some (Lanes (replicate ?W ?st))"
      using v1 i3 by (rule valueOf_Insts_append)
    have s3: "valueOf E F3 SV = Some (Lanes (map (\<lambda>l. int l mod 2 ^ w) [0..<?W]))"
      unfolding SV_def
      by (rule valueOf_StepVector [OF i3]) (simp_all add: newInstruction_def)
    have "valueOf E F4 VStep =
        lanewise (\<lambda>p q. (p + q) mod 2 ^ w) (Lanes (replicate ?W ?st))
          (Lanes (map (\<lambda>l. int l mod 2 ^ w) [0..<?W]))"
      unfolding VStep_def
      by (rule valueOf_Add_lanewise [OF i4 _ _ _ v1' s3]) (simp_all add: newInstruction_def)
    then have v4: "valueOf E F4 VStep =
        Some (Lanes (map (\<lambda>l. (?st + int l mod 2 ^ w) mod 2 ^ w) [0..<?W]))"
      by (simp add: map2_replicate_upt)
    have c1: "valueOf E F1 VStart = Some (Lanes (replicate ?W c))"
      using c js by (rule valueOf_Insts_append)
    have c4: "valueOf E F4 VStart = Some (Lanes (replicate ?W c))"
      using c1 by (rule valueOf_Insts_append) (simp add: i4 i3 i2)
    have "valueOf E F5 V =
        lanewise (\<lambda>p q. (p + q) mod 2 ^ w) (Lanes (replicate ?W c))
          (Lanes (map (\<lambda>l. (?st + int l mod 2 ^ w) mod 2 ^ w) [0..<?W]))"
      unfolding V_def
      by (rule valueOf_Add_lanewise [OF i5 _ _ _ c4 v4]) (simp_all add: newInstruction_def)
    then have "valueOf E F5 V =
        Some (Lanes (map (\<lambda>l. (c + (?st + int l mod 2 ^ w) mod 2 ^ w) mod 2 ^ w) [0..<?W]))"
      by (simp add: map2_replicate_upt)
    moreover have "(c + (?st + int l mod 2 ^ w) mod 2 ^ w) mod 2 ^ w =
        (c + int (?W * Part) + int l) mod 2 ^ w" for l
      by (simp add: mod_simps add.assoc)
    ultimately show ?thesis
      unfolding fn by simp
  qed
  from run ext out sem show ?thesis
    by blast
qed

lemma isScalar_not_isVector: "isScalar EC \<Longrightarrow> \<not> isVector EC"
  by (auto simp: isScalar_def isVector_def)

lemma numLanes_isScalar: "isScalar EC \<Longrightarrow> numLanes E EC = 1"
  by (auto simp: isScalar_def numLanes_def)

lemma WidenCanonicalIV_part_value:
  assumes "isScalar EC \<or> isVector EC"
    and "getType VStart = (if isScalar EC then IntegerTy w else VectorTy (IntegerTy w) EC)"
  shows "\<exists>S' V. WidenCanonicalIV_part this B (IntegerTy w) EC VStart S Part = Inr S' \<and>
           (\<exists>Js. Insts (Fn S') = Insts (Fn S) @ Js) \<and>
           PerPartOutput S' = (PerPartOutput S)((WCIV_Def this, Part) \<mapsto> V) \<and>
           (\<forall>E c. valueOf E (Fn S) VStart =
                    Some (if isScalar EC then Scalar c else Lanes (replicate (numLanes E EC) c)) \<longrightarrow>
                  valueOf E (Fn S') V =
                    Some (if isScalar EC then Scalar ((c + int (numLanes E EC * Part)) mod 2 ^ w)
                          else Lanes (map (\<lambda>l. (c + int (numLanes E EC * Part) + int l) mod 2 ^ w)
                                       [0..<numLanes E EC])))"
proof (cases "isScalar EC")
  case True
  with assms(2) have "getType VStart = IntegerTy w"
    by simp
  from WidenCanonicalIV_part_scalar [OF True this, of this B S Part] True show ?thesis
    by (simp add: numLanes_isScalar)
next
  case False
  with assms have "isVector EC" "getType VStart = VectorTy (IntegerTy w) EC"
    by simp_all
  from WidenCanonicalIV_part_vector [OF this, of this B S Part] False show ?thesis
    by simp
qed

lemma WidenCanonicalIV_loop_value:
  assumes "isScalar EC \<or> isVector EC"
    and "getType VStart = (if isScalar EC then IntegerTy w else VectorTy (IntegerTy w) EC)"
  shows "\<exists>S'. WidenCanonicalIV_loop this B (IntegerTy w) EC VStart U S k = Inr S' \<and>
           (\<exists>Js. Insts (Fn S') = Insts (Fn S) @ Js) \<and>
           (\<forall>p. \<not> (k \<le> p \<and> p < U) \<longrightarrow>
                PerPartOutput S' (WCIV_Def this, p) = PerPartOutput S (WCIV_Def this, p)) \<and>
           (\<forall>p. k \<le> p \<and> p < U \<longrightarrow>
              (\<exists>V. PerPartOutput S' (WCIV_Def this, p) = Some V \<and>
                 (\<forall>E c. valueOf E (Fn S) VStart =
                          Some (if isScalar EC then Scalar c
                                else Lanes (replicate (numLanes E EC) c)) \<longrightarrow>
                    valueOf E (Fn S') V =
                      Some (if isScalar EC then Scalar ((c + int (numLanes E EC * p)) mod 2 ^ w)
                            else Lanes (map (\<lambda>l. (c + int (numLanes E EC * p) + int l) mod 2 ^ w)
                                         [0..<numLanes E EC])))))"
proof (induction "U - k" arbitrary: k S)
  case 0
  then have "\<not> k < U"
    by simp
  have "WidenCanonicalIV_loop this B (IntegerTy w) EC VStart U S k = Inr S"
    using \<open>\<not> k < U\<close>
    by (simp add: WidenCanonicalIV_loop.simps [of this B "IntegerTy w" EC VStart U S k])
  moreover have "\<not> (k \<le> p \<and> p < U)" for p
    using \<open>\<not> k < U\<close> by arith
  ultimately show ?case
    by auto
next
  case (Suc n)
  then have lt: "k < U" and n: "n = U - (k + 1)"
    by simp_all
  let ?sv = "\<lambda>E c. Some (if isScalar EC then Scalar c else Lanes (replicate (numLanes E EC) c))"
  let ?ex = "\<lambda>E c p. Some (if isScalar EC then Scalar ((c + int (numLanes E EC * p)) mod 2 ^ w)
                            else Lanes (map (\<lambda>l. (c + int (numLanes E EC * p) + int l) mod 2 ^ w)
                                         [0..<numLanes E EC]))"
  from WidenCanonicalIV_part_value [OF assms, of this B S k] obtain S1 Vk Js where
    p1: "WidenCanonicalIV_part this B (IntegerTy w) EC VStart S k = Inr S1" and
    e1: "Insts (Fn S1) = Insts (Fn S) @ Js" and
    o1: "PerPartOutput S1 = (PerPartOutput S)((WCIV_Def this, k) \<mapsto> Vk)" and
    v1: "\<And>E c. valueOf E (Fn S) VStart = ?sv E c \<Longrightarrow> valueOf E (Fn S1) Vk = ?ex E c k"
    by blast
  from Suc.hyps(1) [OF n, of S1] obtain S' Ks where
    l: "WidenCanonicalIV_loop this B (IntegerTy w) EC VStart U S1 (k + 1) = Inr S'" and
    e2: "Insts (Fn S') = Insts (Fn S1) @ Ks" and
    keep: "\<And>p. \<not> (k + 1 \<le> p \<and> p < U) \<Longrightarrow>
                PerPartOutput S' (WCIV_Def this, p) = PerPartOutput S1 (WCIV_Def this, p)" and
    rest: "\<And>p. k + 1 \<le> p \<and> p < U \<Longrightarrow>
              (\<exists>V. PerPartOutput S' (WCIV_Def this, p) = Some V \<and>
                 (\<forall>E c. valueOf E (Fn S1) VStart = ?sv E c \<longrightarrow> valueOf E (Fn S') V = ?ex E c p))"
    by blast
  have run: "WidenCanonicalIV_loop this B (IntegerTy w) EC VStart U S k = Inr S'"
    using lt p1 l by (simp add: WidenCanonicalIV_loop.simps [of this B "IntegerTy w" EC VStart U S k])
  have ext: "\<exists>Js. Insts (Fn S') = Insts (Fn S) @ Js"
    by (simp add: e2 e1)
  have old: "PerPartOutput S' (WCIV_Def this, p) = PerPartOutput S (WCIV_Def this, p)"
    if "\<not> (k \<le> p \<and> p < U)" for p
  proof -
    from that lt have "\<not> (k + 1 \<le> p \<and> p < U)" "p \<noteq> k"
      by auto
    with keep [of p] show ?thesis
      by (simp add: o1)
  qed
  have new: "\<exists>V. PerPartOutput S' (WCIV_Def this, p) = Some V \<and>
                 (\<forall>E c. valueOf E (Fn S) VStart = ?sv E c \<longrightarrow> valueOf E (Fn S') V = ?ex E c p)"
    if "k \<le> p \<and> p < U" for p
  proof (cases "p = k")
    case True
    have "PerPartOutput S' (WCIV_Def this, k) = Some Vk"
      using keep [of k] by (simp add: o1)
    moreover have "valueOf E (Fn S') Vk = ?ex E c k" if "valueOf E (Fn S) VStart = ?sv E c" for E c
      using v1 [OF that] e2 by (rule valueOf_Insts_append)
    ultimately show ?thesis
      using True by blast
  next
    case False
    with that have "k + 1 \<le> p \<and> p < U"
      by simp
    from rest [OF this] obtain V where
      V: "PerPartOutput S' (WCIV_Def this, p) = Some V"
        "\<And>E c. valueOf E (Fn S1) VStart = ?sv E c \<Longrightarrow> valueOf E (Fn S') V = ?ex E c p"
      by blast
    have "valueOf E (Fn S') V = ?ex E c p" if "valueOf E (Fn S) VStart = ?sv E c" for E c
    proof -
      from that e1 have "valueOf E (Fn S1) VStart = ?sv E c"
        by (rule valueOf_Insts_append)
      then show ?thesis
        by (rule V(2))
    qed
    with V(1) show ?thesis
      by blast
  qed
  from run ext old new show ?case
    by blast
qed

text \<open>
  The value of every stream of \<^verbatim>\<open>VPWidenCanonicalIVRecipe::execute\<close>: the broadcast counter
  plus the broadcast base offset plus the lane-index ramp. The base offset of the stream
  \<open>s\<close> is what \<^verbatim>\<open>createStepForVF(Builder, STy, VF, s)\<close> returns; the code of that helper
  is outside this file, and with the helper as modelled above it is \<open>s\<close> multiplied by the
  width.
\<close>

lemma VPWidenCanonicalIVRecipe_execute_value:
  assumes "isScalar (VF S) \<or> isVector (VF S)"
    and "getOperandValue S (WCIV_operands this) 0 0 = Inr CanonicalIV"
    and "getType CanonicalIV = IntegerTy w"
    and "getTerminator (Fn S) (PrevBB S) = Some IP"
  shows "\<exists>S'. VPWidenCanonicalIVRecipe_execute this S = Inr S' \<and>
           (\<forall>s < UF S. \<exists>V. PerPartOutput S' (WCIV_Def this, s) = Some V \<and>
              (\<forall>E c. valueOf E (Fn S) CanonicalIV = Some (Scalar c) \<longrightarrow>
                 valueOf E (Fn S') V =
                   Some (if isVector (VF S)
                         then Lanes (map (\<lambda>l. (c + int (numLanes E (VF S) * s) + int l) mod 2 ^ w)
                                      [0..<numLanes E (VF S)])
                         else Scalar ((c + int (numLanes E (VF S) * s)) mod 2 ^ w))))"
proof -
  let ?EC = "VF S"
  let ?B = "IRBuilder_at (Fn S) (PrevBB S) IP"
  define VStart where "VStart = fst (if isScalar ?EC then (CanonicalIV, Fn S)
                     else CreateVectorSplat ?B ?EC CanonicalIV ''broadcast'' (Fn S))"
  define F1 where "F1 = snd (if isScalar ?EC then (CanonicalIV, Fn S)
                     else CreateVectorSplat ?B ?EC CanonicalIV ''broadcast'' (Fn S))"
  have sv: "isScalar ?EC = (\<not> isVector ?EC)"
    using assms(1) isScalar_not_isVector by blast
  have ty: "getType VStart = (if isScalar ?EC then IntegerTy w else VectorTy (IntegerTy w) ?EC)"
    by (simp add: VStart_def CreateVectorSplat_fst assms(3))
  have e1: "\<exists>Js. Insts F1 = Insts (Fn S) @ Js"
    by (simp add: F1_def CreateVectorSplat_Insts)
  have start: "valueOf E F1 VStart =
      Some (if isScalar ?EC then Scalar c else Lanes (replicate (numLanes E ?EC) c))"
    if c: "valueOf E (Fn S) CanonicalIV = Some (Scalar c)" for E c
  proof (cases "isScalar ?EC")
    case True
    with c show ?thesis
      by (simp add: VStart_def F1_def)
  next
    case False
    have i: "Insts F1 = Insts (Fn S) @
        [(newInstruction VectorSplatOp [CanonicalIV] (VectorTy (IntegerTy w) ?EC) ''broadcast'')
           \<lparr>DbgLoc := CurrentDebugLocation ?B\<rparr>]"
      using False by (simp add: F1_def CreateVectorSplat_Insts assms(3))
    have "valueOf E F1 (InstructionVal (length (Insts (Fn S))) (VectorTy (IntegerTy w) ?EC)) =
        Some (Lanes (replicate (numLanes E ?EC) c))"
      by (rule valueOf_VectorSplat [OF i _ _ _ c]) (simp_all add: newInstruction_def)
    with False show ?thesis
      by (simp add: VStart_def CreateVectorSplat_fst assms(3))
  qed
  from WidenCanonicalIV_loop_value [OF assms(1) ty, of this ?B "UF S" "S\<lparr>Fn := F1\<rparr>" 0]
  obtain S' where
    l: "WidenCanonicalIV_loop this ?B (IntegerTy w) ?EC VStart (UF S) (S\<lparr>Fn := F1\<rparr>) 0 = Inr S'" and
    new: "\<And>p. p < UF S \<Longrightarrow>
            \<exists>V. PerPartOutput S' (WCIV_Def this, p) = Some V \<and>
              (\<forall>E c. valueOf E F1 VStart =
                       Some (if isScalar ?EC then Scalar c
                             else Lanes (replicate (numLanes E ?EC) c)) \<longrightarrow>
                 valueOf E (Fn S') V =
                   Some (if isScalar ?EC then Scalar ((c + int (numLanes E ?EC * p)) mod 2 ^ w)
                         else Lanes (map (\<lambda>l. (c + int (numLanes E ?EC * p) + int l) mod 2 ^ w)
                                      [0..<numLanes E ?EC])))"
    by auto
  have run: "VPWidenCanonicalIVRecipe_execute this S = Inr S'"
    unfolding VPWidenCanonicalIVRecipe_execute_def assms(2)
    using l by (simp add: andThen_def assms(3,4) Let_def case_prod_beta VStart_def F1_def)
  have res: "\<exists>V. PerPartOutput S' (WCIV_Def this, s) = Some V \<and>
              (\<forall>E c. valueOf E (Fn S) CanonicalIV = Some (Scalar c) \<longrightarrow>
                 valueOf E (Fn S') V =
                   Some (if isVector ?EC
                         then Lanes (map (\<lambda>l. (c + int (numLanes E ?EC * s) + int l) mod 2 ^ w)
                                      [0..<numLanes E ?EC])
                         else Scalar ((c + int (numLanes E ?EC * s)) mod 2 ^ w)))"
    if "s < UF S" for s
  proof -
    from new [OF that] obtain V where
      V: "PerPartOutput S' (WCIV_Def this, s) = Some V"
        "\<And>E c. valueOf E F1 VStart =
                       Some (if isScalar ?EC then Scalar c
                             else Lanes (replicate (numLanes E ?EC) c)) \<Longrightarrow>
                 valueOf E (Fn S') V =
                   Some (if isScalar ?EC then Scalar ((c + int (numLanes E ?EC * s)) mod 2 ^ w)
                         else Lanes (map (\<lambda>l. (c + int (numLanes E ?EC * s) + int l) mod 2 ^ w)
                                      [0..<numLanes E ?EC]))"
      by blast
    have "valueOf E (Fn S') V =
          Some (if isVector ?EC
                then Lanes (map (\<lambda>l. (c + int (numLanes E ?EC * s) + int l) mod 2 ^ w)
                             [0..<numLanes E ?EC])
                else Scalar ((c + int (numLanes E ?EC * s)) mod 2 ^ w))"
      if "valueOf E (Fn S) CanonicalIV = Some (Scalar c)" for E c
      using V(2) [OF start [OF that]] by (simp add: sv)
    with V(1) show ?thesis
      by blast
  qed
  from run res show ?thesis
    by blast
qed

subsection \<open>Widening of unary and binary operators\<close>

lemma overflowing_not_exact:
  "isOverflowingBinaryOperator Op \<Longrightarrow> \<not> isPossiblyExactOperator Op"
proof (cases Op)
  case (BinOp bop)
  then show "isOverflowingBinaryOperator Op \<Longrightarrow> \<not> isPossiblyExactOperator Op"
    by (cases bop) simp_all
qed simp_all

lemma dropPoisonGeneratingFlags_copied:
  "HasNoUnsignedWrap (Flags (dropPoisonGeneratingFlags (copyIRFlags (J\<lparr>Flags := noIRFlags\<rparr>) I))) = False \<and>
   HasNoSignedWrap (Flags (dropPoisonGeneratingFlags (copyIRFlags (J\<lparr>Flags := noIRFlags\<rparr>) I))) = False \<and>
   IsExact (Flags (dropPoisonGeneratingFlags (copyIRFlags (J\<lparr>Flags := noIRFlags\<rparr>) I))) = False \<and>
   NoNaNs (FastFlags (Flags (dropPoisonGeneratingFlags (copyIRFlags (J\<lparr>Flags := noIRFlags\<rparr>) I)))) = False \<and>
   NoInfs (FastFlags (Flags (dropPoisonGeneratingFlags (copyIRFlags (J\<lparr>Flags := noIRFlags\<rparr>) I)))) = False"
  using overflowing_not_exact [of "Operation J"]
  by (auto simp: dropPoisonGeneratingFlags_def copyIRFlags_def Let_def noIRFlags_def
      noFastMathFlags_def)

lemma copyIRFlags_Operation [simp]: "Operation (copyIRFlags J I) = Operation J"
  by (simp add: copyIRFlags_def Let_def)

lemma dropPoisonGeneratingFlags_Operation [simp]:
  "Operation (dropPoisonGeneratingFlags J) = Operation J"
  by (simp add: dropPoisonGeneratingFlags_def Let_def)

lemma copyIRFlags_FP_created:
  assumes "isFPMathOperator (Operation J) = Opcode_isFPMath (SI_Opcode I)"
    and "Flags J = (if isFPMathOperator (Operation J) then noIRFlags\<lparr>FastFlags := f\<rparr> else noIRFlags)"
  shows "Flags (copyIRFlags J I) = Flags (copyIRFlags (J\<lparr>Flags := noIRFlags\<rparr>) I)"
  using assms by (simp add: copyIRFlags_def Let_def noIRFlags_def)


lemma copyIRFlags_Flags_cong:
  "Operation X = Operation Y \<Longrightarrow> Flags X = Flags Y \<Longrightarrow>
   Flags (copyIRFlags X I) = Flags (copyIRFlags Y I)"
  by (simp add: copyIRFlags_def Let_def)

lemma dropPoisonGeneratingFlags_Flags_cong:
  "Operation X = Operation Y \<Longrightarrow> Flags X = Flags Y \<Longrightarrow>
   Flags (dropPoisonGeneratingFlags X) = Flags (dropPoisonGeneratingFlags Y)"
  by (simp add: dropPoisonGeneratingFlags_def Let_def)

lemma getOperandValues_length:
  "getOperandValues S Ops Part = Inr Vs \<Longrightarrow> length Vs = length Ops"
  by (induction Ops arbitrary: Vs) (auto simp: andThen_Inr)

lemma getOperandValues_total:
  "(\<forall>Op \<in> set Ops. PerPartOutput S (Op, Part) \<noteq> None) \<Longrightarrow>
   \<exists>Vs. getOperandValues S Ops Part = Inr Vs"
  by (induction Ops) (auto simp: andThen_def State_get_def)

lemma CreateNAryOp_result:
  assumes "Opc = BinaryOp bop \<or> Opc = FNeg"
    and "length Ops = (if Opc = FNeg then 1 else 2)"
  shows "\<exists>J0. CreateNAryOp B Opc Ops F = Inr (Insert B J0 F) \<and>
           Operation J0 = (if Opc = FNeg then FNegOp else BinOp bop) \<and>
           Operands J0 = Ops \<and>
           Flags J0 = (if isFPMathOperator (Operation J0) then noIRFlags\<lparr>FastFlags := B_FMF B\<rparr>
                       else noIRFlags)"
proof (cases "Opc = FNeg")
  case True
  with assms(2) obtain V where Ops: "Ops = [V]"
    by (cases Ops) auto
  let ?J = "setFPAttrs B (newInstruction FNegOp [V] (getType V) [])"
  have "CreateNAryOp B Opc Ops F = Inr (Insert B ?J F)"
    using True Ops by (simp add: CreateNAryOp_def CreateFNeg_def)
  moreover have "Operation ?J = FNegOp" "Operands ?J = [V]"
    "Flags ?J = noIRFlags\<lparr>FastFlags := B_FMF B\<rparr>"
    by (simp_all add: setFPAttrs_def newInstruction_def)
  ultimately show ?thesis
    using True Ops by (intro exI [of _ ?J]) simp
next
  case False
  with assms(1) have opc: "Opc = BinaryOp bop"
    by simp
  from False assms(2) obtain L R where Ops: "Ops = [L, R]"
    by (cases Ops; cases "tl Ops") auto
  let ?I = "newInstruction (BinOp bop) [L, R] (getType L) []"
  let ?J = "if isFPBinaryOp bop then setFPAttrs B ?I else ?I"
  have "CreateNAryOp B Opc Ops F = Inr (Insert B ?J F)"
    using opc Ops by (simp add: CreateNAryOp_def CreateBinOp_def Let_def)
  moreover have "Operation ?J = BinOp bop" "Operands ?J = [L, R]"
    "Flags ?J = (if isFPBinaryOp bop then noIRFlags\<lparr>FastFlags := B_FMF B\<rparr> else noIRFlags)"
    by (simp_all add: setFPAttrs_def newInstruction_def)
  ultimately show ?thesis
    using opc Ops by (intro exI [of _ ?J]) simp
qed

lemma class_of_created:
  assumes "Opc = BinaryOp bop \<or> Opc = FNeg"
    and "Op = (if Opc = FNeg then FNegOp else BinOp bop)"
  shows "isFPMathOperator Op = Opcode_isFPMath Opc"
  using assms by auto


lemma updateInst_last:
  "Insts F = Is @ [J] \<Longrightarrow> a = length Is \<Longrightarrow>
   updateInst a f F = F\<lparr>Insts := Is @ [f J]\<rparr>"
  by (simp add: updateInst_def)

lemma widen_part_result:
  assumes opc: "SI_Opcode I = BinaryOp bop \<or> SI_Opcode I = FNeg"
    and len: "length (VPW_operands this) = (if SI_Opcode I = FNeg then 1 else 2)"
    and ops: "getOperandValues S (VPW_operands this) Part = Inr Ops"
  shows "\<exists>S' J. widen_part this I S Part = Inr S' \<and> sameSetting S S' \<and>
           Insts (Fn S') = Insts (Fn S) @ [J] \<and>
           PerPartOutput S' = (PerPartOutput S)
             ((VPW_Def this, Part) \<mapsto> InstructionVal (length (Insts (Fn S))) (ResultTy J)) \<and>
           Operation J = (if SI_Opcode I = FNeg then FNegOp else BinOp bop) \<and>
           Operands J = Ops \<and>
           Flags J =
             (if VPW_this this \<in> MayGeneratePoisonRecipes S
              then Flags (dropPoisonGeneratingFlags
                     (copyIRFlags (newInstruction (Operation J) [] VoidTy []) I))
              else Flags (copyIRFlags (newInstruction (Operation J) [] VoidTy []) I))"
proof -
  from ops have "length Ops = length (VPW_operands this)"
    by (rule getOperandValues_length)
  with len have "length Ops = (if SI_Opcode I = FNeg then 1 else 2)"
    by simp
  from CreateNAryOp_result [OF opc this, of "Builder S" "Fn S"]
  obtain J0 where cr: "CreateNAryOp (Builder S) (SI_Opcode I) Ops (Fn S) = Inr (Insert (Builder S) J0 (Fn S))"
    and op0: "Operation J0 = (if SI_Opcode I = FNeg then FNegOp else BinOp bop)"
    and ops0: "Operands J0 = Ops"
    and fl0: "Flags J0 = (if isFPMathOperator (Operation J0)
                 then noIRFlags\<lparr>FastFlags := B_FMF (Builder S)\<rparr> else noIRFlags)"
    by blast
  define n where "n = length (Insts (Fn S))"
  define J1 where "J1 = J0\<lparr>DbgLoc := CurrentDebugLocation (Builder S)\<rparr>"
  define V where "V = InstructionVal n (ResultTy J0)"
  define F1 where "F1 = snd (Insert (Builder S) J0 (Fn S))"
  have ins: "Insert (Builder S) J0 (Fn S) = (V, F1)"
    by (simp add: V_def F1_def n_def Insert_def)
  have F1: "Insts F1 = Insts (Fn S) @ [J1]"
    by (simp add: F1_def J1_def Insert_def)
  define J2 where "J2 = copyIRFlags J1 I"
  define J3 where "J3 = (if VPW_this this \<in> MayGeneratePoisonRecipes S
                         then dropPoisonGeneratingFlags J2 else J2)"
  define J where "J = J3\<lparr>Metadata := SI_Metadata I\<rparr>"
  define F2 where "F2 = F1\<lparr>Insts := Insts (Fn S) @ [J2]\<rparr>"
  define F3 where "F3 = F1\<lparr>Insts := Insts (Fn S) @ [J3]\<rparr>"
  define F4 where "F4 = F1\<lparr>Insts := Insts (Fn S) @ [J]\<rparr>"
  have u2: "updateInst n (\<lambda>J. copyIRFlags J I) F1 = F2"
    using updateInst_last [OF F1, of n] by (simp add: n_def F2_def J2_def)
  have F2: "Insts F2 = Insts (Fn S) @ [J2]"
    by (simp add: F2_def)
  have u3: "updateInst n dropPoisonGeneratingFlags F2 = F1\<lparr>Insts := Insts (Fn S) @ [dropPoisonGeneratingFlags J2]\<rparr>"
    using updateInst_last [OF F2, of n] by (simp add: n_def F2_def)
  have F3eq: "(if VPW_this this \<in> MayGeneratePoisonRecipes S
               then updateInst n dropPoisonGeneratingFlags F2 else F2) = F3"
  proof (cases "VPW_this this \<in> MayGeneratePoisonRecipes S")
    case True
    then show ?thesis
      by (simp add: u3 F3_def J3_def)
  next
    case False
    then show ?thesis
      by (simp add: F3_def J3_def F2_def)
  qed
  have F3: "Insts F3 = Insts (Fn S) @ [J3]"
    by (simp add: F3_def)
  have u4: "updateInst n (\<lambda>J. J\<lparr>Metadata := SI_Metadata I\<rparr>) F3 = F4"
    using updateInst_last [OF F3, of n] by (simp add: n_def F3_def F4_def J_def)
  have F3eq': "(if VPW_this this \<in> MayGeneratePoisonRecipes S
               then updateInst n dropPoisonGeneratingFlags (updateInst n (\<lambda>J. copyIRFlags J I) F1)
               else updateInst n (\<lambda>J. copyIRFlags J I) F1) = F3"
    using F3eq by (simp only: u2)
  define S' where "S' = (State_set (VPW_Def this) V Part (S\<lparr>Fn := F3\<rparr>))\<lparr>Fn := F4\<rparr>"
  have wp: "widen_part this I S Part = Inr S'"
    by (simp add: widen_part_def ops cr ins andThen_def V_def F3eq' Let_def addMetadata_def
        State_set_def u4 S'_def)
  have same: "sameSetting S S'"
    using widen_part_sameSetting [OF wp] .
  have insts: "Insts (Fn S') = Insts (Fn S) @ [J]"
    by (simp add: S'_def F4_def)
  have rt: "ResultTy J = ResultTy J0"
    by (simp add: J_def J3_def J2_def J1_def copyIRFlags_def dropPoisonGeneratingFlags_def Let_def)
  have ppo: "PerPartOutput S' = (PerPartOutput S)
       ((VPW_Def this, Part) \<mapsto> InstructionVal (length (Insts (Fn S))) (ResultTy J))"
    by (simp add: S'_def State_set_def V_def n_def rt)
  have opJ: "Operation J = Operation J0"
    by (simp add: J_def J3_def J2_def J1_def)
  have opsJ: "Operands J = Operands J0"
    by (simp add: J_def J3_def J2_def J1_def copyIRFlags_def dropPoisonGeneratingFlags_def Let_def)
  have cls: "isFPMathOperator (Operation J1) = Opcode_isFPMath (SI_Opcode I)"
    using opc op0 by (auto simp: J1_def)
  have "Flags J1 = (if isFPMathOperator (Operation J1)
                 then noIRFlags\<lparr>FastFlags := B_FMF (Builder S)\<rparr> else noIRFlags)"
    using fl0 by (simp add: J1_def)
  from copyIRFlags_FP_created [OF cls this]
  have "Flags J2 = Flags (copyIRFlags (J1\<lparr>Flags := noIRFlags\<rparr>) I)"
    by (simp add: J2_def)
  also have "\<dots> = Flags (copyIRFlags (newInstruction (Operation J) [] VoidTy []) I)"
    by (rule copyIRFlags_Flags_cong) (simp_all add: opJ J1_def newInstruction_def)
  finally have fl2: "Flags J2 = Flags (copyIRFlags (newInstruction (Operation J) [] VoidTy []) I)" .
  have op2: "Operation J2 = Operation J"
    by (simp add: opJ J2_def J1_def)
  have fl3: "Flags (dropPoisonGeneratingFlags J2) =
      Flags (dropPoisonGeneratingFlags (copyIRFlags (newInstruction (Operation J) [] VoidTy []) I))"
    by (rule dropPoisonGeneratingFlags_Flags_cong) (simp_all add: fl2 op2 newInstruction_def)
  have flJ: "Flags J =
             (if VPW_this this \<in> MayGeneratePoisonRecipes S
              then Flags (dropPoisonGeneratingFlags
                     (copyIRFlags (newInstruction (Operation J) [] VoidTy []) I))
              else Flags (copyIRFlags (newInstruction (Operation J) [] VoidTy []) I))"
    using fl2 fl3 by (simp add: J_def J3_def)
  from wp same insts ppo opJ op0 opsJ ops0 flJ show ?thesis
    by (intro exI [of _ S'] exI [of _ J]) simp
qed


lemma getOperandValues_cong:
  "(\<forall>Op \<in> set Ops. PerPartOutput S' (Op, Part) = PerPartOutput S (Op, Part)) \<Longrightarrow>
   getOperandValues S' Ops Part = getOperandValues S Ops Part"
  by (induction Ops) (simp_all add: State_get_def)

lemma widen_loop_result:
  assumes opc: "SI_Opcode I = BinaryOp bop \<or> SI_Opcode I = FNeg"
    and len: "length (VPW_operands this) = (if SI_Opcode I = FNeg then 1 else 2)"
    and avail: "\<forall>Op \<in> set (VPW_operands this). \<forall>p. k \<le> p \<and> p < UF S \<longrightarrow>
                  PerPartOutput S (Op, p) \<noteq> None"
  shows "\<exists>S'. widen_loop this I S k = Inr S' \<and> sameSetting S S' \<and>
           (\<exists>Js. Insts (Fn S') = Insts (Fn S) @ Js) \<and>
           (\<forall>D p. p < k \<longrightarrow> PerPartOutput S' (D, p) = PerPartOutput S (D, p)) \<and>
           (\<forall>p. k \<le> p \<and> p < UF S \<longrightarrow>
              (\<exists>a T. PerPartOutput S' (VPW_Def this, p) = Some (InstructionVal a T) \<and>
                 length (Insts (Fn S)) \<le> a \<and> a < length (Insts (Fn S')) \<and>
                 Operation (Insts (Fn S') ! a) = (if SI_Opcode I = FNeg then FNegOp else BinOp bop) \<and>
                 getOperandValues S (VPW_operands this) p = Inr (Operands (Insts (Fn S') ! a)) \<and>
                 Flags (Insts (Fn S') ! a) =
                   (if VPW_this this \<in> MayGeneratePoisonRecipes S
                    then Flags (dropPoisonGeneratingFlags
                           (copyIRFlags (newInstruction (Operation (Insts (Fn S') ! a)) [] VoidTy []) I))
                    else Flags (copyIRFlags
                           (newInstruction (Operation (Insts (Fn S') ! a)) [] VoidTy []) I))))"
  using avail
proof (induction "UF S - k" arbitrary: k S)
  case 0
  then have "\<not> k < UF S"
    by simp
  have "widen_loop this I S k = Inr S"
    using \<open>\<not> k < UF S\<close> by (simp add: widen_loop.simps [of this I S k])
  moreover have "\<not> (k \<le> p \<and> p < UF S)" for p
    using \<open>\<not> k < UF S\<close> by arith
  ultimately show ?case
    by auto
next
  case (Suc n)
  then have lt: "k < UF S"
    by simp
  let ?ops = "VPW_operands this"
  let ?fl = "\<lambda>M J. (if VPW_this this \<in> M
                    then Flags (dropPoisonGeneratingFlags
                           (copyIRFlags (newInstruction (Operation J) [] VoidTy []) I))
                    else Flags (copyIRFlags (newInstruction (Operation J) [] VoidTy []) I))"
  let ?op = "if SI_Opcode I = FNeg then FNegOp else BinOp bop"
  from Suc.prems lt have "\<forall>Op \<in> set ?ops. PerPartOutput S (Op, k) \<noteq> None"
    by auto
  from getOperandValues_total [OF this] obtain Ops where
    Ops: "getOperandValues S ?ops k = Inr Ops"
    by blast
  from widen_part_result [OF opc len Ops] obtain S1 J where
    p1: "widen_part this I S k = Inr S1" and
    s1: "sameSetting S S1" and
    e1: "Insts (Fn S1) = Insts (Fn S) @ [J]" and
    o1: "PerPartOutput S1 = (PerPartOutput S)
           ((VPW_Def this, k) \<mapsto> InstructionVal (length (Insts (Fn S))) (ResultTy J))" and
    opJ: "Operation J = ?op" and
    opsJ: "Operands J = Ops" and
    flJ: "Flags J = ?fl (MayGeneratePoisonRecipes S) J"
    by blast
  from s1 have uf: "UF S1 = UF S" and mg: "MayGeneratePoisonRecipes S1 = MayGeneratePoisonRecipes S"
    by (simp_all add: sameSetting_def)
  from Suc.hyps(2) lt have n: "n = UF S1 - (k + 1)"
    by (simp add: uf)
  have av1: "\<forall>Op \<in> set ?ops. \<forall>p. k + 1 \<le> p \<and> p < UF S1 \<longrightarrow> PerPartOutput S1 (Op, p) \<noteq> None"
    using Suc.prems by (auto simp: o1 uf)
  from Suc.hyps(1) [OF n av1] obtain S' Ks where
    l: "widen_loop this I S1 (k + 1) = Inr S'" and
    s2: "sameSetting S1 S'" and
    e2: "Insts (Fn S') = Insts (Fn S1) @ Ks" and
    keep: "\<And>D p. p < k + 1 \<Longrightarrow> PerPartOutput S' (D, p) = PerPartOutput S1 (D, p)" and
    rest: "\<And>p. k + 1 \<le> p \<and> p < UF S1 \<Longrightarrow>
              (\<exists>a T. PerPartOutput S' (VPW_Def this, p) = Some (InstructionVal a T) \<and>
                 length (Insts (Fn S1)) \<le> a \<and> a < length (Insts (Fn S')) \<and>
                 Operation (Insts (Fn S') ! a) = ?op \<and>
                 getOperandValues S1 ?ops p = Inr (Operands (Insts (Fn S') ! a)) \<and>
                 Flags (Insts (Fn S') ! a) = ?fl (MayGeneratePoisonRecipes S1) (Insts (Fn S') ! a))"
    by blast
  have run: "widen_loop this I S k = Inr S'"
    using lt p1 l by (simp add: widen_loop.simps [of this I S k])
  have same: "sameSetting S S'"
    using s1 s2 by (rule sameSetting_trans)
  have ext: "\<exists>Js. Insts (Fn S') = Insts (Fn S) @ Js"
    by (simp add: e2 e1)
  have old: "PerPartOutput S' (D, p) = PerPartOutput S (D, p)" if "p < k" for D p
    using keep [of p D] that by (simp add: o1)
  have new: "\<exists>a T. PerPartOutput S' (VPW_Def this, p) = Some (InstructionVal a T) \<and>
                 length (Insts (Fn S)) \<le> a \<and> a < length (Insts (Fn S')) \<and>
                 Operation (Insts (Fn S') ! a) = ?op \<and>
                 getOperandValues S ?ops p = Inr (Operands (Insts (Fn S') ! a)) \<and>
                 Flags (Insts (Fn S') ! a) = ?fl (MayGeneratePoisonRecipes S) (Insts (Fn S') ! a)"
    if "k \<le> p \<and> p < UF S" for p
  proof (cases "p = k")
    case True
    let ?a = "length (Insts (Fn S))"
    have nth: "Insts (Fn S') ! ?a = J"
      by (simp add: e2 e1)
    have "PerPartOutput S' (VPW_Def this, p) = Some (InstructionVal ?a (ResultTy J))"
      using keep [of k "VPW_Def this"] True by (simp add: o1)
    moreover have "?a < length (Insts (Fn S'))"
      by (simp add: e2 e1)
    ultimately show ?thesis
      using opJ opsJ flJ Ops True by (intro exI [of _ ?a] exI [of _ "ResultTy J"]) (simp add: nth)
  next
    case False
    with that have p: "k + 1 \<le> p \<and> p < UF S1"
      by (simp add: uf)
    from rest [OF p] obtain a T where
      r: "PerPartOutput S' (VPW_Def this, p) = Some (InstructionVal a T)"
        "length (Insts (Fn S1)) \<le> a" "a < length (Insts (Fn S'))"
        "Operation (Insts (Fn S') ! a) = ?op"
        "getOperandValues S1 ?ops p = Inr (Operands (Insts (Fn S') ! a))"
        "Flags (Insts (Fn S') ! a) = ?fl (MayGeneratePoisonRecipes S1) (Insts (Fn S') ! a)"
      by blast
    have "getOperandValues S1 ?ops p = getOperandValues S ?ops p"
      using False by (intro getOperandValues_cong) (simp add: o1)
    with r have "getOperandValues S ?ops p = Inr (Operands (Insts (Fn S') ! a))"
      by simp
    moreover from r(2) have "length (Insts (Fn S)) \<le> a"
      by (simp add: e1)
    ultimately show ?thesis
      using r(1,3,4,6) by (intro exI [of _ a] exI [of _ T]) (simp add: mg)
  qed
  from run same ext old new show ?case
    by blast
qed


lemma copyIRFlags_fresh:
  assumes "SI_Opcode I = BinaryOp bop \<or> SI_Opcode I = FNeg"
    and "Op = (if SI_Opcode I = FNeg then FNegOp else BinOp bop)"
  shows "Flags (copyIRFlags (newInstruction Op [] VoidTy []) I) =
           \<lparr>HasNoUnsignedWrap = Opcode_isOverflowing (SI_Opcode I) \<and> HasNoUnsignedWrap (SI_Flags I),
            HasNoSignedWrap = Opcode_isOverflowing (SI_Opcode I) \<and> HasNoSignedWrap (SI_Flags I),
            IsExact = Opcode_isPossiblyExact (SI_Opcode I) \<and> IsExact (SI_Flags I),
            FastFlags = (if Opcode_isFPMath (SI_Opcode I) then FastFlags (SI_Flags I)
                         else noFastMathFlags)\<rparr>"
  using assms by (auto simp: copyIRFlags_def newInstruction_def Let_def noIRFlags_def)

lemma dropPoisonGeneratingFlags_fresh:
  "\<not> HasNoUnsignedWrap (Flags (dropPoisonGeneratingFlags (copyIRFlags (newInstruction Op [] VoidTy []) I))) \<and>
   \<not> HasNoSignedWrap (Flags (dropPoisonGeneratingFlags (copyIRFlags (newInstruction Op [] VoidTy []) I))) \<and>
   \<not> IsExact (Flags (dropPoisonGeneratingFlags (copyIRFlags (newInstruction Op [] VoidTy []) I))) \<and>
   \<not> NoNaNs (FastFlags (Flags (dropPoisonGeneratingFlags (copyIRFlags (newInstruction Op [] VoidTy []) I)))) \<and>
   \<not> NoInfs (FastFlags (Flags (dropPoisonGeneratingFlags (copyIRFlags (newInstruction Op [] VoidTy []) I))))"
proof -
  have "newInstruction Op [] VoidTy [] = (newInstruction Op [] VoidTy [])\<lparr>Flags := noIRFlags\<rparr>"
    by (simp add: newInstruction_def)
  then show ?thesis
    using dropPoisonGeneratingFlags_copied [of "newInstruction Op [] VoidTy []" I] by simp
qed

lemma VPWidenRecipe_execute_flags:
  assumes ui: "VPW_UnderlyingInstr this = Some I"
    and opc: "SI_Opcode I = BinaryOp bop \<or> SI_Opcode I = FNeg"
    and len: "length (VPW_operands this) = (if SI_Opcode I = FNeg then 1 else 2)"
    and avail: "\<forall>Op \<in> set (VPW_operands this). \<forall>p < UF S. PerPartOutput S (Op, p) \<noteq> None"
  shows "\<exists>S'. VPWidenRecipe_execute this S = Inr S' \<and>
           (\<forall>p < UF S. \<exists>a T J.
              PerPartOutput S' (VPW_Def this, p) = Some (InstructionVal a T) \<and>
              a < length (Insts (Fn S')) \<and> J = Insts (Fn S') ! a \<and>
              Operation J = (if SI_Opcode I = FNeg then FNegOp else BinOp bop) \<and>
              getOperandValues S (VPW_operands this) p = Inr (Operands J) \<and>
              (VPW_this this \<in> MayGeneratePoisonRecipes S \<longrightarrow>
                 Flags J = Flags (dropPoisonGeneratingFlags
                                    (copyIRFlags (newInstruction (Operation J) [] VoidTy []) I)) \<and>
                 \<not> HasNoUnsignedWrap (Flags J) \<and> \<not> HasNoSignedWrap (Flags J) \<and>
                 \<not> IsExact (Flags J) \<and>
                 \<not> NoNaNs (FastFlags (Flags J)) \<and> \<not> NoInfs (FastFlags (Flags J))) \<and>
              (VPW_this this \<notin> MayGeneratePoisonRecipes S \<longrightarrow>
                 Flags J = Flags (copyIRFlags (newInstruction (Operation J) [] VoidTy []) I) \<and>
                 HasNoUnsignedWrap (Flags J) =
                   (Opcode_isOverflowing (SI_Opcode I) \<and> HasNoUnsignedWrap (SI_Flags I)) \<and>
                 HasNoSignedWrap (Flags J) =
                   (Opcode_isOverflowing (SI_Opcode I) \<and> HasNoSignedWrap (SI_Flags I)) \<and>
                 IsExact (Flags J) =
                   (Opcode_isPossiblyExact (SI_Opcode I) \<and> IsExact (SI_Flags I)) \<and>
                 FastFlags (Flags J) =
                   (if Opcode_isFPMath (SI_Opcode I) then FastFlags (SI_Flags I)
                    else noFastMathFlags)))"
proof -
  define S0 where "S0 = setDebugLocFromInst I S"
  let ?ops = "VPW_operands this"
  let ?op = "if SI_Opcode I = FNeg then FNegOp else BinOp bop"
  have S0: "UF S0 = UF S" "PerPartOutput S0 = PerPartOutput S"
    "MayGeneratePoisonRecipes S0 = MayGeneratePoisonRecipes S"
    by (simp_all add: S0_def setDebugLocFromInst_def)
  have av0: "\<forall>Op \<in> set ?ops. \<forall>p. 0 \<le> p \<and> p < UF S0 \<longrightarrow> PerPartOutput S0 (Op, p) \<noteq> None"
    using avail by (simp add: S0)
  from widen_loop_result [OF opc len av0] obtain S' where
    l: "widen_loop this I S0 0 = Inr S'" and
    new: "\<And>p. p < UF S \<Longrightarrow>
              (\<exists>a T. PerPartOutput S' (VPW_Def this, p) = Some (InstructionVal a T) \<and>
                 length (Insts (Fn S0)) \<le> a \<and> a < length (Insts (Fn S')) \<and>
                 Operation (Insts (Fn S') ! a) = ?op \<and>
                 getOperandValues S0 ?ops p = Inr (Operands (Insts (Fn S') ! a)) \<and>
                 Flags (Insts (Fn S') ! a) =
                   (if VPW_this this \<in> MayGeneratePoisonRecipes S
                    then Flags (dropPoisonGeneratingFlags
                           (copyIRFlags (newInstruction (Operation (Insts (Fn S') ! a)) [] VoidTy []) I))
                    else Flags (copyIRFlags
                           (newInstruction (Operation (Insts (Fn S') ! a)) [] VoidTy []) I)))"
    unfolding S0 by auto
  have run: "VPWidenRecipe_execute this S = Inr S'"
    using opc l by (auto simp: VPWidenRecipe_execute_def ui S0_def)
  have gov: "getOperandValues S0 ?ops p = getOperandValues S ?ops p" for p
    by (rule getOperandValues_cong) (simp add: S0)
  have res: "\<exists>a T J.
              PerPartOutput S' (VPW_Def this, p) = Some (InstructionVal a T) \<and>
              a < length (Insts (Fn S')) \<and> J = Insts (Fn S') ! a \<and>
              Operation J = ?op \<and>
              getOperandValues S ?ops p = Inr (Operands J) \<and>
              (VPW_this this \<in> MayGeneratePoisonRecipes S \<longrightarrow>
                 Flags J = Flags (dropPoisonGeneratingFlags
                                    (copyIRFlags (newInstruction (Operation J) [] VoidTy []) I)) \<and>
                 \<not> HasNoUnsignedWrap (Flags J) \<and> \<not> HasNoSignedWrap (Flags J) \<and>
                 \<not> IsExact (Flags J) \<and>
                 \<not> NoNaNs (FastFlags (Flags J)) \<and> \<not> NoInfs (FastFlags (Flags J))) \<and>
              (VPW_this this \<notin> MayGeneratePoisonRecipes S \<longrightarrow>
                 Flags J = Flags (copyIRFlags (newInstruction (Operation J) [] VoidTy []) I) \<and>
                 HasNoUnsignedWrap (Flags J) =
                   (Opcode_isOverflowing (SI_Opcode I) \<and> HasNoUnsignedWrap (SI_Flags I)) \<and>
                 HasNoSignedWrap (Flags J) =
                   (Opcode_isOverflowing (SI_Opcode I) \<and> HasNoSignedWrap (SI_Flags I)) \<and>
                 IsExact (Flags J) =
                   (Opcode_isPossiblyExact (SI_Opcode I) \<and> IsExact (SI_Flags I)) \<and>
                 FastFlags (Flags J) =
                   (if Opcode_isFPMath (SI_Opcode I) then FastFlags (SI_Flags I)
                    else noFastMathFlags))"
    if "p < UF S" for p
  proof -
    from new [OF that] obtain a T where
      r: "PerPartOutput S' (VPW_Def this, p) = Some (InstructionVal a T)"
        "a < length (Insts (Fn S'))"
        "Operation (Insts (Fn S') ! a) = ?op"
        "getOperandValues S0 ?ops p = Inr (Operands (Insts (Fn S') ! a))"
        "Flags (Insts (Fn S') ! a) =
                   (if VPW_this this \<in> MayGeneratePoisonRecipes S
                    then Flags (dropPoisonGeneratingFlags
                           (copyIRFlags (newInstruction (Operation (Insts (Fn S') ! a)) [] VoidTy []) I))
                    else Flags (copyIRFlags
                           (newInstruction (Operation (Insts (Fn S') ! a)) [] VoidTy []) I))"
      by blast
    define J where "J = Insts (Fn S') ! a"
    note cf = copyIRFlags_fresh [OF opc, of "Operation J"]
    note df = dropPoisonGeneratingFlags_fresh [of "Operation J" I]
    have opJ: "Operation J = ?op"
      using r(3) by (simp add: J_def)
    have flJ: "Flags J = (if VPW_this this \<in> MayGeneratePoisonRecipes S
                    then Flags (dropPoisonGeneratingFlags
                           (copyIRFlags (newInstruction (Operation J) [] VoidTy []) I))
                    else Flags (copyIRFlags (newInstruction (Operation J) [] VoidTy []) I))"
      using r(5) by (simp add: J_def)
    have opsJ: "getOperandValues S ?ops p = Inr (Operands J)"
      using r(4) by (simp add: gov J_def)
    have inset: "Flags J = Flags (dropPoisonGeneratingFlags
                                    (copyIRFlags (newInstruction (Operation J) [] VoidTy []) I)) \<and>
                 \<not> HasNoUnsignedWrap (Flags J) \<and> \<not> HasNoSignedWrap (Flags J) \<and>
                 \<not> IsExact (Flags J) \<and>
                 \<not> NoNaNs (FastFlags (Flags J)) \<and> \<not> NoInfs (FastFlags (Flags J))"
      if "VPW_this this \<in> MayGeneratePoisonRecipes S"
      using that flJ df by simp
    have notin: "Flags J = Flags (copyIRFlags (newInstruction (Operation J) [] VoidTy []) I) \<and>
                 HasNoUnsignedWrap (Flags J) =
                   (Opcode_isOverflowing (SI_Opcode I) \<and> HasNoUnsignedWrap (SI_Flags I)) \<and>
                 HasNoSignedWrap (Flags J) =
                   (Opcode_isOverflowing (SI_Opcode I) \<and> HasNoSignedWrap (SI_Flags I)) \<and>
                 IsExact (Flags J) =
                   (Opcode_isPossiblyExact (SI_Opcode I) \<and> IsExact (SI_Flags I)) \<and>
                 FastFlags (Flags J) =
                   (if Opcode_isFPMath (SI_Opcode I) then FastFlags (SI_Flags I)
                    else noFastMathFlags)"
      if "VPW_this this \<notin> MayGeneratePoisonRecipes S"
    proof -
      from that flJ have "Flags J = Flags (copyIRFlags (newInstruction (Operation J) [] VoidTy []) I)"
        by simp
      with cf [OF opJ] show ?thesis
        by simp
    qed
    have "J = Insts (Fn S') ! a"
      by (simp add: J_def)
    with r(1,2) opJ opsJ inset notin show ?thesis
      by blast
  qed
  from run res show ?thesis
    by blast
qed

text \<open>
  C6. A widening recipe of a binary or unary arithmetic operator is executed: its underlying
  value is an instruction \<open>I\<close> whose opcode is a binary operator or \<^verbatim>\<open>FNeg\<close>, it has as many
  operands as the operator takes, and the cache holds the generated value of every operand
  for every stream. Then the execution succeeds and, for every stream below the unroll
  count, the cache holds for the recipe an instruction \<open>J\<close> of the function, of the
  operation of \<open>I\<close> on the generated operands, such that:
  if the recipe is in the set \<^verbatim>\<open>MayGeneratePoisonRecipes\<close> of the state, the flags of \<open>J\<close> are
  those that \<^verbatim>\<open>dropPoisonGeneratingFlags\<close> leaves of the flags copied from \<open>I\<close>, and \<open>J\<close> carries
  none of the flags no-unsigned-wrap, no-signed-wrap, exact, no-NaNs, no-infinities;
  if the recipe is not in that set, the flags of \<open>J\<close> are the flags copied from \<open>I\<close>,
  unchanged: the no-wrap flags of \<open>I\<close> for an overflowing operator, the exact flag of \<open>I\<close> for
  a possibly exact operator, the fast-math flags of \<open>I\<close> for a floating-point operator.
\<close>

theorem C6_poison_generating_flags:
  assumes "VPW_UnderlyingInstr this = Some I"
    and "SI_Opcode I = BinaryOp bop \<or> SI_Opcode I = FNeg"
    and "length (VPW_operands this) = (if SI_Opcode I = FNeg then 1 else 2)"
    and "\<forall>Op \<in> set (VPW_operands this). \<forall>p < UF S. PerPartOutput S (Op, p) \<noteq> None"
  shows "\<exists>S'. VPWidenRecipe_execute this S = Inr S' \<and>
           (\<forall>p < UF S. \<exists>a T J.
              PerPartOutput S' (VPW_Def this, p) = Some (InstructionVal a T) \<and>
              a < length (Insts (Fn S')) \<and> J = Insts (Fn S') ! a \<and>
              Operation J = (if SI_Opcode I = FNeg then FNegOp else BinOp bop) \<and>
              getOperandValues S (VPW_operands this) p = Inr (Operands J) \<and>
              (VPW_this this \<in> MayGeneratePoisonRecipes S \<longrightarrow>
                 Flags J = Flags (dropPoisonGeneratingFlags
                                    (copyIRFlags (newInstruction (Operation J) [] VoidTy []) I)) \<and>
                 \<not> HasNoUnsignedWrap (Flags J) \<and> \<not> HasNoSignedWrap (Flags J) \<and>
                 \<not> IsExact (Flags J) \<and>
                 \<not> NoNaNs (FastFlags (Flags J)) \<and> \<not> NoInfs (FastFlags (Flags J))) \<and>
              (VPW_this this \<notin> MayGeneratePoisonRecipes S \<longrightarrow>
                 Flags J = Flags (copyIRFlags (newInstruction (Operation J) [] VoidTy []) I) \<and>
                 HasNoUnsignedWrap (Flags J) =
                   (Opcode_isOverflowing (SI_Opcode I) \<and> HasNoUnsignedWrap (SI_Flags I)) \<and>
                 HasNoSignedWrap (Flags J) =
                   (Opcode_isOverflowing (SI_Opcode I) \<and> HasNoSignedWrap (SI_Flags I)) \<and>
                 IsExact (Flags J) =
                   (Opcode_isPossiblyExact (SI_Opcode I) \<and> IsExact (SI_Flags I)) \<and>
                 FastFlags (Flags J) =
                   (if Opcode_isFPMath (SI_Opcode I) then FastFlags (SI_Flags I)
                    else noFastMathFlags)))"
  using assms by (rule VPWidenRecipe_execute_flags)

lemma exampleWidenRecipe_hyps:
  "VPW_UnderlyingInstr exampleWidenRecipe = Some exampleScalarAdd"
  "SI_Opcode exampleScalarAdd = BinaryOp Add \<or> SI_Opcode exampleScalarAdd = FNeg"
  "length (VPW_operands exampleWidenRecipe) = (if SI_Opcode exampleScalarAdd = FNeg then 1 else 2)"
  by (simp_all add: exampleWidenRecipe_def exampleScalarAdd_def)

lemma exampleState_operands:
  "\<forall>Op \<in> set (VPW_operands exampleWidenRecipe). \<forall>p < UF exampleState.
     PerPartOutput exampleState (Op, p) \<noteq> None"
  by (simp add: exampleWidenRecipe_def exampleState_def less_Suc_eq numeral_2_eq_2)

lemma examplePoisonState_operands:
  "\<forall>Op \<in> set (VPW_operands exampleWidenRecipe). \<forall>p < UF examplePoisonState.
     PerPartOutput examplePoisonState (Op, p) \<noteq> None"
  using exampleState_operands by (simp add: examplePoisonState_def)

theorem C6_poison_generating_flags_witness:
  "(\<exists>S' a T. VPWidenRecipe_execute exampleWidenRecipe examplePoisonState = Inr S' \<and>
      PerPartOutput S' (2, 1) = Some (InstructionVal a T) \<and>
      Operation (Insts (Fn S') ! a) = BinOp Add \<and>
      HasNoUnsignedWrap (Flags (Insts (Fn S') ! a)) = False \<and>
      HasNoSignedWrap (Flags (Insts (Fn S') ! a)) = False) \<and>
   (\<exists>S' a T. VPWidenRecipe_execute exampleWidenRecipe exampleState = Inr S' \<and>
      PerPartOutput S' (2, 1) = Some (InstructionVal a T) \<and>
      Operation (Insts (Fn S') ! a) = BinOp Add \<and>
      HasNoUnsignedWrap (Flags (Insts (Fn S') ! a)) = True \<and>
      HasNoSignedWrap (Flags (Insts (Fn S') ! a)) = True)"
proof
  have in_set: "VPW_this exampleWidenRecipe \<in> MayGeneratePoisonRecipes examplePoisonState"
    by (simp add: exampleWidenRecipe_def examplePoisonState_def)
  have one: "1 < UF examplePoisonState"
    by (simp add: examplePoisonState_def exampleState_def)
  from C6_poison_generating_flags [OF exampleWidenRecipe_hyps examplePoisonState_operands]
  obtain S' where
    run: "VPWidenRecipe_execute exampleWidenRecipe examplePoisonState = Inr S'" and
    new: "\<forall>p < UF examplePoisonState. \<exists>a T J.
              PerPartOutput S' (VPW_Def exampleWidenRecipe, p) = Some (InstructionVal a T) \<and>
              a < length (Insts (Fn S')) \<and> J = Insts (Fn S') ! a \<and>
              Operation J = (if SI_Opcode exampleScalarAdd = FNeg then FNegOp else BinOp Add) \<and>
              getOperandValues examplePoisonState (VPW_operands exampleWidenRecipe) p = Inr (Operands J) \<and>
              (VPW_this exampleWidenRecipe \<in> MayGeneratePoisonRecipes examplePoisonState \<longrightarrow>
                 Flags J = Flags (dropPoisonGeneratingFlags
                                    (copyIRFlags (newInstruction (Operation J) [] VoidTy []) exampleScalarAdd)) \<and>
                 \<not> HasNoUnsignedWrap (Flags J) \<and> \<not> HasNoSignedWrap (Flags J) \<and>
                 \<not> IsExact (Flags J) \<and>
                 \<not> NoNaNs (FastFlags (Flags J)) \<and> \<not> NoInfs (FastFlags (Flags J))) \<and>
              (VPW_this exampleWidenRecipe \<notin> MayGeneratePoisonRecipes examplePoisonState \<longrightarrow>
                 Flags J = Flags (copyIRFlags (newInstruction (Operation J) [] VoidTy []) exampleScalarAdd) \<and>
                 HasNoUnsignedWrap (Flags J) =
                   (Opcode_isOverflowing (SI_Opcode exampleScalarAdd) \<and> HasNoUnsignedWrap (SI_Flags exampleScalarAdd)) \<and>
                 HasNoSignedWrap (Flags J) =
                   (Opcode_isOverflowing (SI_Opcode exampleScalarAdd) \<and> HasNoSignedWrap (SI_Flags exampleScalarAdd)) \<and>
                 IsExact (Flags J) =
                   (Opcode_isPossiblyExact (SI_Opcode exampleScalarAdd) \<and> IsExact (SI_Flags exampleScalarAdd)) \<and>
                 FastFlags (Flags J) =
                   (if Opcode_isFPMath (SI_Opcode exampleScalarAdd) then FastFlags (SI_Flags exampleScalarAdd)
                    else noFastMathFlags))"
    by blast
  from new [rule_format, OF one] in_set obtain a T where
    "PerPartOutput S' (VPW_Def exampleWidenRecipe, 1) = Some (InstructionVal a T)"
    "Operation (Insts (Fn S') ! a) = (if SI_Opcode exampleScalarAdd = FNeg then FNegOp else BinOp Add)"
    "\<not> HasNoUnsignedWrap (Flags (Insts (Fn S') ! a))"
    "\<not> HasNoSignedWrap (Flags (Insts (Fn S') ! a))"
    by blast
  then have
    "PerPartOutput S' (2, 1) = Some (InstructionVal a T)"
    "Operation (Insts (Fn S') ! a) = BinOp Add"
    "HasNoUnsignedWrap (Flags (Insts (Fn S') ! a)) = False"
    "HasNoSignedWrap (Flags (Insts (Fn S') ! a)) = False"
    by (simp_all add: exampleWidenRecipe_def exampleScalarAdd_def)
  with run show "\<exists>S' a T. VPWidenRecipe_execute exampleWidenRecipe examplePoisonState = Inr S' \<and>
      PerPartOutput S' (2, 1) = Some (InstructionVal a T) \<and>
      Operation (Insts (Fn S') ! a) = BinOp Add \<and>
      HasNoUnsignedWrap (Flags (Insts (Fn S') ! a)) = False \<and>
      HasNoSignedWrap (Flags (Insts (Fn S') ! a)) = False"
    by blast
next
  have not_in_set: "VPW_this exampleWidenRecipe \<notin> MayGeneratePoisonRecipes exampleState"
    by (simp add: exampleWidenRecipe_def exampleState_def)
  have one: "1 < UF exampleState"
    by (simp add: exampleState_def)
  from C6_poison_generating_flags [OF exampleWidenRecipe_hyps exampleState_operands]
  obtain S' where
    run: "VPWidenRecipe_execute exampleWidenRecipe exampleState = Inr S'" and
    new: "\<forall>p < UF exampleState. \<exists>a T J.
              PerPartOutput S' (VPW_Def exampleWidenRecipe, p) = Some (InstructionVal a T) \<and>
              a < length (Insts (Fn S')) \<and> J = Insts (Fn S') ! a \<and>
              Operation J = (if SI_Opcode exampleScalarAdd = FNeg then FNegOp else BinOp Add) \<and>
              getOperandValues exampleState (VPW_operands exampleWidenRecipe) p = Inr (Operands J) \<and>
              (VPW_this exampleWidenRecipe \<in> MayGeneratePoisonRecipes exampleState \<longrightarrow>
                 Flags J = Flags (dropPoisonGeneratingFlags
                                    (copyIRFlags (newInstruction (Operation J) [] VoidTy []) exampleScalarAdd)) \<and>
                 \<not> HasNoUnsignedWrap (Flags J) \<and> \<not> HasNoSignedWrap (Flags J) \<and>
                 \<not> IsExact (Flags J) \<and>
                 \<not> NoNaNs (FastFlags (Flags J)) \<and> \<not> NoInfs (FastFlags (Flags J))) \<and>
              (VPW_this exampleWidenRecipe \<notin> MayGeneratePoisonRecipes exampleState \<longrightarrow>
                 Flags J = Flags (copyIRFlags (newInstruction (Operation J) [] VoidTy []) exampleScalarAdd) \<and>
                 HasNoUnsignedWrap (Flags J) =
                   (Opcode_isOverflowing (SI_Opcode exampleScalarAdd) \<and> HasNoUnsignedWrap (SI_Flags exampleScalarAdd)) \<and>
                 HasNoSignedWrap (Flags J) =
                   (Opcode_isOverflowing (SI_Opcode exampleScalarAdd) \<and> HasNoSignedWrap (SI_Flags exampleScalarAdd)) \<and>
                 IsExact (Flags J) =
                   (Opcode_isPossiblyExact (SI_Opcode exampleScalarAdd) \<and> IsExact (SI_Flags exampleScalarAdd)) \<and>
                 FastFlags (Flags J) =
                   (if Opcode_isFPMath (SI_Opcode exampleScalarAdd) then FastFlags (SI_Flags exampleScalarAdd)
                    else noFastMathFlags))"
    by blast
  from new [rule_format, OF one] not_in_set obtain a T where
    "PerPartOutput S' (VPW_Def exampleWidenRecipe, 1) = Some (InstructionVal a T)"
    "Operation (Insts (Fn S') ! a) = (if SI_Opcode exampleScalarAdd = FNeg then FNegOp else BinOp Add)"
    "HasNoUnsignedWrap (Flags (Insts (Fn S') ! a)) =
       (Opcode_isOverflowing (SI_Opcode exampleScalarAdd) \<and> HasNoUnsignedWrap (SI_Flags exampleScalarAdd))"
    "HasNoSignedWrap (Flags (Insts (Fn S') ! a)) =
       (Opcode_isOverflowing (SI_Opcode exampleScalarAdd) \<and> HasNoSignedWrap (SI_Flags exampleScalarAdd))"
    by blast
  then have
    "PerPartOutput S' (2, 1) = Some (InstructionVal a T)"
    "Operation (Insts (Fn S') ! a) = BinOp Add"
    "HasNoUnsignedWrap (Flags (Insts (Fn S') ! a)) = True"
    "HasNoSignedWrap (Flags (Insts (Fn S') ! a)) = True"
    by (simp_all add: exampleWidenRecipe_def exampleScalarAdd_def noIRFlags_def)
  with run show "\<exists>S' a T. VPWidenRecipe_execute exampleWidenRecipe exampleState = Inr S' \<and>
      PerPartOutput S' (2, 1) = Some (InstructionVal a T) \<and>
      Operation (Insts (Fn S') ! a) = BinOp Add \<and>
      HasNoUnsignedWrap (Flags (Insts (Fn S') ! a)) = True \<and>
      HasNoSignedWrap (Flags (Insts (Fn S') ! a)) = True"
    by blast
qed

subsection \<open>The seeds of the reduction phis\<close>

lemma ilist_insert_before:
  "x \<notin> set pre \<Longrightarrow> ilist_insert (Some x) n (pre @ x # rest) = pre @ n # x # rest"
  by (induction pre) auto

lemma getFirstInsertionPt_InsertAt:
  assumes fi: "getFirstInsertionPt F BB = Some IP" and lt: "IP < length (Insts F)"
    and op: "Operation I = PHIOp"
  shows "getFirstInsertionPt (snd (InsertAt BB (Some IP) I F)) BB = Some IP"
proof -
  let ?xs = "BlockInsts F BB"
  let ?n = "length (Insts F)"
  let ?F' = "snd (InsertAt BB (Some IP) I F)"
  from fi obtain rest where dw: "dropWhile (isPHI F) ?xs = IP # rest"
    by (auto simp: getFirstInsertionPt_def split: list.splits)
  define pre where "pre = takeWhile (isPHI F) ?xs"
  have xs: "?xs = pre @ IP # rest"
    using takeWhile_dropWhile_id [of "isPHI F" ?xs] dw by (simp add: pre_def)
  have pre: "\<forall>a \<in> set pre. isPHI F a"
    by (auto simp: pre_def dest: set_takeWhileD)
  have nphi: "\<not> isPHI F IP"
    using dw hd_dropWhile [of "isPHI F" ?xs] by auto
  with pre have notin: "IP \<notin> set pre"
    by auto
  have ins: "Insts ?F' = Insts F @ [I]"
    by (simp add: InsertAt_def)
  have bl: "BlockInsts ?F' BB = pre @ ?n # IP # rest"
    using ilist_insert_before [OF notin, of ?n rest] by (simp add: InsertAt_def xs)
  have pre': "\<forall>a \<in> set pre. isPHI ?F' a"
    using pre by (auto simp: isPHI_def ins nth_append)
  have n': "isPHI ?F' ?n"
    using op by (simp add: isPHI_def ins)
  have ip': "\<not> isPHI ?F' IP"
    using nphi lt by (simp add: isPHI_def ins nth_append)
  have "dropWhile (isPHI ?F') (pre @ ?n # IP # rest) = IP # rest"
    using pre' n' ip' by (simp add: dropWhile_append3)
  then show ?thesis
    by (simp add: getFirstInsertionPt_def bl)
qed

lemma createEntryPart_result:
  assumes fi: "getFirstInsertionPt (Fn S) HeaderBB = Some IP" and lt: "IP < length (Insts (Fn S))"
  shows "\<exists>S'. createEntryPart this VecTy HeaderBB S Part = Inr S' \<and> sameSetting S S' \<and>
           Builder S' = Builder S \<and>
           Insts (Fn S') = Insts (Fn S) @ [newInstruction PHIOp [] VecTy ''vec.phi''] \<and>
           PerPartOutput S' = (PerPartOutput S)
             ((RP_Def this, Part) \<mapsto> InstructionVal (length (Insts (Fn S))) VecTy) \<and>
           (\<forall>BB. BB \<noteq> HeaderBB \<longrightarrow> BlockInsts (Fn S') BB = BlockInsts (Fn S) BB) \<and>
           getFirstInsertionPt (Fn S') HeaderBB = Some IP"
proof -
  let ?I = "newInstruction PHIOp [] VecTy ''vec.phi''"
  define F' where "F' = snd (InsertAt HeaderBB (Some IP) ?I (Fn S))"
  define S' where "S' = State_set (RP_Def this) (InstructionVal (length (Insts (Fn S))) VecTy) Part
                          (S\<lparr>Fn := F'\<rparr>)"
  have ia: "InsertAt HeaderBB (Some IP) ?I (Fn S) = (InstructionVal (length (Insts (Fn S))) VecTy, F')"
    by (simp add: F'_def InsertAt_def newInstruction_def)
  have run: "createEntryPart this VecTy HeaderBB S Part = Inr S'"
    by (simp add: createEntryPart_def fi ia S'_def)
  have "Operation ?I = PHIOp"
    by (simp add: newInstruction_def)
  from getFirstInsertionPt_InsertAt [OF fi lt this]
  have fi': "getFirstInsertionPt (Fn S') HeaderBB = Some IP"
    by (simp add: S'_def F'_def State_set_def)
  have "sameSetting S S'" "Builder S' = Builder S"
    "Insts (Fn S') = Insts (Fn S) @ [?I]"
    "PerPartOutput S' = (PerPartOutput S)
             ((RP_Def this, Part) \<mapsto> InstructionVal (length (Insts (Fn S))) VecTy)"
    "\<forall>BB. BB \<noteq> HeaderBB \<longrightarrow> BlockInsts (Fn S') BB = BlockInsts (Fn S) BB"
    by (simp_all add: S'_def F'_def State_set_def InsertAt_def sameSetting_def)
  with run fi' show ?thesis
    by blast
qed

lemma createEntryPart_loop_result:
  assumes fi: "getFirstInsertionPt (Fn S) HeaderBB = Some IP" and lt: "IP < length (Insts (Fn S))"
  shows "\<exists>S'. createEntryPart_loop this VecTy HeaderBB L S k = Inr S' \<and> sameSetting S S' \<and>
           Builder S' = Builder S \<and>
           Insts (Fn S') = Insts (Fn S) @ replicate (L - k) (newInstruction PHIOp [] VecTy ''vec.phi'') \<and>
           (\<forall>D p. PerPartOutput S' (D, p) =
                    (if D = RP_Def this \<and> k \<le> p \<and> p < L
                     then Some (InstructionVal (length (Insts (Fn S)) + (p - k)) VecTy)
                     else PerPartOutput S (D, p))) \<and>
           (\<forall>BB. BB \<noteq> HeaderBB \<longrightarrow> BlockInsts (Fn S') BB = BlockInsts (Fn S) BB)"
  using fi lt
proof (induction "L - k" arbitrary: k S)
  case 0
  then have "\<not> k < L"
    by simp
  then have "createEntryPart_loop this VecTy HeaderBB L S k = Inr S"
    by (simp add: createEntryPart_loop.simps [of this VecTy HeaderBB L S k])
  moreover have "L - k = 0"
    using \<open>\<not> k < L\<close> by simp
  ultimately show ?case
    using \<open>\<not> k < L\<close> by auto
next
  case (Suc m)
  then have lt: "k < L" and m: "m = L - (k + 1)"
    by simp_all
  let ?I = "newInstruction PHIOp [] VecTy ''vec.phi''"
  from createEntryPart_result [OF Suc.prems, of this VecTy k] obtain S1 where
    p1: "createEntryPart this VecTy HeaderBB S k = Inr S1" and
    s1: "sameSetting S S1" and b1: "Builder S1 = Builder S" and
    e1: "Insts (Fn S1) = Insts (Fn S) @ [?I]" and
    o1: "PerPartOutput S1 = (PerPartOutput S)
             ((RP_Def this, k) \<mapsto> InstructionVal (length (Insts (Fn S))) VecTy)" and
    k1: "\<And>BB. BB \<noteq> HeaderBB \<Longrightarrow> BlockInsts (Fn S1) BB = BlockInsts (Fn S) BB" and
    f1: "getFirstInsertionPt (Fn S1) HeaderBB = Some IP"
    by blast
  have lt1: "IP < length (Insts (Fn S1))"
    using Suc.prems(2) by (simp add: e1)
  from Suc.hyps(1) [OF m f1 lt1] obtain S' where
    l: "createEntryPart_loop this VecTy HeaderBB L S1 (k + 1) = Inr S'" and
    s2: "sameSetting S1 S'" and b2: "Builder S' = Builder S1" and
    e2: "Insts (Fn S') = Insts (Fn S1) @ replicate (L - (k + 1)) ?I" and
    o2: "\<And>D p. PerPartOutput S' (D, p) =
                    (if D = RP_Def this \<and> k + 1 \<le> p \<and> p < L
                     then Some (InstructionVal (length (Insts (Fn S1)) + (p - (k + 1))) VecTy)
                     else PerPartOutput S1 (D, p))" and
    k2: "\<And>BB. BB \<noteq> HeaderBB \<Longrightarrow> BlockInsts (Fn S') BB = BlockInsts (Fn S1) BB"
    by blast
  have run: "createEntryPart_loop this VecTy HeaderBB L S k = Inr S'"
    using lt p1 l by (simp add: createEntryPart_loop.simps [of this VecTy HeaderBB L S k])
  have same: "sameSetting S S'"
    using s1 s2 by (rule sameSetting_trans)
  have "replicate (L - k) ?I = ?I # replicate (L - (k + 1)) ?I"
    using lt by (simp add: replicate_Suc [symmetric] Suc_diff_Suc del: replicate_Suc)
  then have ins: "Insts (Fn S') = Insts (Fn S) @ replicate (L - k) ?I"
    by (simp add: e2 e1)
  have out: "PerPartOutput S' (D, p) =
                    (if D = RP_Def this \<and> k \<le> p \<and> p < L
                     then Some (InstructionVal (length (Insts (Fn S)) + (p - k)) VecTy)
                     else PerPartOutput S (D, p))" for D p
  proof (cases "D = RP_Def this \<and> k + 1 \<le> p \<and> p < L")
    case True
    then have "length (Insts (Fn S1)) + (p - (k + 1)) = length (Insts (Fn S)) + (p - k)"
      unfolding e1 by simp arith
    with True show ?thesis
      by (simp add: o2)
  next
    case False
    then show ?thesis
      using lt by (auto simp: o2 o1)
  qed
  have blocks: "\<forall>BB. BB \<noteq> HeaderBB \<longrightarrow> BlockInsts (Fn S') BB = BlockInsts (Fn S) BB"
    by (simp add: k1 k2)
  from run same b1 b2 ins out blocks show ?case
    by auto
qed


text \<open>
  The value of an instruction depends on its operation, its operands and its type only:
  giving a phi its incoming values changes no value.
\<close>

lemma evalInstruction_fields:
  "evalInstruction E vals a I =
   evalInstruction E vals a (newInstruction (Operation I) (Operands I) (ResultTy I) [])"
  by (simp add: evalInstruction_def newInstruction_def Let_def
      split: Operation.splits BinaryOps.splits)

lemma evalInsts_cong:
  assumes "length Js = length Is"
    and "\<forall>i < length Is. Operation (Js ! i) = Operation (Is ! i) \<and>
           Operands (Js ! i) = Operands (Is ! i) \<and> ResultTy (Js ! i) = ResultTy (Is ! i)"
  shows "evalInsts E Js = evalInsts E Is"
  using assms
proof (induction Is arbitrary: Js rule: rev_induct)
  case Nil
  then show ?case by simp
next
  case (snoc I Is)
  from snoc.prems(1) obtain Js' J where Js: "Js = Js' @ [J]" and len: "length Js' = length Is"
    by (cases Js rule: rev_cases) auto
  have "\<forall>i < length Is. Operation (Js' ! i) = Operation (Is ! i) \<and>
           Operands (Js' ! i) = Operands (Is ! i) \<and> ResultTy (Js' ! i) = ResultTy (Is ! i)"
  proof (intro allI impI)
    fix i assume i: "i < length Is"
    with snoc.prems(2) [rule_format, of i] show "Operation (Js' ! i) = Operation (Is ! i) \<and>
           Operands (Js' ! i) = Operands (Is ! i) \<and> ResultTy (Js' ! i) = ResultTy (Is ! i)"
      by (simp add: Js len nth_append)
  qed
  from snoc.IH [OF len this] have eq: "evalInsts E Js' = evalInsts E Is" .
  from snoc.prems(2) [rule_format, of "length Is"]
  have "Operation J = Operation I \<and> Operands J = Operands I \<and> ResultTy J = ResultTy I"
    by (simp add: Js len nth_append)
  then have "evalInstruction E vals a J = evalInstruction E vals a I" for vals a
    using evalInstruction_fields [of E vals a J] evalInstruction_fields [of E vals a I] by simp
  then show ?case
    by (simp add: Js evalInsts_snoc' eq len)
qed

lemma valueOf_cong:
  assumes "length (Insts F') = length (Insts F)"
    and "\<forall>i < length (Insts F). Operation (Insts F' ! i) = Operation (Insts F ! i) \<and>
           Operands (Insts F' ! i) = Operands (Insts F ! i) \<and>
           ResultTy (Insts F' ! i) = ResultTy (Insts F ! i)"
  shows "valueOf E F' V = valueOf E F V"
  using evalInsts_cong [OF assms] by (simp add: valueOf_def)

lemma addIncomingPart_loop_result:
  assumes phis: "\<forall>p. k \<le> p \<and> p < L \<longrightarrow>
             PerPartOutput S (RP_Def this, p) = Some (InstructionVal (n + p) T) \<and>
             n + p < length (Insts (Fn S)) \<and> Operation (Insts (Fn S) ! (n + p)) = PHIOp"
  shows "\<exists>S'. addIncomingPart_loop this (Some SV) (Some ID) PH L S k = Inr S' \<and>
           PerPartOutput S' = PerPartOutput S \<and>
           length (Insts (Fn S')) = length (Insts (Fn S)) \<and>
           (\<forall>i < length (Insts (Fn S)).
              Operation (Insts (Fn S') ! i) = Operation (Insts (Fn S) ! i) \<and>
              Operands (Insts (Fn S') ! i) = Operands (Insts (Fn S) ! i) \<and>
              ResultTy (Insts (Fn S') ! i) = ResultTy (Insts (Fn S) ! i)) \<and>
           (\<forall>i. i < n + k \<longrightarrow> Insts (Fn S') ! i = Insts (Fn S) ! i) \<and>
           (\<forall>p. k \<le> p \<and> p < L \<longrightarrow>
              Incoming (Insts (Fn S') ! (n + p)) =
                Incoming (Insts (Fn S) ! (n + p)) @ [(if p = 0 then SV else ID, PH)])"
  using phis
proof (induction "L - k" arbitrary: k S)
  case 0
  then have "\<not> k < L"
    by simp
  then have "addIncomingPart_loop this (Some SV) (Some ID) PH L S k = Inr S"
    by (simp add: addIncomingPart_loop.simps [of this "Some SV" "Some ID" PH L S k])
  moreover have "\<not> (k \<le> p \<and> p < L)" for p
    using \<open>\<not> k < L\<close> by arith
  ultimately show ?case
    by auto
next
  case (Suc m)
  then have lt: "k < L" and m: "m = L - (k + 1)"
    by simp_all
  let ?V = "if k = 0 then SV else ID"
  from Suc.prems lt have
    pk: "PerPartOutput S (RP_Def this, k) = Some (InstructionVal (n + k) T)" and
    nk: "n + k < length (Insts (Fn S))" and
    ok: "Operation (Insts (Fn S) ! (n + k)) = PHIOp"
    by auto
  define S1 where "S1 = S\<lparr>Fn := updateInst (n + k) (addIncoming ?V PH) (Fn S)\<rparr>"
  have p1: "addIncomingPart this (Some SV) (Some ID) PH S k = Inr S1"
    using pk nk ok
    by (simp add: addIncomingPart_def State_get_def andThen_def cast_PHINode_def isPHI_def
        nonNull_def S1_def Let_def)
  have i1: "Insts (Fn S1) = (Insts (Fn S))[n + k := addIncoming ?V PH (Insts (Fn S) ! (n + k))]"
    using nk by (simp add: S1_def updateInst_def)
  have o1: "PerPartOutput S1 = PerPartOutput S"
    by (simp add: S1_def)
  have len1: "length (Insts (Fn S1)) = length (Insts (Fn S))"
    by (simp add: i1)
  have same1: "Operation (Insts (Fn S1) ! i) = Operation (Insts (Fn S) ! i) \<and>
              Operands (Insts (Fn S1) ! i) = Operands (Insts (Fn S) ! i) \<and>
              ResultTy (Insts (Fn S1) ! i) = ResultTy (Insts (Fn S) ! i)"
    if "i < length (Insts (Fn S))" for i
    using that by (cases "i = n + k") (simp_all add: i1 addIncoming_def)
  have oth1: "Insts (Fn S1) ! i = Insts (Fn S) ! i" if "i \<noteq> n + k" for i
    using that by (simp add: i1)
  have inc1: "Incoming (Insts (Fn S1) ! (n + k)) = Incoming (Insts (Fn S) ! (n + k)) @ [(?V, PH)]"
    using nk by (simp add: i1 addIncoming_def)
  have ph1: "\<forall>p. k + 1 \<le> p \<and> p < L \<longrightarrow>
             PerPartOutput S1 (RP_Def this, p) = Some (InstructionVal (n + p) T) \<and>
             n + p < length (Insts (Fn S1)) \<and> Operation (Insts (Fn S1) ! (n + p)) = PHIOp"
  proof (intro allI impI)
    fix p assume p: "k + 1 \<le> p \<and> p < L"
    then have "k \<le> p \<and> p < L" "n + p \<noteq> n + k"
      by auto
    with Suc.prems [rule_format, of p] show
      "PerPartOutput S1 (RP_Def this, p) = Some (InstructionVal (n + p) T) \<and>
             n + p < length (Insts (Fn S1)) \<and> Operation (Insts (Fn S1) ! (n + p)) = PHIOp"
      by (simp add: o1 len1 oth1)
  qed
  from Suc.hyps(1) [OF m ph1] obtain S' where
    l: "addIncomingPart_loop this (Some SV) (Some ID) PH L S1 (k + 1) = Inr S'" and
    o2: "PerPartOutput S' = PerPartOutput S1" and
    len2: "length (Insts (Fn S')) = length (Insts (Fn S1))" and
    same2: "\<And>i. i < length (Insts (Fn S1)) \<Longrightarrow>
              Operation (Insts (Fn S') ! i) = Operation (Insts (Fn S1) ! i) \<and>
              Operands (Insts (Fn S') ! i) = Operands (Insts (Fn S1) ! i) \<and>
              ResultTy (Insts (Fn S') ! i) = ResultTy (Insts (Fn S1) ! i)" and
    fr2: "\<And>i. i < n + (k + 1) \<Longrightarrow> Insts (Fn S') ! i = Insts (Fn S1) ! i" and
    inc2: "\<And>p. k + 1 \<le> p \<and> p < L \<Longrightarrow>
              Incoming (Insts (Fn S') ! (n + p)) =
                Incoming (Insts (Fn S1) ! (n + p)) @ [(if p = 0 then SV else ID, PH)]"
    by blast
  have run: "addIncomingPart_loop this (Some SV) (Some ID) PH L S k = Inr S'"
    using lt p1 l by (simp add: addIncomingPart_loop.simps [of this "Some SV" "Some ID" PH L S k])
  have same: "Operation (Insts (Fn S') ! i) = Operation (Insts (Fn S) ! i) \<and>
              Operands (Insts (Fn S') ! i) = Operands (Insts (Fn S) ! i) \<and>
              ResultTy (Insts (Fn S') ! i) = ResultTy (Insts (Fn S) ! i)"
    if "i < length (Insts (Fn S))" for i
    using same1 [OF that] same2 [of i] that by (simp add: len1)
  have fr: "Insts (Fn S') ! i = Insts (Fn S) ! i" if "i < n + k" for i
    using fr2 [of i] oth1 [of i] that by simp
  have inc: "Incoming (Insts (Fn S') ! (n + p)) =
                Incoming (Insts (Fn S) ! (n + p)) @ [(if p = 0 then SV else ID, PH)]"
    if "k \<le> p \<and> p < L" for p
  proof (cases "p = k")
    case True
    have "Insts (Fn S') ! (n + k) = Insts (Fn S1) ! (n + k)"
      by (rule fr2) simp
    with inc1 True show ?thesis
      by simp
  next
    case False
    with that have "k + 1 \<le> p \<and> p < L" "n + p \<noteq> n + k"
      by auto
    with inc2 [of p] oth1 [of "n + p"] show ?thesis
      by simp
  qed
  from run o1 o2 len1 len2 same fr inc show ?case
    by auto
qed


lemma getTerminator_extend:
  assumes "getTerminator F BB = Some T" and "BlockInsts F' BB = BlockInsts F BB"
    and "Insts F' = Insts F @ Js"
  shows "getTerminator F' BB = Some T"
  using assms by (auto simp: getTerminator_def nth_append split: list.splits if_splits)

lemma valueOf_InsertElement:
  assumes "Insts F2 = Insts F1 @ [I]" and "Operation I = InsertElementOp"
    and "Operands I = [Vec, Elt, Idx]"
    and "valueOf E F1 Vec = Some (Lanes xs)" and "valueOf E F1 Elt = Some (Scalar e)"
    and "valueOf E F1 Idx = Some (Scalar 0)" and "xs \<noteq> []"
  shows "valueOf E F2 (InstructionVal (length (Insts F1)) T) = Some (Lanes (xs[0 := e]))"
  using assms(2-) unfolding valueOf_new [OF assms(1)]
  by (simp add: evalInstruction_def evalInsertElement_def valueOf_def)

lemma startAndIdentity_minmax_scalar:
  assumes "isMinMaxRecurrenceKind (getRecurrenceKind (RP_RdxDesc this)) \<or>
           isSelectCmpRecurrenceKind (getRecurrenceKind (RP_RdxDesc this))"
  shows "startAndIdentity this True VecTy PH StartV S = Inr (StartV, StartV, S)"
  using assms by (simp add: startAndIdentity_def)

lemma startAndIdentity_minmax_vector:
  assumes mm: "isMinMaxRecurrenceKind (getRecurrenceKind (RP_RdxDesc this)) \<or>
           isSelectCmpRecurrenceKind (getRecurrenceKind (RP_RdxDesc this))"
    and tm: "getTerminator (Fn S) PH = Some T"
  shows "\<exists>S' J. startAndIdentity this False VecTy PH (Some SV) S =
             Inr (Some (InstructionVal (length (Insts (Fn S))) (VectorTy (getType SV) (VF S))),
                  Some (InstructionVal (length (Insts (Fn S))) (VectorTy (getType SV) (VF S))), S') \<and>
           sameSetting S S' \<and> PerPartOutput S' = PerPartOutput S \<and>
           Insts (Fn S') = Insts (Fn S) @ [J] \<and>
           Operation J = VectorSplatOp \<and> Operands J = [SV] \<and>
           ResultTy J = VectorTy (getType SV) (VF S)"
proof -
  let ?B = "SetInsertPoint (Builder S) (Fn S) PH T"
  let ?J0 = "newInstruction VectorSplatOp [SV] (VectorTy (getType SV) (VF S)) ''minmax.ident''"
  define J where "J = ?J0\<lparr>DbgLoc := CurrentDebugLocation ?B\<rparr>"
  define F' where "F' = snd (CreateVectorSplat ?B (VF S) SV ''minmax.ident'' (Fn S))"
  have cs: "CreateVectorSplat ?B (VF S) SV ''minmax.ident'' (Fn S) =
      (InstructionVal (length (Insts (Fn S))) (VectorTy (getType SV) (VF S)), F')"
    by (simp add: F'_def CreateVectorSplat_def Insert_def newInstruction_def)
  have run: "startAndIdentity this False VecTy PH (Some SV) S =
             Inr (Some (InstructionVal (length (Insts (Fn S))) (VectorTy (getType SV) (VF S))),
                  Some (InstructionVal (length (Insts (Fn S))) (VectorTy (getType SV) (VF S))),
                  S\<lparr>Fn := F'\<rparr>)"
    using mm by (simp add: startAndIdentity_def tm nonNull_def andThen_def cs)
  have "Insts F' = Insts (Fn S) @ [J]"
    by (simp add: F'_def J_def CreateVectorSplat_def Insert_def)
  moreover have "Operation J = VectorSplatOp" "Operands J = [SV]"
    "ResultTy J = VectorTy (getType SV) (VF S)"
    by (simp_all add: J_def newInstruction_def)
  ultimately show ?thesis
    using run by (intro exI [of _ "S\<lparr>Fn := F'\<rparr>"] exI [of _ J]) simp
qed

lemma startAndIdentity_other_scalar:
  assumes "\<not> (isMinMaxRecurrenceKind (getRecurrenceKind (RP_RdxDesc this)) \<or>
              isSelectCmpRecurrenceKind (getRecurrenceKind (RP_RdxDesc this)))"
    and "getRecurrenceIdentity (getRecurrenceKind (RP_RdxDesc this)) (getScalarType VecTy)
           (getFastMathFlags (RP_RdxDesc this)) = Inr Iden0"
  shows "startAndIdentity this True VecTy PH StartV S = Inr (StartV, Some Iden0, S)"
  using assms by (simp add: startAndIdentity_def andThen_def)

lemma startAndIdentity_other_vector:
  assumes nmm: "\<not> (isMinMaxRecurrenceKind (getRecurrenceKind (RP_RdxDesc this)) \<or>
              isSelectCmpRecurrenceKind (getRecurrenceKind (RP_RdxDesc this)))"
    and iden: "getRecurrenceIdentity (getRecurrenceKind (RP_RdxDesc this)) (getScalarType VecTy)
           (getFastMathFlags (RP_RdxDesc this)) = Inr Iden0"
    and tm: "getTerminator (Fn S) PH = Some T"
    and ib: "InsertBlock (Builder S) \<noteq> PH"
  shows "\<exists>S' J1 J2. startAndIdentity this False VecTy PH (Some SV) S =
             Inr (Some (InstructionVal (length (Insts (Fn S)) + 1) (VectorTy (getType Iden0) (VF S))),
                  Some (InstructionVal (length (Insts (Fn S))) (VectorTy (getType Iden0) (VF S))), S') \<and>
           sameSetting S S' \<and> PerPartOutput S' = PerPartOutput S \<and>
           Insts (Fn S') = Insts (Fn S) @ [J1, J2] \<and>
           Operation J1 = VectorSplatOp \<and> Operands J1 = [Iden0] \<and>
           ResultTy J1 = VectorTy (getType Iden0) (VF S) \<and>
           Operation J2 = InsertElementOp \<and>
           Operands J2 = [InstructionVal (length (Insts (Fn S))) (VectorTy (getType Iden0) (VF S)),
                          SV, ConstantIntVal (ConstantInt_get 32 0)] \<and>
           ResultTy J2 = VectorTy (getType Iden0) (VF S)"
proof -
  let ?n = "length (Insts (Fn S))"
  let ?VT = "VectorTy (getType Iden0) (VF S)"
  let ?Iden = "InstructionVal ?n ?VT"
  define J1 where "J1 = (newInstruction VectorSplatOp [Iden0] ?VT [])
                           \<lparr>DbgLoc := CurrentDebugLocation (Builder S)\<rparr>"
  define F1 where "F1 = snd (CreateVectorSplat (Builder S) (VF S) Iden0 [] (Fn S))"
  have cs: "CreateVectorSplat (Builder S) (VF S) Iden0 [] (Fn S) = (?Iden, F1)"
    by (simp add: F1_def CreateVectorSplat_def Insert_def newInstruction_def)
  have i1: "Insts F1 = Insts (Fn S) @ [J1]"
    by (simp add: F1_def J1_def CreateVectorSplat_def Insert_def)
  have "BlockInsts F1 PH = BlockInsts (Fn S) PH"
    using ib by (simp add: F1_def CreateVectorSplat_def Insert_def)
  from getTerminator_extend [OF tm this i1] have tm1: "getTerminator F1 PH = Some T" .
  let ?B = "SetInsertPoint (Builder S) F1 PH T"
  define J2 where "J2 = (newInstruction InsertElementOp
                           [?Iden, SV, ConstantIntVal (ConstantInt_get 32 0)] ?VT [])
                           \<lparr>DbgLoc := CurrentDebugLocation ?B\<rparr>"
  define F2 where "F2 = snd (CreateInsertElement ?B ?Iden SV (ConstantIntVal (ConstantInt_get 32 0)) [] F1)"
  have ci: "CreateInsertElement ?B ?Iden SV (ConstantIntVal (ConstantInt_get 32 0)) [] F1 =
            (InstructionVal (?n + 1) ?VT, F2)"
    by (simp add: F2_def CreateInsertElement_def Insert_def newInstruction_def i1)
  have i2: "Insts F2 = Insts (Fn S) @ [J1, J2]"
    by (simp add: F2_def J2_def CreateInsertElement_def Insert_def i1)
  have run: "startAndIdentity this False VecTy PH (Some SV) S =
             Inr (Some (InstructionVal (?n + 1) ?VT), Some ?Iden, S\<lparr>Fn := F2\<rparr>)"
    using nmm by (simp add: startAndIdentity_def iden nonNull_def andThen_def cs tm1 ci)
  have "Operation J1 = VectorSplatOp" "Operands J1 = [Iden0]" "ResultTy J1 = ?VT"
    "Operation J2 = InsertElementOp"
    "Operands J2 = [?Iden, SV, ConstantIntVal (ConstantInt_get 32 0)]" "ResultTy J2 = ?VT"
    by (simp_all add: J1_def J2_def newInstruction_def)
  with run i2 show ?thesis
    by (intro exI [of _ "S\<lparr>Fn := F2\<rparr>"] exI [of _ J1] exI [of _ J2]) simp
qed


lemma VPReductionPHIRecipe_execute_phis:
  assumes SP: "ScalarPHI = (isScalar (VF S) \<or> RP_IsInLoop this)"
    and L: "L = (if isOrdered this then 1 else UF S)"
    and uv: "RP_UnderlyingValue this = Some PN" and phi: "SI_Opcode PN = PHI"
    and VecTy: "VecTy = (if ScalarPHI then SI_Type PN else VectorTy (SI_Type PN) (VF S))"
    and hdr: "CurrentVectorLoopHeader S = PrevBB S"
    and sv: "getLiveInIRValue (RP_StartValue this) = Inr (Some SV)"
    and l1: "createEntryPart_loop this VecTy (PrevBB S) L S 0 = Inr S1"
    and pre: "PreheaderBB S1 = PreheaderBB S"
    and o1: "\<forall>D p. PerPartOutput S1 (D, p) =
                    (if D = RP_Def this \<and> 0 \<le> p \<and> p < L
                     then Some (InstructionVal (length (Insts (Fn S)) + (p - 0)) VecTy)
                     else PerPartOutput S (D, p))"
    and i1: "Insts (Fn S1) =
               Insts (Fn S) @ replicate (L - 0) (newInstruction PHIOp [] VecTy ''vec.phi'')"
    and sai: "startAndIdentity this ScalarPHI VecTy (PreheaderBB S) (Some SV) S1 =
                Inr (Some SV', Some ID, S2)"
    and o2: "PerPartOutput S2 = PerPartOutput S1"
    and i2: "Insts (Fn S2) = Insts (Fn S1) @ Js"
  shows "\<exists>S'. VPReductionPHIRecipe_execute this S = Inr S' \<and>
           (\<forall>p < L. PerPartOutput S' (RP_Def this, p) =
                       Some (InstructionVal (length (Insts (Fn S)) + p) VecTy) \<and>
                     length (Insts (Fn S)) + p < length (Insts (Fn S')) \<and>
                     Operation (Insts (Fn S') ! (length (Insts (Fn S)) + p)) = PHIOp \<and>
                     Incoming (Insts (Fn S') ! (length (Insts (Fn S)) + p)) =
                       [(if p = 0 then SV' else ID, PreheaderBB S)]) \<and>
           length (Insts (Fn S')) = length (Insts (Fn S2)) \<and>
           (\<forall>i < length (Insts (Fn S2)).
              Operation (Insts (Fn S') ! i) = Operation (Insts (Fn S2) ! i) \<and>
              Operands (Insts (Fn S') ! i) = Operands (Insts (Fn S2) ! i)) \<and>
           (\<forall>E V. valueOf E (Fn S') V = valueOf E (Fn S2) V)"
proof -
  let ?n = "length (Insts (Fn S))"
  let ?phi = "newInstruction PHIOp [] VecTy ''vec.phi''"
  have nth2: "Insts (Fn S2) ! (?n + p) = ?phi" if "p < L" for p
    using that by (simp add: i2 i1 nth_append)
  have len2: "?n + p < length (Insts (Fn S2))" if "p < L" for p
    using that by (simp add: i2 i1)
  have phis: "\<forall>p. 0 \<le> p \<and> p < L \<longrightarrow>
             PerPartOutput S2 (RP_Def this, p) = Some (InstructionVal (?n + p) VecTy) \<and>
             ?n + p < length (Insts (Fn S2)) \<and> Operation (Insts (Fn S2) ! (?n + p)) = PHIOp"
  proof (intro allI impI)
    fix p assume "0 \<le> p \<and> p < L"
    then have p: "p < L"
      by simp
    from o1 [rule_format, of "RP_Def this" p] p
    have "PerPartOutput S2 (RP_Def this, p) = Some (InstructionVal (?n + p) VecTy)"
      by (simp add: o2)
    moreover have "Operation (Insts (Fn S2) ! (?n + p)) = PHIOp"
      unfolding nth2 [OF p] by (simp add: newInstruction_def)
    ultimately show "PerPartOutput S2 (RP_Def this, p) = Some (InstructionVal (?n + p) VecTy) \<and>
             ?n + p < length (Insts (Fn S2)) \<and> Operation (Insts (Fn S2) ! (?n + p)) = PHIOp"
      using len2 [OF p] by simp
  qed
  from addIncomingPart_loop_result [OF phis, of SV' ID "PreheaderBB S"]
  obtain S' where big:
    "addIncomingPart_loop this (Some SV') (Some ID) (PreheaderBB S) L S2 0 = Inr S' \<and>
           PerPartOutput S' = PerPartOutput S2 \<and>
           length (Insts (Fn S')) = length (Insts (Fn S2)) \<and>
           (\<forall>i < length (Insts (Fn S2)).
              Operation (Insts (Fn S') ! i) = Operation (Insts (Fn S2) ! i) \<and>
              Operands (Insts (Fn S') ! i) = Operands (Insts (Fn S2) ! i) \<and>
              ResultTy (Insts (Fn S') ! i) = ResultTy (Insts (Fn S2) ! i)) \<and>
           (\<forall>i. i < ?n + 0 \<longrightarrow> Insts (Fn S') ! i = Insts (Fn S2) ! i) \<and>
           (\<forall>p. 0 \<le> p \<and> p < L \<longrightarrow>
              Incoming (Insts (Fn S') ! (?n + p)) =
                Incoming (Insts (Fn S2) ! (?n + p)) @ [(if p = 0 then SV' else ID, PreheaderBB S)])" ..
  note l2 = big [THEN conjunct1]
  note o3 = big [THEN conjunct2, THEN conjunct1]
  note len3 = big [THEN conjunct2, THEN conjunct2, THEN conjunct1]
  note same3 = big [THEN conjunct2, THEN conjunct2, THEN conjunct2, THEN conjunct1, rule_format]
  note inc3 = big [THEN conjunct2, THEN conjunct2, THEN conjunct2, THEN conjunct2, THEN conjunct2,
      rule_format]
  have run: "VPReductionPHIRecipe_execute this S = Inr S'"
    unfolding VPReductionPHIRecipe_execute_def
    using l1 sai l2
    by (simp add: uv phi hdr sv andThen_def Let_def pre SP [symmetric]
        VecTy [symmetric] L [symmetric])
  have res: "PerPartOutput S' (RP_Def this, p) = Some (InstructionVal (?n + p) VecTy) \<and>
                     ?n + p < length (Insts (Fn S')) \<and>
                     Operation (Insts (Fn S') ! (?n + p)) = PHIOp \<and>
                     Incoming (Insts (Fn S') ! (?n + p)) =
                       [(if p = 0 then SV' else ID, PreheaderBB S)]" if "p < L" for p
  proof -
    from o1 [rule_format, of "RP_Def this" p] that
    have "PerPartOutput S' (RP_Def this, p) = Some (InstructionVal (?n + p) VecTy)"
      by (simp add: o3 o2)
    moreover have "?n + p < length (Insts (Fn S'))"
      using len2 [OF that] by (simp add: len3)
    moreover have "Operation (Insts (Fn S') ! (?n + p)) = PHIOp"
      using same3 [OF len2 [OF that]] by (simp add: nth2 [OF that] newInstruction_def)
    moreover have "Incoming (Insts (Fn S') ! (?n + p)) = [(if p = 0 then SV' else ID, PreheaderBB S)]"
      using inc3 [of p] that by (simp add: nth2 [OF that] newInstruction_def)
    ultimately show ?thesis
      by simp
  qed
  have val: "valueOf E (Fn S') V = valueOf E (Fn S2) V" for E V
    using len3 same3 by (intro valueOf_cong) simp_all
  have same: "\<forall>i < length (Insts (Fn S2)).
              Operation (Insts (Fn S') ! i) = Operation (Insts (Fn S2) ! i) \<and>
              Operands (Insts (Fn S') ! i) = Operands (Insts (Fn S2) ! i)"
    using same3 by blast
  show ?thesis
    apply (rule exI [of _ S'])
    apply (intro conjI)
    apply (rule run)
    using res apply blast
    apply (rule len3)
    apply (rule same)
    using val apply blast
    done
qed


lemma getRecurrenceIdentity_Add:
  assumes "getRecurrenceIdentity RecurKind_Add Tp FMF = Inr Iden0"
  shows "valueOf E F Iden0 = Some (Scalar 0)"
  using assms
  by (auto simp: getRecurrenceIdentity_def valueOf_def ConstantInt_get_def split: Type.splits)

lemma sum_list_replicate_update:
  "0 < n \<Longrightarrow> sum_list ((replicate n (0::int))[0 := s]) = s"
  by (cases n) (simp_all add: sum_list_replicate)

lemma seeds_sum:
  assumes "0 < L" and "valueOf E F SV' = Some x" and "valueOf E F ID = Some z"
    and "laneSum x = s" and "laneSum z = 0"
  shows "\<exists>vs. length vs = L \<and>
           (\<forall>p < L. valueOf E F (if p = 0 then SV' else ID) = Some (vs ! p)) \<and>
           sum_list (map laneSum vs) = s"
proof -
  let ?vs = "x # replicate (L - 1) z"
  have "length ?vs = L"
    using assms(1) by simp
  moreover have "\<forall>p < L. valueOf E F (if p = 0 then SV' else ID) = Some (?vs ! p)"
    using assms(2,3) by (auto simp: nth_Cons')
  moreover have "sum_list (map laneSum ?vs) = s"
    using assms(4,5) by (simp add: sum_list_replicate)
  ultimately show ?thesis
    by blast
qed


lemma VPReductionPHIRecipe_execute_seeds:
  assumes SP: "ScalarPHI = (isScalar (VF S) \<or> RP_IsInLoop this)"
    and L: "L = (if isOrdered this then 1 else UF S)"
    and VecTy: "VecTy = (if ScalarPHI then SI_Type PN else VectorTy (SI_Type PN) (VF S))"
    and uv: "RP_UnderlyingValue this = Some PN" and phi: "SI_Opcode PN = PHI"
    and hdr: "CurrentVectorLoopHeader S = PrevBB S"
    and fi: "getFirstInsertionPt (Fn S) (PrevBB S) = Some IP" and ip: "IP < length (Insts (Fn S))"
    and tm: "getTerminator (Fn S) (PreheaderBB S) = Some T"
    and ne: "PreheaderBB S \<noteq> PrevBB S"
    and ib: "InsertBlock (Builder S) \<noteq> PreheaderBB S"
    and sv: "getLiveInIRValue (RP_StartValue this) = Inr (Some SV)"
    and iden: "(isMinMaxRecurrenceKind (getRecurrenceKind (RP_RdxDesc this)) \<or> isSelectCmpRecurrenceKind (getRecurrenceKind (RP_RdxDesc this))) \<or>
               getRecurrenceIdentity (getRecurrenceKind (RP_RdxDesc this)) (getScalarType VecTy)
                 (getFastMathFlags (RP_RdxDesc this)) = Inr Iden0"
  shows "\<exists>S' SV' ID. VPReductionPHIRecipe_execute this S = Inr S' \<and>
           (\<forall>p < L. PerPartOutput S' (RP_Def this, p) =
                       Some (InstructionVal (length (Insts (Fn S)) + p) VecTy) \<and>
                     length (Insts (Fn S)) + p < length (Insts (Fn S')) \<and>
                     Operation (Insts (Fn S') ! (length (Insts (Fn S)) + p)) = PHIOp \<and>
                     Incoming (Insts (Fn S') ! (length (Insts (Fn S)) + p)) =
                       [(if p = 0 then SV' else ID, PreheaderBB S)]) \<and>
           ((isMinMaxRecurrenceKind (getRecurrenceKind (RP_RdxDesc this)) \<or> isSelectCmpRecurrenceKind (getRecurrenceKind (RP_RdxDesc this))) \<and> ScalarPHI \<longrightarrow> SV' = SV \<and> ID = SV) \<and>
           ((isMinMaxRecurrenceKind (getRecurrenceKind (RP_RdxDesc this)) \<or> isSelectCmpRecurrenceKind (getRecurrenceKind (RP_RdxDesc this))) \<and> \<not> ScalarPHI \<longrightarrow>
              SV' = ID \<and>
              (\<exists>a. ID = InstructionVal a (VectorTy (getType SV) (VF S)) \<and>
                   a < length (Insts (Fn S')) \<and>
                   Operation (Insts (Fn S') ! a) = VectorSplatOp \<and>
                   Operands (Insts (Fn S') ! a) = [SV]) \<and>
              (\<forall>E s. valueOf E (Fn S) SV = Some (Scalar s) \<longrightarrow>
                     valueOf E (Fn S') ID = Some (Lanes (replicate (numLanes E (VF S)) s)))) \<and>
           (\<not> (isMinMaxRecurrenceKind (getRecurrenceKind (RP_RdxDesc this)) \<or> isSelectCmpRecurrenceKind (getRecurrenceKind (RP_RdxDesc this))) \<and> ScalarPHI \<longrightarrow> SV' = SV \<and> ID = Iden0) \<and>
           (\<not> (isMinMaxRecurrenceKind (getRecurrenceKind (RP_RdxDesc this)) \<or> isSelectCmpRecurrenceKind (getRecurrenceKind (RP_RdxDesc this))) \<and> \<not> ScalarPHI \<longrightarrow>
              (\<exists>a b. ID = InstructionVal a (VectorTy (getType Iden0) (VF S)) \<and>
                     SV' = InstructionVal b (VectorTy (getType Iden0) (VF S)) \<and>
                     a < length (Insts (Fn S')) \<and> b < length (Insts (Fn S')) \<and>
                     Operation (Insts (Fn S') ! a) = VectorSplatOp \<and>
                     Operands (Insts (Fn S') ! a) = [Iden0] \<and>
                     Operation (Insts (Fn S') ! b) = InsertElementOp \<and>
                     Operands (Insts (Fn S') ! b) = [ID, SV, ConstantIntVal (ConstantInt_get 32 0)]) \<and>
              (\<forall>E s i. valueOf E (Fn S) SV = Some (Scalar s) \<and>
                       valueOf E (Fn S) Iden0 = Some (Scalar i) \<and> 0 < numLanes E (VF S) \<longrightarrow>
                     valueOf E (Fn S') ID = Some (Lanes (replicate (numLanes E (VF S)) i)) \<and>
                     valueOf E (Fn S') SV' =
                       Some (Lanes ((replicate (numLanes E (VF S)) i)[0 := s])))) \<and>
           (getRecurrenceKind (RP_RdxDesc this) = RecurKind_Add \<and> 0 < L \<longrightarrow>
              (\<forall>E s. valueOf E (Fn S) SV = Some (Scalar s) \<and> 0 < numLanes E (VF S) \<longrightarrow>
                 (\<exists>vs. length vs = L \<and>
                    (\<forall>p < L. valueOf E (Fn S') (if p = 0 then SV' else ID) = Some (vs ! p)) \<and>
                    sum_list (map laneSum vs) = s)))"
proof -
  let ?phi = "newInstruction PHIOp [] VecTy ''vec.phi''"
  from createEntryPart_loop_result [OF fi ip, of this VecTy L 0]
  obtain S1 where big1:
    "createEntryPart_loop this VecTy (PrevBB S) L S 0 = Inr S1 \<and> sameSetting S S1 \<and>
           Builder S1 = Builder S \<and>
           Insts (Fn S1) = Insts (Fn S) @ replicate (L - 0) ?phi \<and>
           (\<forall>D p. PerPartOutput S1 (D, p) =
                    (if D = RP_Def this \<and> 0 \<le> p \<and> p < L
                     then Some (InstructionVal (length (Insts (Fn S)) + (p - 0)) VecTy)
                     else PerPartOutput S (D, p))) \<and>
           (\<forall>BB. BB \<noteq> PrevBB S \<longrightarrow> BlockInsts (Fn S1) BB = BlockInsts (Fn S) BB)" ..
  note l1 = big1 [THEN conjunct1]
  note s1 = big1 [THEN conjunct2, THEN conjunct1]
  note b1 = big1 [THEN conjunct2, THEN conjunct2, THEN conjunct1]
  note i1 = big1 [THEN conjunct2, THEN conjunct2, THEN conjunct2, THEN conjunct1]
  note o1 = big1 [THEN conjunct2, THEN conjunct2, THEN conjunct2, THEN conjunct2, THEN conjunct1]
  note k1 = big1 [THEN conjunct2, THEN conjunct2, THEN conjunct2, THEN conjunct2, THEN conjunct2,
      rule_format]
  have pre: "PreheaderBB S1 = PreheaderBB S" and vf: "VF S1 = VF S"
    using s1 by (simp_all add: sameSetting_def)
  have "BlockInsts (Fn S1) (PreheaderBB S) = BlockInsts (Fn S) (PreheaderBB S)"
    using k1 [OF ne] .
  from getTerminator_extend [OF tm this i1]
  have tm1: "getTerminator (Fn S1) (PreheaderBB S) = Some T" .
  have ib1: "InsertBlock (Builder S1) \<noteq> PreheaderBB S"
    using ib by (simp add: b1)
  have sv1: "valueOf E (Fn S1) SV = Some r" if "valueOf E (Fn S) SV = Some r" for E r
    using that i1 by (rule valueOf_Insts_append)
  have nadd: "getRecurrenceKind (RP_RdxDesc this) \<noteq> RecurKind_Add" if "(isMinMaxRecurrenceKind (getRecurrenceKind (RP_RdxDesc this)) \<or> isSelectCmpRecurrenceKind (getRecurrenceKind (RP_RdxDesc this)))"
    using that by auto
  have B: "\<exists>S'. VPReductionPHIRecipe_execute this S = Inr S' \<and>
           (\<forall>p < L. PerPartOutput S' (RP_Def this, p) =
                       Some (InstructionVal (length (Insts (Fn S)) + p) VecTy) \<and>
                     length (Insts (Fn S)) + p < length (Insts (Fn S')) \<and>
                     Operation (Insts (Fn S') ! (length (Insts (Fn S)) + p)) = PHIOp \<and>
                     Incoming (Insts (Fn S') ! (length (Insts (Fn S)) + p)) =
                       [(if p = 0 then SV' else ID, PreheaderBB S)]) \<and>
           length (Insts (Fn S')) = length (Insts (Fn S2)) \<and>
           (\<forall>i < length (Insts (Fn S2)).
              Operation (Insts (Fn S') ! i) = Operation (Insts (Fn S2) ! i) \<and>
              Operands (Insts (Fn S') ! i) = Operands (Insts (Fn S2) ! i)) \<and>
           (\<forall>E V. valueOf E (Fn S') V = valueOf E (Fn S2) V)"
    if "startAndIdentity this ScalarPHI VecTy (PreheaderBB S) (Some SV) S1 =
          Inr (Some SV', Some ID, S2)"
      and "PerPartOutput S2 = PerPartOutput S1" and "Insts (Fn S2) = Insts (Fn S1) @ Js"
    for SV' ID S2 Js
    using VPReductionPHIRecipe_execute_phis [OF SP L uv phi VecTy hdr sv l1 pre o1 i1 that] .
  consider (a) "(isMinMaxRecurrenceKind (getRecurrenceKind (RP_RdxDesc this)) \<or> isSelectCmpRecurrenceKind (getRecurrenceKind (RP_RdxDesc this)))" "ScalarPHI" | (b) "(isMinMaxRecurrenceKind (getRecurrenceKind (RP_RdxDesc this)) \<or> isSelectCmpRecurrenceKind (getRecurrenceKind (RP_RdxDesc this)))" "\<not> ScalarPHI"
    | (c) "\<not> (isMinMaxRecurrenceKind (getRecurrenceKind (RP_RdxDesc this)) \<or> isSelectCmpRecurrenceKind (getRecurrenceKind (RP_RdxDesc this)))" "ScalarPHI" | (d) "\<not> (isMinMaxRecurrenceKind (getRecurrenceKind (RP_RdxDesc this)) \<or> isSelectCmpRecurrenceKind (getRecurrenceKind (RP_RdxDesc this)))" "\<not> ScalarPHI"
    by blast
  then show ?thesis
  proof cases
    case a
    have sai: "startAndIdentity this ScalarPHI VecTy (PreheaderBB S) (Some SV) S1 =
          Inr (Some SV, Some SV, S1)"
      using startAndIdentity_minmax_scalar [OF a(1)] a(2) by simp
    have "Insts (Fn S1) = Insts (Fn S1) @ []"
      by simp
    from B [OF sai refl this]
    obtain S' where big: "VPReductionPHIRecipe_execute this S = Inr S' \<and>
           (\<forall>p < L. PerPartOutput S' (RP_Def this, p) =
                       Some (InstructionVal (length (Insts (Fn S)) + p) VecTy) \<and>
                     length (Insts (Fn S)) + p < length (Insts (Fn S')) \<and>
                     Operation (Insts (Fn S') ! (length (Insts (Fn S)) + p)) = PHIOp \<and>
                     Incoming (Insts (Fn S') ! (length (Insts (Fn S)) + p)) =
                       [(if p = 0 then SV else SV, PreheaderBB S)]) \<and>
           length (Insts (Fn S')) = length (Insts (Fn S1)) \<and>
           (\<forall>i < length (Insts (Fn S1)).
              Operation (Insts (Fn S') ! i) = Operation (Insts (Fn S1) ! i) \<and>
              Operands (Insts (Fn S') ! i) = Operands (Insts (Fn S1) ! i)) \<and>
           (\<forall>E V. valueOf E (Fn S') V = valueOf E (Fn S1) V)" ..
    note run = big [THEN conjunct1]
    note res = big [THEN conjunct2, THEN conjunct1]
    note len3 = big [THEN conjunct2, THEN conjunct2, THEN conjunct1]
    note same = big [THEN conjunct2, THEN conjunct2, THEN conjunct2, THEN conjunct1, rule_format]
    note val = big [THEN conjunct2, THEN conjunct2, THEN conjunct2, THEN conjunct2, rule_format]
    have cA: "(isMinMaxRecurrenceKind (getRecurrenceKind (RP_RdxDesc this)) \<or> isSelectCmpRecurrenceKind (getRecurrenceKind (RP_RdxDesc this))) \<and> ScalarPHI \<longrightarrow> SV = SV \<and> SV = SV"
      by simp
    have cB: "(isMinMaxRecurrenceKind (getRecurrenceKind (RP_RdxDesc this)) \<or> isSelectCmpRecurrenceKind (getRecurrenceKind (RP_RdxDesc this))) \<and> \<not> ScalarPHI \<longrightarrow>
              SV = SV \<and>
              (\<exists>a. SV = InstructionVal a (VectorTy (getType SV) (VF S)) \<and>
                   a < length (Insts (Fn S')) \<and>
                   Operation (Insts (Fn S') ! a) = VectorSplatOp \<and>
                   Operands (Insts (Fn S') ! a) = [SV]) \<and>
              (\<forall>E s. valueOf E (Fn S) SV = Some (Scalar s) \<longrightarrow>
                     valueOf E (Fn S') SV = Some (Lanes (replicate (numLanes E (VF S)) s)))"
      using a(2) by simp
    have cC: "\<not> (isMinMaxRecurrenceKind (getRecurrenceKind (RP_RdxDesc this)) \<or> isSelectCmpRecurrenceKind (getRecurrenceKind (RP_RdxDesc this))) \<and> ScalarPHI \<longrightarrow> SV = SV \<and> SV = Iden0"
      using a(1) by simp
    have cD: "\<not> (isMinMaxRecurrenceKind (getRecurrenceKind (RP_RdxDesc this)) \<or> isSelectCmpRecurrenceKind (getRecurrenceKind (RP_RdxDesc this))) \<and> \<not> ScalarPHI \<longrightarrow>
              (\<exists>a b. SV = InstructionVal a (VectorTy (getType Iden0) (VF S)) \<and>
                     SV = InstructionVal b (VectorTy (getType Iden0) (VF S)) \<and>
                     a < length (Insts (Fn S')) \<and> b < length (Insts (Fn S')) \<and>
                     Operation (Insts (Fn S') ! a) = VectorSplatOp \<and>
                     Operands (Insts (Fn S') ! a) = [Iden0] \<and>
                     Operation (Insts (Fn S') ! b) = InsertElementOp \<and>
                     Operands (Insts (Fn S') ! b) = [SV, SV, ConstantIntVal (ConstantInt_get 32 0)]) \<and>
              (\<forall>E s i. valueOf E (Fn S) SV = Some (Scalar s) \<and>
                       valueOf E (Fn S) Iden0 = Some (Scalar i) \<and> 0 < numLanes E (VF S) \<longrightarrow>
                     valueOf E (Fn S') SV = Some (Lanes (replicate (numLanes E (VF S)) i)) \<and>
                     valueOf E (Fn S') SV =
                       Some (Lanes ((replicate (numLanes E (VF S)) i)[0 := s])))"
      using a(2) by simp
    have cS: "getRecurrenceKind (RP_RdxDesc this) = RecurKind_Add \<and> 0 < L \<longrightarrow>
              (\<forall>E s. valueOf E (Fn S) SV = Some (Scalar s) \<and> 0 < numLanes E (VF S) \<longrightarrow>
                 (\<exists>vs. length vs = L \<and>
                    (\<forall>p < L. valueOf E (Fn S') (if p = 0 then SV else SV) = Some (vs ! p)) \<and>
                    sum_list (map laneSum vs) = s))"
      using nadd [OF a(1)] by simp
    show ?thesis
      apply (rule exI [of _ S'], rule exI [of _ "SV"], rule exI [of _ "SV"])
      apply (intro conjI)
            apply (rule run)
           apply (rule res)
          apply (rule cA)
         apply (rule cB)
        apply (rule cC)
       apply (rule cD)
      apply (rule cS)
      done
  next
    case b
    let ?ID = "InstructionVal (length (Insts (Fn S1))) (VectorTy (getType SV) (VF S))"
    from startAndIdentity_minmax_vector [OF b(1) tm1, of VecTy SV]
    obtain S2 J where
      sai0: "startAndIdentity this False VecTy (PreheaderBB S) (Some SV) S1 =
               Inr (Some ?ID, Some ?ID, S2)" and
      o2: "PerPartOutput S2 = PerPartOutput S1" and
      i2: "Insts (Fn S2) = Insts (Fn S1) @ [J]" and
      J: "Operation J = VectorSplatOp" "Operands J = [SV]"
         "ResultTy J = VectorTy (getType SV) (VF S)"
      unfolding vf by blast
    have sai: "startAndIdentity this ScalarPHI VecTy (PreheaderBB S) (Some SV) S1 =
               Inr (Some ?ID, Some ?ID, S2)"
      using sai0 b(2) by simp
    from B [OF sai o2 i2]
    obtain S' where big: "VPReductionPHIRecipe_execute this S = Inr S' \<and>
           (\<forall>p < L. PerPartOutput S' (RP_Def this, p) =
                       Some (InstructionVal (length (Insts (Fn S)) + p) VecTy) \<and>
                     length (Insts (Fn S)) + p < length (Insts (Fn S')) \<and>
                     Operation (Insts (Fn S') ! (length (Insts (Fn S)) + p)) = PHIOp \<and>
                     Incoming (Insts (Fn S') ! (length (Insts (Fn S)) + p)) =
                       [(if p = 0 then ?ID else ?ID, PreheaderBB S)]) \<and>
           length (Insts (Fn S')) = length (Insts (Fn S2)) \<and>
           (\<forall>i < length (Insts (Fn S2)).
              Operation (Insts (Fn S') ! i) = Operation (Insts (Fn S2) ! i) \<and>
              Operands (Insts (Fn S') ! i) = Operands (Insts (Fn S2) ! i)) \<and>
           (\<forall>E V. valueOf E (Fn S') V = valueOf E (Fn S2) V)" ..
    note run = big [THEN conjunct1]
    note res = big [THEN conjunct2, THEN conjunct1]
    note len3 = big [THEN conjunct2, THEN conjunct2, THEN conjunct1]
    note same = big [THEN conjunct2, THEN conjunct2, THEN conjunct2, THEN conjunct1, rule_format]
    note val = big [THEN conjunct2, THEN conjunct2, THEN conjunct2, THEN conjunct2, rule_format]
    have lt: "length (Insts (Fn S1)) < length (Insts (Fn S2))"
      by (simp add: i2)
    have nth: "Insts (Fn S2) ! (length (Insts (Fn S1))) = J"
      by (simp add: i2)
    have vID: "valueOf E (Fn S') ?ID = Some (Lanes (replicate (numLanes E (VF S)) s))"
      if "valueOf E (Fn S) SV = Some (Scalar s)" for E s
      unfolding val using valueOf_VectorSplat [OF i2 J sv1 [OF that]] .
    have ex: "\<exists>a. ?ID = InstructionVal a (VectorTy (getType SV) (VF S)) \<and>
                   a < length (Insts (Fn S')) \<and>
                   Operation (Insts (Fn S') ! a) = VectorSplatOp \<and>
                   Operands (Insts (Fn S') ! a) = [SV]"
      using same [OF lt] lt by (intro exI [of _ "length (Insts (Fn S1))"]) (simp add: len3 nth J)
    have cA: "(isMinMaxRecurrenceKind (getRecurrenceKind (RP_RdxDesc this)) \<or> isSelectCmpRecurrenceKind (getRecurrenceKind (RP_RdxDesc this))) \<and> ScalarPHI \<longrightarrow> ?ID = SV \<and> ?ID = SV"
      using b(2) by simp
    have cB: "(isMinMaxRecurrenceKind (getRecurrenceKind (RP_RdxDesc this)) \<or> isSelectCmpRecurrenceKind (getRecurrenceKind (RP_RdxDesc this))) \<and> \<not> ScalarPHI \<longrightarrow>
              ?ID = ?ID \<and>
              (\<exists>a. ?ID = InstructionVal a (VectorTy (getType SV) (VF S)) \<and>
                   a < length (Insts (Fn S')) \<and>
                   Operation (Insts (Fn S') ! a) = VectorSplatOp \<and>
                   Operands (Insts (Fn S') ! a) = [SV]) \<and>
              (\<forall>E s. valueOf E (Fn S) SV = Some (Scalar s) \<longrightarrow>
                     valueOf E (Fn S') ?ID = Some (Lanes (replicate (numLanes E (VF S)) s)))"
      using ex vID by blast
    have cC: "\<not> (isMinMaxRecurrenceKind (getRecurrenceKind (RP_RdxDesc this)) \<or> isSelectCmpRecurrenceKind (getRecurrenceKind (RP_RdxDesc this))) \<and> ScalarPHI \<longrightarrow> ?ID = SV \<and> ?ID = Iden0"
      using b(1) by simp
    have cD: "\<not> (isMinMaxRecurrenceKind (getRecurrenceKind (RP_RdxDesc this)) \<or> isSelectCmpRecurrenceKind (getRecurrenceKind (RP_RdxDesc this))) \<and> \<not> ScalarPHI \<longrightarrow>
              (\<exists>a b. ?ID = InstructionVal a (VectorTy (getType Iden0) (VF S)) \<and>
                     ?ID = InstructionVal b (VectorTy (getType Iden0) (VF S)) \<and>
                     a < length (Insts (Fn S')) \<and> b < length (Insts (Fn S')) \<and>
                     Operation (Insts (Fn S') ! a) = VectorSplatOp \<and>
                     Operands (Insts (Fn S') ! a) = [Iden0] \<and>
                     Operation (Insts (Fn S') ! b) = InsertElementOp \<and>
                     Operands (Insts (Fn S') ! b) = [?ID, SV, ConstantIntVal (ConstantInt_get 32 0)]) \<and>
              (\<forall>E s i. valueOf E (Fn S) SV = Some (Scalar s) \<and>
                       valueOf E (Fn S) Iden0 = Some (Scalar i) \<and> 0 < numLanes E (VF S) \<longrightarrow>
                     valueOf E (Fn S') ?ID = Some (Lanes (replicate (numLanes E (VF S)) i)) \<and>
                     valueOf E (Fn S') ?ID =
                       Some (Lanes ((replicate (numLanes E (VF S)) i)[0 := s])))"
      using b(1) by simp
    have cS: "getRecurrenceKind (RP_RdxDesc this) = RecurKind_Add \<and> 0 < L \<longrightarrow>
              (\<forall>E s. valueOf E (Fn S) SV = Some (Scalar s) \<and> 0 < numLanes E (VF S) \<longrightarrow>
                 (\<exists>vs. length vs = L \<and>
                    (\<forall>p < L. valueOf E (Fn S') (if p = 0 then ?ID else ?ID) = Some (vs ! p)) \<and>
                    sum_list (map laneSum vs) = s))"
      using nadd [OF b(1)] by simp
    show ?thesis
      apply (rule exI [of _ S'], rule exI [of _ "?ID"], rule exI [of _ "?ID"])
      apply (intro conjI)
            apply (rule run)
           apply (rule res)
          apply (rule cA)
         apply (rule cB)
        apply (rule cC)
       apply (rule cD)
      apply (rule cS)
      done
  next
    case c
    from c(1) iden have iden0: "getRecurrenceIdentity (getRecurrenceKind (RP_RdxDesc this)) (getScalarType VecTy)
                 (getFastMathFlags (RP_RdxDesc this)) = Inr Iden0"
      by blast
    have sai: "startAndIdentity this ScalarPHI VecTy (PreheaderBB S) (Some SV) S1 =
          Inr (Some SV, Some Iden0, S1)"
      using startAndIdentity_other_scalar [OF c(1) iden0] c(2) by simp
    have "Insts (Fn S1) = Insts (Fn S1) @ []"
      by simp
    from B [OF sai refl this]
    obtain S' where big: "VPReductionPHIRecipe_execute this S = Inr S' \<and>
           (\<forall>p < L. PerPartOutput S' (RP_Def this, p) =
                       Some (InstructionVal (length (Insts (Fn S)) + p) VecTy) \<and>
                     length (Insts (Fn S)) + p < length (Insts (Fn S')) \<and>
                     Operation (Insts (Fn S') ! (length (Insts (Fn S)) + p)) = PHIOp \<and>
                     Incoming (Insts (Fn S') ! (length (Insts (Fn S)) + p)) =
                       [(if p = 0 then SV else Iden0, PreheaderBB S)]) \<and>
           length (Insts (Fn S')) = length (Insts (Fn S1)) \<and>
           (\<forall>i < length (Insts (Fn S1)).
              Operation (Insts (Fn S') ! i) = Operation (Insts (Fn S1) ! i) \<and>
              Operands (Insts (Fn S') ! i) = Operands (Insts (Fn S1) ! i)) \<and>
           (\<forall>E V. valueOf E (Fn S') V = valueOf E (Fn S1) V)" ..
    note run = big [THEN conjunct1]
    note res = big [THEN conjunct2, THEN conjunct1]
    note len3 = big [THEN conjunct2, THEN conjunct2, THEN conjunct1]
    note same = big [THEN conjunct2, THEN conjunct2, THEN conjunct2, THEN conjunct1, rule_format]
    note val = big [THEN conjunct2, THEN conjunct2, THEN conjunct2, THEN conjunct2, rule_format]
    have sum: "\<exists>vs. length vs = L \<and>
                    (\<forall>p < L. valueOf E (Fn S') (if p = 0 then SV else Iden0) = Some (vs ! p)) \<and>
                    sum_list (map laneSum vs) = s"
      if add: "getRecurrenceKind (RP_RdxDesc this) = RecurKind_Add" and L0: "0 < L"
        and vs: "valueOf E (Fn S) SV = Some (Scalar s)" for E s
    proof -
      have v1: "valueOf E (Fn S') SV = Some (Scalar s)"
        unfolding val using sv1 [OF vs] .
      have v2: "valueOf E (Fn S') Iden0 = Some (Scalar 0)"
        using iden0 unfolding add by (rule getRecurrenceIdentity_Add)
      show ?thesis
        by (rule seeds_sum [OF L0 v1 v2]) simp_all
    qed
    have cA: "(isMinMaxRecurrenceKind (getRecurrenceKind (RP_RdxDesc this)) \<or> isSelectCmpRecurrenceKind (getRecurrenceKind (RP_RdxDesc this))) \<and> ScalarPHI \<longrightarrow> SV = SV \<and> Iden0 = SV"
      using c(1) by simp
    have cB: "(isMinMaxRecurrenceKind (getRecurrenceKind (RP_RdxDesc this)) \<or> isSelectCmpRecurrenceKind (getRecurrenceKind (RP_RdxDesc this))) \<and> \<not> ScalarPHI \<longrightarrow>
              SV = Iden0 \<and>
              (\<exists>a. Iden0 = InstructionVal a (VectorTy (getType SV) (VF S)) \<and>
                   a < length (Insts (Fn S')) \<and>
                   Operation (Insts (Fn S') ! a) = VectorSplatOp \<and>
                   Operands (Insts (Fn S') ! a) = [SV]) \<and>
              (\<forall>E s. valueOf E (Fn S) SV = Some (Scalar s) \<longrightarrow>
                     valueOf E (Fn S') Iden0 = Some (Lanes (replicate (numLanes E (VF S)) s)))"
      using c(1) by simp
    have cC: "\<not> (isMinMaxRecurrenceKind (getRecurrenceKind (RP_RdxDesc this)) \<or> isSelectCmpRecurrenceKind (getRecurrenceKind (RP_RdxDesc this))) \<and> ScalarPHI \<longrightarrow> SV = SV \<and> Iden0 = Iden0"
      by simp
    have cD: "\<not> (isMinMaxRecurrenceKind (getRecurrenceKind (RP_RdxDesc this)) \<or> isSelectCmpRecurrenceKind (getRecurrenceKind (RP_RdxDesc this))) \<and> \<not> ScalarPHI \<longrightarrow>
              (\<exists>a b. Iden0 = InstructionVal a (VectorTy (getType Iden0) (VF S)) \<and>
                     SV = InstructionVal b (VectorTy (getType Iden0) (VF S)) \<and>
                     a < length (Insts (Fn S')) \<and> b < length (Insts (Fn S')) \<and>
                     Operation (Insts (Fn S') ! a) = VectorSplatOp \<and>
                     Operands (Insts (Fn S') ! a) = [Iden0] \<and>
                     Operation (Insts (Fn S') ! b) = InsertElementOp \<and>
                     Operands (Insts (Fn S') ! b) = [Iden0, SV, ConstantIntVal (ConstantInt_get 32 0)]) \<and>
              (\<forall>E s i. valueOf E (Fn S) SV = Some (Scalar s) \<and>
                       valueOf E (Fn S) Iden0 = Some (Scalar i) \<and> 0 < numLanes E (VF S) \<longrightarrow>
                     valueOf E (Fn S') Iden0 = Some (Lanes (replicate (numLanes E (VF S)) i)) \<and>
                     valueOf E (Fn S') SV =
                       Some (Lanes ((replicate (numLanes E (VF S)) i)[0 := s])))"
      using c(2) by simp
    have cS: "getRecurrenceKind (RP_RdxDesc this) = RecurKind_Add \<and> 0 < L \<longrightarrow>
              (\<forall>E s. valueOf E (Fn S) SV = Some (Scalar s) \<and> 0 < numLanes E (VF S) \<longrightarrow>
                 (\<exists>vs. length vs = L \<and>
                    (\<forall>p < L. valueOf E (Fn S') (if p = 0 then SV else Iden0) = Some (vs ! p)) \<and>
                    sum_list (map laneSum vs) = s))"
      using sum by blast
    show ?thesis
      apply (rule exI [of _ S'], rule exI [of _ "SV"], rule exI [of _ "Iden0"])
      apply (intro conjI)
            apply (rule run)
           apply (rule res)
          apply (rule cA)
         apply (rule cB)
        apply (rule cC)
       apply (rule cD)
      apply (rule cS)
      done
  next
    case d
    from d(1) iden have iden0: "getRecurrenceIdentity (getRecurrenceKind (RP_RdxDesc this)) (getScalarType VecTy)
                 (getFastMathFlags (RP_RdxDesc this)) = Inr Iden0"
      by blast
    let ?VT = "VectorTy (getType Iden0) (VF S)"
    let ?ID = "InstructionVal (length (Insts (Fn S1))) ?VT"
    let ?SV = "InstructionVal (length (Insts (Fn S1)) + 1) ?VT"
    from startAndIdentity_other_vector [OF d(1) iden0 tm1 ib1, of SV]
    obtain S2 J1 J2 where
      sai0: "startAndIdentity this False VecTy (PreheaderBB S) (Some SV) S1 =
               Inr (Some ?SV, Some ?ID, S2)" and
      o2: "PerPartOutput S2 = PerPartOutput S1" and
      i2: "Insts (Fn S2) = Insts (Fn S1) @ [J1, J2]" and
      J1: "Operation J1 = VectorSplatOp" "Operands J1 = [Iden0]" "ResultTy J1 = ?VT" and
      J2: "Operation J2 = InsertElementOp"
          "Operands J2 = [?ID, SV, ConstantIntVal (ConstantInt_get 32 0)]"
      unfolding vf by blast
    have sai: "startAndIdentity this ScalarPHI VecTy (PreheaderBB S) (Some SV) S1 =
               Inr (Some ?SV, Some ?ID, S2)"
      using sai0 d(2) by simp
    from B [OF sai o2 i2]
    obtain S' where big: "VPReductionPHIRecipe_execute this S = Inr S' \<and>
           (\<forall>p < L. PerPartOutput S' (RP_Def this, p) =
                       Some (InstructionVal (length (Insts (Fn S)) + p) VecTy) \<and>
                     length (Insts (Fn S)) + p < length (Insts (Fn S')) \<and>
                     Operation (Insts (Fn S') ! (length (Insts (Fn S)) + p)) = PHIOp \<and>
                     Incoming (Insts (Fn S') ! (length (Insts (Fn S)) + p)) =
                       [(if p = 0 then ?SV else ?ID, PreheaderBB S)]) \<and>
           length (Insts (Fn S')) = length (Insts (Fn S2)) \<and>
           (\<forall>i < length (Insts (Fn S2)).
              Operation (Insts (Fn S') ! i) = Operation (Insts (Fn S2) ! i) \<and>
              Operands (Insts (Fn S') ! i) = Operands (Insts (Fn S2) ! i)) \<and>
           (\<forall>E V. valueOf E (Fn S') V = valueOf E (Fn S2) V)" ..
    note run = big [THEN conjunct1]
    note res = big [THEN conjunct2, THEN conjunct1]
    note len3 = big [THEN conjunct2, THEN conjunct2, THEN conjunct1]
    note same = big [THEN conjunct2, THEN conjunct2, THEN conjunct2, THEN conjunct1, rule_format]
    note val = big [THEN conjunct2, THEN conjunct2, THEN conjunct2, THEN conjunct2, rule_format]
    have lta: "length (Insts (Fn S1)) < length (Insts (Fn S2))" and ltb: "length (Insts (Fn S1)) + 1 < length (Insts (Fn S2))"
      by (simp_all add: i2)
    have ntha: "Insts (Fn S2) ! (length (Insts (Fn S1))) = J1" and nthb: "Insts (Fn S2) ! (length (Insts (Fn S1)) + 1) = J2"
      by (simp_all add: i2 nth_append)
    have ex: "\<exists>a b. ?ID = InstructionVal a ?VT \<and> ?SV = InstructionVal b ?VT \<and>
                     a < length (Insts (Fn S')) \<and> b < length (Insts (Fn S')) \<and>
                     Operation (Insts (Fn S') ! a) = VectorSplatOp \<and>
                     Operands (Insts (Fn S') ! a) = [Iden0] \<and>
                     Operation (Insts (Fn S') ! b) = InsertElementOp \<and>
                     Operands (Insts (Fn S') ! b) = [?ID, SV, ConstantIntVal (ConstantInt_get 32 0)]"
    proof -
      have opa: "Operation (Insts (Fn S') ! (length (Insts (Fn S1)))) = VectorSplatOp"
        "Operands (Insts (Fn S') ! (length (Insts (Fn S1)))) = [Iden0]"
        using same [OF lta] unfolding ntha by (simp_all add: J1)
      have opb: "Operation (Insts (Fn S') ! (length (Insts (Fn S1)) + 1)) = InsertElementOp"
        "Operands (Insts (Fn S') ! (length (Insts (Fn S1)) + 1)) = [?ID, SV, ConstantIntVal (ConstantInt_get 32 0)]"
        using same [OF ltb] unfolding nthb by (simp_all add: J2)
      have lts: "length (Insts (Fn S1)) < length (Insts (Fn S'))" "length (Insts (Fn S1)) + 1 < length (Insts (Fn S'))"
        using lta ltb by (simp_all add: len3)
      from lts opa opb show ?thesis
        by blast
    qed
    define F1 where "F1 = (Fn S1)\<lparr>Insts := Insts (Fn S1) @ [J1]\<rparr>"
    have f1: "Insts F1 = Insts (Fn S1) @ [J1]" and f2: "Insts (Fn S2) = Insts F1 @ [J2]"
      and lf1: "length (Insts F1) = length (Insts (Fn S1)) + 1"
      by (simp_all add: F1_def i2)
    have vals: "valueOf E (Fn S') ?ID = Some (Lanes (replicate (numLanes E (VF S)) i)) \<and>
                valueOf E (Fn S') ?SV = Some (Lanes ((replicate (numLanes E (VF S)) i)[0 := s]))"
      if vs: "valueOf E (Fn S) SV = Some (Scalar s)"
        and vi: "valueOf E (Fn S) Iden0 = Some (Scalar i)" and W: "0 < numLanes E (VF S)" for E s i
    proof -
      have vi1: "valueOf E (Fn S1) Iden0 = Some (Scalar i)"
        using vi i1 by (rule valueOf_Insts_append)
      have id1: "valueOf E F1 ?ID = Some (Lanes (replicate (numLanes E (VF S)) i))"
        using valueOf_VectorSplat [OF f1 J1 vi1] .
      have sv2: "valueOf E F1 SV = Some (Scalar s)"
        using sv1 [OF vs] f1 by (rule valueOf_Insts_append)
      have z: "valueOf E F1 (ConstantIntVal (ConstantInt_get 32 0)) = Some (Scalar 0)"
        by (simp add: valueOf_def ConstantInt_get_def)
      have ne: "replicate (numLanes E (VF S)) i \<noteq> []"
        using W by simp
      from valueOf_InsertElement [OF f2 J2 id1 sv2 z ne, of ?VT]
      have "valueOf E (Fn S2) ?SV = Some (Lanes ((replicate (numLanes E (VF S)) i)[0 := s]))"
        by (simp add: lf1)
      moreover have "valueOf E (Fn S2) ?ID = Some (Lanes (replicate (numLanes E (VF S)) i))"
        using id1 f2 by (rule valueOf_Insts_append)
      ultimately show ?thesis
        by (simp add: val)
    qed
    have sum: "\<exists>vs. length vs = L \<and>
                    (\<forall>p < L. valueOf E (Fn S') (if p = 0 then ?SV else ?ID) = Some (vs ! p)) \<and>
                    sum_list (map laneSum vs) = s"
      if add: "getRecurrenceKind (RP_RdxDesc this) = RecurKind_Add" and L0: "0 < L"
        and vs: "valueOf E (Fn S) SV = Some (Scalar s)" and W: "0 < numLanes E (VF S)" for E s
    proof -
      have "valueOf E (Fn S) Iden0 = Some (Scalar 0)"
        using iden0 unfolding add by (rule getRecurrenceIdentity_Add)
      from vals [OF vs this W]
      have v1: "valueOf E (Fn S') ?SV = Some (Lanes ((replicate (numLanes E (VF S)) 0)[0 := s]))"
        and v2: "valueOf E (Fn S') ?ID = Some (Lanes (replicate (numLanes E (VF S)) 0))"
        by simp_all
      show ?thesis
        using W by (intro seeds_sum [OF L0 v1 v2])
          (simp_all add: sum_list_replicate_update sum_list_replicate)
    qed
    have cA: "(isMinMaxRecurrenceKind (getRecurrenceKind (RP_RdxDesc this)) \<or> isSelectCmpRecurrenceKind (getRecurrenceKind (RP_RdxDesc this))) \<and> ScalarPHI \<longrightarrow> ?SV = SV \<and> ?ID = SV"
      using d(1) by simp
    have cB: "(isMinMaxRecurrenceKind (getRecurrenceKind (RP_RdxDesc this)) \<or> isSelectCmpRecurrenceKind (getRecurrenceKind (RP_RdxDesc this))) \<and> \<not> ScalarPHI \<longrightarrow>
              ?SV = ?ID \<and>
              (\<exists>a. ?ID = InstructionVal a (VectorTy (getType SV) (VF S)) \<and>
                   a < length (Insts (Fn S')) \<and>
                   Operation (Insts (Fn S') ! a) = VectorSplatOp \<and>
                   Operands (Insts (Fn S') ! a) = [SV]) \<and>
              (\<forall>E s. valueOf E (Fn S) SV = Some (Scalar s) \<longrightarrow>
                     valueOf E (Fn S') ?ID = Some (Lanes (replicate (numLanes E (VF S)) s)))"
      using d(1) by simp
    have cC: "\<not> (isMinMaxRecurrenceKind (getRecurrenceKind (RP_RdxDesc this)) \<or> isSelectCmpRecurrenceKind (getRecurrenceKind (RP_RdxDesc this))) \<and> ScalarPHI \<longrightarrow> ?SV = SV \<and> ?ID = Iden0"
      using d(2) by simp
    have cD: "\<not> (isMinMaxRecurrenceKind (getRecurrenceKind (RP_RdxDesc this)) \<or> isSelectCmpRecurrenceKind (getRecurrenceKind (RP_RdxDesc this))) \<and> \<not> ScalarPHI \<longrightarrow>
              (\<exists>a b. ?ID = InstructionVal a (VectorTy (getType Iden0) (VF S)) \<and>
                     ?SV = InstructionVal b (VectorTy (getType Iden0) (VF S)) \<and>
                     a < length (Insts (Fn S')) \<and> b < length (Insts (Fn S')) \<and>
                     Operation (Insts (Fn S') ! a) = VectorSplatOp \<and>
                     Operands (Insts (Fn S') ! a) = [Iden0] \<and>
                     Operation (Insts (Fn S') ! b) = InsertElementOp \<and>
                     Operands (Insts (Fn S') ! b) = [?ID, SV, ConstantIntVal (ConstantInt_get 32 0)]) \<and>
              (\<forall>E s i. valueOf E (Fn S) SV = Some (Scalar s) \<and>
                       valueOf E (Fn S) Iden0 = Some (Scalar i) \<and> 0 < numLanes E (VF S) \<longrightarrow>
                     valueOf E (Fn S') ?ID = Some (Lanes (replicate (numLanes E (VF S)) i)) \<and>
                     valueOf E (Fn S') ?SV =
                       Some (Lanes ((replicate (numLanes E (VF S)) i)[0 := s])))"
      using ex vals by blast
    have cS: "getRecurrenceKind (RP_RdxDesc this) = RecurKind_Add \<and> 0 < L \<longrightarrow>
              (\<forall>E s. valueOf E (Fn S) SV = Some (Scalar s) \<and> 0 < numLanes E (VF S) \<longrightarrow>
                 (\<exists>vs. length vs = L \<and>
                    (\<forall>p < L. valueOf E (Fn S') (if p = 0 then ?SV else ?ID) = Some (vs ! p)) \<and>
                    sum_list (map laneSum vs) = s))"
      using sum by blast
    show ?thesis
      apply (rule exI [of _ S'], rule exI [of _ "?SV"], rule exI [of _ "?ID"])
      apply (intro conjI)
            apply (rule run)
           apply (rule res)
          apply (rule cA)
         apply (rule cB)
        apply (rule cC)
       apply (rule cD)
      apply (rule cS)
      done
  qed
qed

text \<open>
  C3 (as amended). A reduction-phi recipe is executed: its underlying value is a phi \<open>PN\<close>,
  the state stands in the header of the vector loop, the header has a first insertion
  point, the preheader is another block with a terminator, the emitter does not stand in
  the preheader, the start value is a live-in \<open>SV\<close>, and the kind, unless it is a min/max or
  select-compare kind, has the identity \<open>Iden0\<close>. Write \<open>ScalarPHI\<close> for "the width is scalar
  or the reduction is in-loop" and \<open>L\<close> for the number of phis (one for an ordered
  reduction, else one per stream). Then the execution succeeds and every stream below \<open>L\<close>
  has in the cache a new phi of the type \<open>VecTy\<close>, with one incoming value on the edge from
  the preheader: \<open>SV'\<close> for the stream 0 and \<open>ID\<close> for every other stream, where
  \<^item> for a min/max or select-compare kind and a scalar phi, both are the start value;
  \<^item> for a min/max or select-compare kind and a vector phi, both are one broadcast of the
    start value;
  \<^item> for another kind and a scalar phi, \<open>SV'\<close> is the start value and \<open>ID\<close> the identity of the
    kind;
  \<^item> for another kind and a vector phi, \<open>ID\<close> is a broadcast of the identity of the kind and
    \<open>SV'\<close> the insertion of the start value into \<open>ID\<close> at lane 0: all lanes of \<open>ID\<close> and all
    lanes but lane 0 of \<open>SV'\<close> hold the identity, lane 0 of \<open>SV'\<close> holds the start value;
  \<^item> for the additive kind, the seeds of all phis add up to the start value.
\<close>

theorem C3_reduction_phi_seeds:
  assumes "ScalarPHI = (isScalar (VF S) \<or> RP_IsInLoop this)"
    and "L = (if isOrdered this then 1 else UF S)"
    and "VecTy = (if ScalarPHI then SI_Type PN else VectorTy (SI_Type PN) (VF S))"
    and "RP_UnderlyingValue this = Some PN" and "SI_Opcode PN = PHI"
    and "CurrentVectorLoopHeader S = PrevBB S"
    and "getFirstInsertionPt (Fn S) (PrevBB S) = Some IP" and "IP < length (Insts (Fn S))"
    and "getTerminator (Fn S) (PreheaderBB S) = Some T"
    and "PreheaderBB S \<noteq> PrevBB S"
    and "InsertBlock (Builder S) \<noteq> PreheaderBB S"
    and "getLiveInIRValue (RP_StartValue this) = Inr (Some SV)"
    and "(isMinMaxRecurrenceKind (getRecurrenceKind (RP_RdxDesc this)) \<or> isSelectCmpRecurrenceKind (getRecurrenceKind (RP_RdxDesc this))) \<or>
               getRecurrenceIdentity (getRecurrenceKind (RP_RdxDesc this)) (getScalarType VecTy)
                 (getFastMathFlags (RP_RdxDesc this)) = Inr Iden0"
  shows "\<exists>S' SV' ID. VPReductionPHIRecipe_execute this S = Inr S' \<and>
           (\<forall>p < L. PerPartOutput S' (RP_Def this, p) =
                       Some (InstructionVal (length (Insts (Fn S)) + p) VecTy) \<and>
                     length (Insts (Fn S)) + p < length (Insts (Fn S')) \<and>
                     Operation (Insts (Fn S') ! (length (Insts (Fn S)) + p)) = PHIOp \<and>
                     Incoming (Insts (Fn S') ! (length (Insts (Fn S)) + p)) =
                       [(if p = 0 then SV' else ID, PreheaderBB S)]) \<and>
           ((isMinMaxRecurrenceKind (getRecurrenceKind (RP_RdxDesc this)) \<or> isSelectCmpRecurrenceKind (getRecurrenceKind (RP_RdxDesc this))) \<and> ScalarPHI \<longrightarrow> SV' = SV \<and> ID = SV) \<and>
           ((isMinMaxRecurrenceKind (getRecurrenceKind (RP_RdxDesc this)) \<or> isSelectCmpRecurrenceKind (getRecurrenceKind (RP_RdxDesc this))) \<and> \<not> ScalarPHI \<longrightarrow>
              SV' = ID \<and>
              (\<exists>a. ID = InstructionVal a (VectorTy (getType SV) (VF S)) \<and>
                   a < length (Insts (Fn S')) \<and>
                   Operation (Insts (Fn S') ! a) = VectorSplatOp \<and>
                   Operands (Insts (Fn S') ! a) = [SV]) \<and>
              (\<forall>E s. valueOf E (Fn S) SV = Some (Scalar s) \<longrightarrow>
                     valueOf E (Fn S') ID = Some (Lanes (replicate (numLanes E (VF S)) s)))) \<and>
           (\<not> (isMinMaxRecurrenceKind (getRecurrenceKind (RP_RdxDesc this)) \<or> isSelectCmpRecurrenceKind (getRecurrenceKind (RP_RdxDesc this))) \<and> ScalarPHI \<longrightarrow> SV' = SV \<and> ID = Iden0) \<and>
           (\<not> (isMinMaxRecurrenceKind (getRecurrenceKind (RP_RdxDesc this)) \<or> isSelectCmpRecurrenceKind (getRecurrenceKind (RP_RdxDesc this))) \<and> \<not> ScalarPHI \<longrightarrow>
              (\<exists>a b. ID = InstructionVal a (VectorTy (getType Iden0) (VF S)) \<and>
                     SV' = InstructionVal b (VectorTy (getType Iden0) (VF S)) \<and>
                     a < length (Insts (Fn S')) \<and> b < length (Insts (Fn S')) \<and>
                     Operation (Insts (Fn S') ! a) = VectorSplatOp \<and>
                     Operands (Insts (Fn S') ! a) = [Iden0] \<and>
                     Operation (Insts (Fn S') ! b) = InsertElementOp \<and>
                     Operands (Insts (Fn S') ! b) = [ID, SV, ConstantIntVal (ConstantInt_get 32 0)]) \<and>
              (\<forall>E s i. valueOf E (Fn S) SV = Some (Scalar s) \<and>
                       valueOf E (Fn S) Iden0 = Some (Scalar i) \<and> 0 < numLanes E (VF S) \<longrightarrow>
                     valueOf E (Fn S') ID = Some (Lanes (replicate (numLanes E (VF S)) i)) \<and>
                     valueOf E (Fn S') SV' =
                       Some (Lanes ((replicate (numLanes E (VF S)) i)[0 := s])))) \<and>
           (getRecurrenceKind (RP_RdxDesc this) = RecurKind_Add \<and> 0 < L \<longrightarrow>
              (\<forall>E s. valueOf E (Fn S) SV = Some (Scalar s) \<and> 0 < numLanes E (VF S) \<longrightarrow>
                 (\<exists>vs. length vs = L \<and>
                    (\<forall>p < L. valueOf E (Fn S') (if p = 0 then SV' else ID) = Some (vs ! p)) \<and>
                    sum_list (map laneSum vs) = s)))"
  using assms by (rule VPReductionPHIRecipe_execute_seeds)

lemma exampleReductionPHI_Add_hyps:
  "False = (isScalar (VF exampleState) \<or> RP_IsInLoop (exampleReductionPHI RecurKind_Add False))"
  "2 = (if isOrdered (exampleReductionPHI RecurKind_Add False) then 1 else UF exampleState)"
  "(VectorTy (IntegerTy 32) (ElementCount 4 False)) = (if False then SI_Type exampleScalarPHI else VectorTy (SI_Type exampleScalarPHI) (VF exampleState))"
  "RP_UnderlyingValue (exampleReductionPHI RecurKind_Add False) = Some exampleScalarPHI"
  "SI_Opcode exampleScalarPHI = PHI"
  "CurrentVectorLoopHeader exampleState = PrevBB exampleState"
  "getFirstInsertionPt (Fn exampleState) (PrevBB exampleState) = Some 1"
  "1 < length (Insts (Fn exampleState))"
  "getTerminator (Fn exampleState) (PreheaderBB exampleState) = Some 2"
  "PreheaderBB exampleState \<noteq> PrevBB exampleState"
  "InsertBlock (Builder exampleState) \<noteq> PreheaderBB exampleState"
  "getLiveInIRValue (RP_StartValue (exampleReductionPHI RecurKind_Add False)) = Inr (Some (ConstantIntVal (ConstantInt 32 10)))"
  "(isMinMaxRecurrenceKind (getRecurrenceKind (RP_RdxDesc (exampleReductionPHI RecurKind_Add False))) \<or> isSelectCmpRecurrenceKind (getRecurrenceKind (RP_RdxDesc (exampleReductionPHI RecurKind_Add False)))) \<or> getRecurrenceIdentity (getRecurrenceKind (RP_RdxDesc (exampleReductionPHI RecurKind_Add False))) (getScalarType (VectorTy (IntegerTy 32) (ElementCount 4 False))) (getFastMathFlags (RP_RdxDesc (exampleReductionPHI RecurKind_Add False))) = Inr (ConstantIntVal (ConstantInt_get 32 0))"
  by (simp_all add: exampleReductionPHI_def exampleScalarPHI_def exampleState_def
      exampleFunction_def exampleBuilder_def isScalar_def isOrdered_def getFirstInsertionPt_def
      isPHI_def getTerminator_def getLiveInIRValue_def newInstruction_def
      getRecurrenceIdentity_def)

lemma replicate_4: "replicate 4 x = [x, x, x, x]"
  by (simp add: eval_nat_numeral)

theorem C3_reduction_phi_seeds_witness:
  "\<exists>S' SV' ID.
     VPReductionPHIRecipe_execute (exampleReductionPHI RecurKind_Add False) exampleState = Inr S' \<and>
     PerPartOutput S' (2, 0) = Some (InstructionVal 3 (VectorTy (IntegerTy 32) (ElementCount 4 False))) \<and>
     PerPartOutput S' (2, 1) = Some (InstructionVal 4 (VectorTy (IntegerTy 32) (ElementCount 4 False))) \<and>
     Incoming (Insts (Fn S') ! 3) = [(SV', 1)] \<and>
     Incoming (Insts (Fn S') ! 4) = [(ID, 1)] \<and>
     valueOf exampleRunTime (Fn S') SV' = Some (Lanes [10, 0, 0, 0]) \<and>
     valueOf exampleRunTime (Fn S') ID = Some (Lanes [0, 0, 0, 0])"
proof -
  from C3_reduction_phi_seeds [OF exampleReductionPHI_Add_hyps]
  obtain S' where "\<exists>SV' ID. VPReductionPHIRecipe_execute (exampleReductionPHI RecurKind_Add False) exampleState = Inr S' \<and>
           (\<forall>p < 2. PerPartOutput S' (RP_Def (exampleReductionPHI RecurKind_Add False), p) =
                       Some (InstructionVal (length (Insts (Fn exampleState)) + p) (VectorTy (IntegerTy 32) (ElementCount 4 False))) \<and>
                     length (Insts (Fn exampleState)) + p < length (Insts (Fn S')) \<and>
                     Operation (Insts (Fn S') ! (length (Insts (Fn exampleState)) + p)) = PHIOp \<and>
                     Incoming (Insts (Fn S') ! (length (Insts (Fn exampleState)) + p)) =
                       [(if p = 0 then SV' else ID, PreheaderBB exampleState)]) \<and>
           ((isMinMaxRecurrenceKind (getRecurrenceKind (RP_RdxDesc (exampleReductionPHI RecurKind_Add False))) \<or> isSelectCmpRecurrenceKind (getRecurrenceKind (RP_RdxDesc (exampleReductionPHI RecurKind_Add False)))) \<and> False \<longrightarrow> SV' = (ConstantIntVal (ConstantInt 32 10)) \<and> ID = (ConstantIntVal (ConstantInt 32 10))) \<and>
           ((isMinMaxRecurrenceKind (getRecurrenceKind (RP_RdxDesc (exampleReductionPHI RecurKind_Add False))) \<or> isSelectCmpRecurrenceKind (getRecurrenceKind (RP_RdxDesc (exampleReductionPHI RecurKind_Add False)))) \<and> \<not> False \<longrightarrow>
              SV' = ID \<and>
              (\<exists>a. ID = InstructionVal a (VectorTy (getType (ConstantIntVal (ConstantInt 32 10))) (VF exampleState)) \<and>
                   a < length (Insts (Fn S')) \<and>
                   Operation (Insts (Fn S') ! a) = VectorSplatOp \<and>
                   Operands (Insts (Fn S') ! a) = [(ConstantIntVal (ConstantInt 32 10))]) \<and>
              (\<forall>E s. valueOf E (Fn exampleState) (ConstantIntVal (ConstantInt 32 10)) = Some (Scalar s) \<longrightarrow>
                     valueOf E (Fn S') ID = Some (Lanes (replicate (numLanes E (VF exampleState)) s)))) \<and>
           (\<not> (isMinMaxRecurrenceKind (getRecurrenceKind (RP_RdxDesc (exampleReductionPHI RecurKind_Add False))) \<or> isSelectCmpRecurrenceKind (getRecurrenceKind (RP_RdxDesc (exampleReductionPHI RecurKind_Add False)))) \<and> False \<longrightarrow> SV' = (ConstantIntVal (ConstantInt 32 10)) \<and> ID = (ConstantIntVal (ConstantInt_get 32 0))) \<and>
           (\<not> (isMinMaxRecurrenceKind (getRecurrenceKind (RP_RdxDesc (exampleReductionPHI RecurKind_Add False))) \<or> isSelectCmpRecurrenceKind (getRecurrenceKind (RP_RdxDesc (exampleReductionPHI RecurKind_Add False)))) \<and> \<not> False \<longrightarrow>
              (\<exists>a b. ID = InstructionVal a (VectorTy (getType (ConstantIntVal (ConstantInt_get 32 0))) (VF exampleState)) \<and>
                     SV' = InstructionVal b (VectorTy (getType (ConstantIntVal (ConstantInt_get 32 0))) (VF exampleState)) \<and>
                     a < length (Insts (Fn S')) \<and> b < length (Insts (Fn S')) \<and>
                     Operation (Insts (Fn S') ! a) = VectorSplatOp \<and>
                     Operands (Insts (Fn S') ! a) = [(ConstantIntVal (ConstantInt_get 32 0))] \<and>
                     Operation (Insts (Fn S') ! b) = InsertElementOp \<and>
                     Operands (Insts (Fn S') ! b) = [ID, (ConstantIntVal (ConstantInt 32 10)), ConstantIntVal (ConstantInt_get 32 0)]) \<and>
              (\<forall>E s i. valueOf E (Fn exampleState) (ConstantIntVal (ConstantInt 32 10)) = Some (Scalar s) \<and>
                       valueOf E (Fn exampleState) (ConstantIntVal (ConstantInt_get 32 0)) = Some (Scalar i) \<and> 0 < numLanes E (VF exampleState) \<longrightarrow>
                     valueOf E (Fn S') ID = Some (Lanes (replicate (numLanes E (VF exampleState)) i)) \<and>
                     valueOf E (Fn S') SV' =
                       Some (Lanes ((replicate (numLanes E (VF exampleState)) i)[0 := s])))) \<and>
           (getRecurrenceKind (RP_RdxDesc (exampleReductionPHI RecurKind_Add False)) = RecurKind_Add \<and> 0 < (2::nat) \<longrightarrow>
              (\<forall>E s. valueOf E (Fn exampleState) (ConstantIntVal (ConstantInt 32 10)) = Some (Scalar s) \<and> 0 < numLanes E (VF exampleState) \<longrightarrow>
                 (\<exists>vs. length vs = 2 \<and>
                    (\<forall>p < 2. valueOf E (Fn S') (if p = 0 then SV' else ID) = Some (vs ! p)) \<and>
                    sum_list (map laneSum vs) = s)))" ..
  then obtain SV' where "\<exists>ID. VPReductionPHIRecipe_execute (exampleReductionPHI RecurKind_Add False) exampleState = Inr S' \<and>
           (\<forall>p < 2. PerPartOutput S' (RP_Def (exampleReductionPHI RecurKind_Add False), p) =
                       Some (InstructionVal (length (Insts (Fn exampleState)) + p) (VectorTy (IntegerTy 32) (ElementCount 4 False))) \<and>
                     length (Insts (Fn exampleState)) + p < length (Insts (Fn S')) \<and>
                     Operation (Insts (Fn S') ! (length (Insts (Fn exampleState)) + p)) = PHIOp \<and>
                     Incoming (Insts (Fn S') ! (length (Insts (Fn exampleState)) + p)) =
                       [(if p = 0 then SV' else ID, PreheaderBB exampleState)]) \<and>
           ((isMinMaxRecurrenceKind (getRecurrenceKind (RP_RdxDesc (exampleReductionPHI RecurKind_Add False))) \<or> isSelectCmpRecurrenceKind (getRecurrenceKind (RP_RdxDesc (exampleReductionPHI RecurKind_Add False)))) \<and> False \<longrightarrow> SV' = (ConstantIntVal (ConstantInt 32 10)) \<and> ID = (ConstantIntVal (ConstantInt 32 10))) \<and>
           ((isMinMaxRecurrenceKind (getRecurrenceKind (RP_RdxDesc (exampleReductionPHI RecurKind_Add False))) \<or> isSelectCmpRecurrenceKind (getRecurrenceKind (RP_RdxDesc (exampleReductionPHI RecurKind_Add False)))) \<and> \<not> False \<longrightarrow>
              SV' = ID \<and>
              (\<exists>a. ID = InstructionVal a (VectorTy (getType (ConstantIntVal (ConstantInt 32 10))) (VF exampleState)) \<and>
                   a < length (Insts (Fn S')) \<and>
                   Operation (Insts (Fn S') ! a) = VectorSplatOp \<and>
                   Operands (Insts (Fn S') ! a) = [(ConstantIntVal (ConstantInt 32 10))]) \<and>
              (\<forall>E s. valueOf E (Fn exampleState) (ConstantIntVal (ConstantInt 32 10)) = Some (Scalar s) \<longrightarrow>
                     valueOf E (Fn S') ID = Some (Lanes (replicate (numLanes E (VF exampleState)) s)))) \<and>
           (\<not> (isMinMaxRecurrenceKind (getRecurrenceKind (RP_RdxDesc (exampleReductionPHI RecurKind_Add False))) \<or> isSelectCmpRecurrenceKind (getRecurrenceKind (RP_RdxDesc (exampleReductionPHI RecurKind_Add False)))) \<and> False \<longrightarrow> SV' = (ConstantIntVal (ConstantInt 32 10)) \<and> ID = (ConstantIntVal (ConstantInt_get 32 0))) \<and>
           (\<not> (isMinMaxRecurrenceKind (getRecurrenceKind (RP_RdxDesc (exampleReductionPHI RecurKind_Add False))) \<or> isSelectCmpRecurrenceKind (getRecurrenceKind (RP_RdxDesc (exampleReductionPHI RecurKind_Add False)))) \<and> \<not> False \<longrightarrow>
              (\<exists>a b. ID = InstructionVal a (VectorTy (getType (ConstantIntVal (ConstantInt_get 32 0))) (VF exampleState)) \<and>
                     SV' = InstructionVal b (VectorTy (getType (ConstantIntVal (ConstantInt_get 32 0))) (VF exampleState)) \<and>
                     a < length (Insts (Fn S')) \<and> b < length (Insts (Fn S')) \<and>
                     Operation (Insts (Fn S') ! a) = VectorSplatOp \<and>
                     Operands (Insts (Fn S') ! a) = [(ConstantIntVal (ConstantInt_get 32 0))] \<and>
                     Operation (Insts (Fn S') ! b) = InsertElementOp \<and>
                     Operands (Insts (Fn S') ! b) = [ID, (ConstantIntVal (ConstantInt 32 10)), ConstantIntVal (ConstantInt_get 32 0)]) \<and>
              (\<forall>E s i. valueOf E (Fn exampleState) (ConstantIntVal (ConstantInt 32 10)) = Some (Scalar s) \<and>
                       valueOf E (Fn exampleState) (ConstantIntVal (ConstantInt_get 32 0)) = Some (Scalar i) \<and> 0 < numLanes E (VF exampleState) \<longrightarrow>
                     valueOf E (Fn S') ID = Some (Lanes (replicate (numLanes E (VF exampleState)) i)) \<and>
                     valueOf E (Fn S') SV' =
                       Some (Lanes ((replicate (numLanes E (VF exampleState)) i)[0 := s])))) \<and>
           (getRecurrenceKind (RP_RdxDesc (exampleReductionPHI RecurKind_Add False)) = RecurKind_Add \<and> 0 < (2::nat) \<longrightarrow>
              (\<forall>E s. valueOf E (Fn exampleState) (ConstantIntVal (ConstantInt 32 10)) = Some (Scalar s) \<and> 0 < numLanes E (VF exampleState) \<longrightarrow>
                 (\<exists>vs. length vs = 2 \<and>
                    (\<forall>p < 2. valueOf E (Fn S') (if p = 0 then SV' else ID) = Some (vs ! p)) \<and>
                    sum_list (map laneSum vs) = s)))" ..
  then obtain ID where big: "VPReductionPHIRecipe_execute (exampleReductionPHI RecurKind_Add False) exampleState = Inr S' \<and>
           (\<forall>p < 2. PerPartOutput S' (RP_Def (exampleReductionPHI RecurKind_Add False), p) =
                       Some (InstructionVal (length (Insts (Fn exampleState)) + p) (VectorTy (IntegerTy 32) (ElementCount 4 False))) \<and>
                     length (Insts (Fn exampleState)) + p < length (Insts (Fn S')) \<and>
                     Operation (Insts (Fn S') ! (length (Insts (Fn exampleState)) + p)) = PHIOp \<and>
                     Incoming (Insts (Fn S') ! (length (Insts (Fn exampleState)) + p)) =
                       [(if p = 0 then SV' else ID, PreheaderBB exampleState)]) \<and>
           ((isMinMaxRecurrenceKind (getRecurrenceKind (RP_RdxDesc (exampleReductionPHI RecurKind_Add False))) \<or> isSelectCmpRecurrenceKind (getRecurrenceKind (RP_RdxDesc (exampleReductionPHI RecurKind_Add False)))) \<and> False \<longrightarrow> SV' = (ConstantIntVal (ConstantInt 32 10)) \<and> ID = (ConstantIntVal (ConstantInt 32 10))) \<and>
           ((isMinMaxRecurrenceKind (getRecurrenceKind (RP_RdxDesc (exampleReductionPHI RecurKind_Add False))) \<or> isSelectCmpRecurrenceKind (getRecurrenceKind (RP_RdxDesc (exampleReductionPHI RecurKind_Add False)))) \<and> \<not> False \<longrightarrow>
              SV' = ID \<and>
              (\<exists>a. ID = InstructionVal a (VectorTy (getType (ConstantIntVal (ConstantInt 32 10))) (VF exampleState)) \<and>
                   a < length (Insts (Fn S')) \<and>
                   Operation (Insts (Fn S') ! a) = VectorSplatOp \<and>
                   Operands (Insts (Fn S') ! a) = [(ConstantIntVal (ConstantInt 32 10))]) \<and>
              (\<forall>E s. valueOf E (Fn exampleState) (ConstantIntVal (ConstantInt 32 10)) = Some (Scalar s) \<longrightarrow>
                     valueOf E (Fn S') ID = Some (Lanes (replicate (numLanes E (VF exampleState)) s)))) \<and>
           (\<not> (isMinMaxRecurrenceKind (getRecurrenceKind (RP_RdxDesc (exampleReductionPHI RecurKind_Add False))) \<or> isSelectCmpRecurrenceKind (getRecurrenceKind (RP_RdxDesc (exampleReductionPHI RecurKind_Add False)))) \<and> False \<longrightarrow> SV' = (ConstantIntVal (ConstantInt 32 10)) \<and> ID = (ConstantIntVal (ConstantInt_get 32 0))) \<and>
           (\<not> (isMinMaxRecurrenceKind (getRecurrenceKind (RP_RdxDesc (exampleReductionPHI RecurKind_Add False))) \<or> isSelectCmpRecurrenceKind (getRecurrenceKind (RP_RdxDesc (exampleReductionPHI RecurKind_Add False)))) \<and> \<not> False \<longrightarrow>
              (\<exists>a b. ID = InstructionVal a (VectorTy (getType (ConstantIntVal (ConstantInt_get 32 0))) (VF exampleState)) \<and>
                     SV' = InstructionVal b (VectorTy (getType (ConstantIntVal (ConstantInt_get 32 0))) (VF exampleState)) \<and>
                     a < length (Insts (Fn S')) \<and> b < length (Insts (Fn S')) \<and>
                     Operation (Insts (Fn S') ! a) = VectorSplatOp \<and>
                     Operands (Insts (Fn S') ! a) = [(ConstantIntVal (ConstantInt_get 32 0))] \<and>
                     Operation (Insts (Fn S') ! b) = InsertElementOp \<and>
                     Operands (Insts (Fn S') ! b) = [ID, (ConstantIntVal (ConstantInt 32 10)), ConstantIntVal (ConstantInt_get 32 0)]) \<and>
              (\<forall>E s i. valueOf E (Fn exampleState) (ConstantIntVal (ConstantInt 32 10)) = Some (Scalar s) \<and>
                       valueOf E (Fn exampleState) (ConstantIntVal (ConstantInt_get 32 0)) = Some (Scalar i) \<and> 0 < numLanes E (VF exampleState) \<longrightarrow>
                     valueOf E (Fn S') ID = Some (Lanes (replicate (numLanes E (VF exampleState)) i)) \<and>
                     valueOf E (Fn S') SV' =
                       Some (Lanes ((replicate (numLanes E (VF exampleState)) i)[0 := s])))) \<and>
           (getRecurrenceKind (RP_RdxDesc (exampleReductionPHI RecurKind_Add False)) = RecurKind_Add \<and> 0 < (2::nat) \<longrightarrow>
              (\<forall>E s. valueOf E (Fn exampleState) (ConstantIntVal (ConstantInt 32 10)) = Some (Scalar s) \<and> 0 < numLanes E (VF exampleState) \<longrightarrow>
                 (\<exists>vs. length vs = 2 \<and>
                    (\<forall>p < 2. valueOf E (Fn S') (if p = 0 then SV' else ID) = Some (vs ! p)) \<and>
                    sum_list (map laneSum vs) = s)))" ..
  note run = big [THEN conjunct1]
  note res = big [THEN conjunct2, THEN conjunct1, rule_format]
  note cD = big [THEN conjunct2, THEN conjunct2, THEN conjunct2, THEN conjunct2, THEN conjunct2,
      THEN conjunct1]
  have nmm: "\<not> (isMinMaxRecurrenceKind (getRecurrenceKind (RP_RdxDesc (exampleReductionPHI RecurKind_Add False))) \<or> isSelectCmpRecurrenceKind (getRecurrenceKind (RP_RdxDesc (exampleReductionPHI RecurKind_Add False)))) \<and> \<not> False"
    by (simp add: exampleReductionPHI_def)
  note vals = cD [THEN mp, OF nmm, THEN conjunct2, rule_format]
  have pre: "valueOf exampleRunTime (Fn exampleState) (ConstantIntVal (ConstantInt 32 10)) = Some (Scalar 10) \<and>
             valueOf exampleRunTime (Fn exampleState) (ConstantIntVal (ConstantInt_get 32 0)) = Some (Scalar 0) \<and>
             0 < numLanes exampleRunTime (VF exampleState)"
    by (simp add: valueOf_def exampleState_def numLanes_def ConstantInt_get_def)
  have W: "numLanes exampleRunTime (VF exampleState) = 4"
    by (simp add: exampleState_def numLanes_def)
  from vals [OF pre]
  have v: "valueOf exampleRunTime (Fn S') SV' = Some (Lanes [10, 0, 0, 0])"
    "valueOf exampleRunTime (Fn S') ID = Some (Lanes [0, 0, 0, 0])"
    unfolding W replicate_4 by simp_all
  have n: "length (Insts (Fn exampleState)) = 3" "PreheaderBB exampleState = 1"
    by (simp_all add: exampleState_def exampleFunction_def)
  have r0: "PerPartOutput S' (2, 0) = Some (InstructionVal 3 (VectorTy (IntegerTy 32) (ElementCount 4 False)))"
    "Incoming (Insts (Fn S') ! 3) = [(SV', 1)]"
    using res [of 0] unfolding n by (simp_all add: exampleReductionPHI_def)
  have r1: "PerPartOutput S' (2, 1) = Some (InstructionVal 4 (VectorTy (IntegerTy 32) (ElementCount 4 False)))"
    "Incoming (Insts (Fn S') ! 4) = [(ID, 1)]"
    using res [of 1] unfolding n by (simp_all add: exampleReductionPHI_def)
  from run r0 r1 v show ?thesis
    by blast
qed

text \<open>
  C3 as stated fails for an in-loop reduction: at the width 4, with two streams, the phis of
  an in-loop maximum reduction that starts at 10 are scalars, and both are seeded with the
  scalar start value itself: the start value is neither combined into a vector for the
  stream 0 nor broadcast for the stream 1.
\<close>

lemma exampleReductionPHI_SMax_in_loop_hyps:
  "True = (isScalar (VF exampleState) \<or> RP_IsInLoop (exampleReductionPHI RecurKind_SMax True))"
  "2 = (if isOrdered (exampleReductionPHI RecurKind_SMax True) then 1 else UF exampleState)"
  "(IntegerTy 32) = (if True then SI_Type exampleScalarPHI else VectorTy (SI_Type exampleScalarPHI) (VF exampleState))"
  "RP_UnderlyingValue (exampleReductionPHI RecurKind_SMax True) = Some exampleScalarPHI"
  "SI_Opcode exampleScalarPHI = PHI"
  "CurrentVectorLoopHeader exampleState = PrevBB exampleState"
  "getFirstInsertionPt (Fn exampleState) (PrevBB exampleState) = Some 1"
  "1 < length (Insts (Fn exampleState))"
  "getTerminator (Fn exampleState) (PreheaderBB exampleState) = Some 2"
  "PreheaderBB exampleState \<noteq> PrevBB exampleState"
  "InsertBlock (Builder exampleState) \<noteq> PreheaderBB exampleState"
  "getLiveInIRValue (RP_StartValue (exampleReductionPHI RecurKind_SMax True)) = Inr (Some (ConstantIntVal (ConstantInt 32 10)))"
  "(isMinMaxRecurrenceKind (getRecurrenceKind (RP_RdxDesc (exampleReductionPHI RecurKind_SMax True))) \<or> isSelectCmpRecurrenceKind (getRecurrenceKind (RP_RdxDesc (exampleReductionPHI RecurKind_SMax True)))) \<or> getRecurrenceIdentity (getRecurrenceKind (RP_RdxDesc (exampleReductionPHI RecurKind_SMax True))) (getScalarType (IntegerTy 32)) (getFastMathFlags (RP_RdxDesc (exampleReductionPHI RecurKind_SMax True))) = Inr (ConstantIntVal (ConstantInt 32 10))"
  by (simp_all add: exampleReductionPHI_def exampleScalarPHI_def exampleState_def
      exampleFunction_def exampleBuilder_def isScalar_def isOrdered_def getFirstInsertionPt_def
      isPHI_def getTerminator_def getLiveInIRValue_def newInstruction_def
      getRecurrenceIdentity_def)

theorem C3_in_loop_counterexample:
  "\<exists>S'.
     VPReductionPHIRecipe_execute (exampleReductionPHI RecurKind_SMax True) exampleState = Inr S' \<and>
     isVector (VF exampleState) \<and> UF exampleState = 2 \<and>
     PerPartOutput S' (2, 0) = Some (InstructionVal 3 (IntegerTy 32)) \<and>
     PerPartOutput S' (2, 1) = Some (InstructionVal 4 (IntegerTy 32)) \<and>
     isVectorTy (IntegerTy 32) = False \<and>
     Incoming (Insts (Fn S') ! 3) = [(ConstantIntVal (ConstantInt 32 10), 1)] \<and>
     Incoming (Insts (Fn S') ! 4) = [(ConstantIntVal (ConstantInt 32 10), 1)] \<and>
     valueOf exampleRunTime (Fn S') (ConstantIntVal (ConstantInt 32 10)) = Some (Scalar 10) \<and>
     valueOf exampleRunTime (Fn S') (ConstantIntVal (ConstantInt 32 10)) \<noteq>
       Some (Lanes [10, 10, 10, 10])"
proof -
  from VPReductionPHIRecipe_execute_seeds [OF exampleReductionPHI_SMax_in_loop_hyps]
  obtain S' where "\<exists>SV' ID. VPReductionPHIRecipe_execute (exampleReductionPHI RecurKind_SMax True) exampleState = Inr S' \<and>
           (\<forall>p < 2. PerPartOutput S' (RP_Def (exampleReductionPHI RecurKind_SMax True), p) =
                       Some (InstructionVal (length (Insts (Fn exampleState)) + p) (IntegerTy 32)) \<and>
                     length (Insts (Fn exampleState)) + p < length (Insts (Fn S')) \<and>
                     Operation (Insts (Fn S') ! (length (Insts (Fn exampleState)) + p)) = PHIOp \<and>
                     Incoming (Insts (Fn S') ! (length (Insts (Fn exampleState)) + p)) =
                       [(if p = 0 then SV' else ID, PreheaderBB exampleState)]) \<and>
           ((isMinMaxRecurrenceKind (getRecurrenceKind (RP_RdxDesc (exampleReductionPHI RecurKind_SMax True))) \<or> isSelectCmpRecurrenceKind (getRecurrenceKind (RP_RdxDesc (exampleReductionPHI RecurKind_SMax True)))) \<and> True \<longrightarrow> SV' = (ConstantIntVal (ConstantInt 32 10)) \<and> ID = (ConstantIntVal (ConstantInt 32 10))) \<and>
           ((isMinMaxRecurrenceKind (getRecurrenceKind (RP_RdxDesc (exampleReductionPHI RecurKind_SMax True))) \<or> isSelectCmpRecurrenceKind (getRecurrenceKind (RP_RdxDesc (exampleReductionPHI RecurKind_SMax True)))) \<and> \<not> True \<longrightarrow>
              SV' = ID \<and>
              (\<exists>a. ID = InstructionVal a (VectorTy (getType (ConstantIntVal (ConstantInt 32 10))) (VF exampleState)) \<and>
                   a < length (Insts (Fn S')) \<and>
                   Operation (Insts (Fn S') ! a) = VectorSplatOp \<and>
                   Operands (Insts (Fn S') ! a) = [(ConstantIntVal (ConstantInt 32 10))]) \<and>
              (\<forall>E s. valueOf E (Fn exampleState) (ConstantIntVal (ConstantInt 32 10)) = Some (Scalar s) \<longrightarrow>
                     valueOf E (Fn S') ID = Some (Lanes (replicate (numLanes E (VF exampleState)) s)))) \<and>
           (\<not> (isMinMaxRecurrenceKind (getRecurrenceKind (RP_RdxDesc (exampleReductionPHI RecurKind_SMax True))) \<or> isSelectCmpRecurrenceKind (getRecurrenceKind (RP_RdxDesc (exampleReductionPHI RecurKind_SMax True)))) \<and> True \<longrightarrow> SV' = (ConstantIntVal (ConstantInt 32 10)) \<and> ID = (ConstantIntVal (ConstantInt 32 10))) \<and>
           (\<not> (isMinMaxRecurrenceKind (getRecurrenceKind (RP_RdxDesc (exampleReductionPHI RecurKind_SMax True))) \<or> isSelectCmpRecurrenceKind (getRecurrenceKind (RP_RdxDesc (exampleReductionPHI RecurKind_SMax True)))) \<and> \<not> True \<longrightarrow>
              (\<exists>a b. ID = InstructionVal a (VectorTy (getType (ConstantIntVal (ConstantInt 32 10))) (VF exampleState)) \<and>
                     SV' = InstructionVal b (VectorTy (getType (ConstantIntVal (ConstantInt 32 10))) (VF exampleState)) \<and>
                     a < length (Insts (Fn S')) \<and> b < length (Insts (Fn S')) \<and>
                     Operation (Insts (Fn S') ! a) = VectorSplatOp \<and>
                     Operands (Insts (Fn S') ! a) = [(ConstantIntVal (ConstantInt 32 10))] \<and>
                     Operation (Insts (Fn S') ! b) = InsertElementOp \<and>
                     Operands (Insts (Fn S') ! b) = [ID, (ConstantIntVal (ConstantInt 32 10)), ConstantIntVal (ConstantInt_get 32 0)]) \<and>
              (\<forall>E s i. valueOf E (Fn exampleState) (ConstantIntVal (ConstantInt 32 10)) = Some (Scalar s) \<and>
                       valueOf E (Fn exampleState) (ConstantIntVal (ConstantInt 32 10)) = Some (Scalar i) \<and> 0 < numLanes E (VF exampleState) \<longrightarrow>
                     valueOf E (Fn S') ID = Some (Lanes (replicate (numLanes E (VF exampleState)) i)) \<and>
                     valueOf E (Fn S') SV' =
                       Some (Lanes ((replicate (numLanes E (VF exampleState)) i)[0 := s])))) \<and>
           (getRecurrenceKind (RP_RdxDesc (exampleReductionPHI RecurKind_SMax True)) = RecurKind_Add \<and> 0 < (2::nat) \<longrightarrow>
              (\<forall>E s. valueOf E (Fn exampleState) (ConstantIntVal (ConstantInt 32 10)) = Some (Scalar s) \<and> 0 < numLanes E (VF exampleState) \<longrightarrow>
                 (\<exists>vs. length vs = 2 \<and>
                    (\<forall>p < 2. valueOf E (Fn S') (if p = 0 then SV' else ID) = Some (vs ! p)) \<and>
                    sum_list (map laneSum vs) = s)))" ..
  then obtain SV' where "\<exists>ID. VPReductionPHIRecipe_execute (exampleReductionPHI RecurKind_SMax True) exampleState = Inr S' \<and>
           (\<forall>p < 2. PerPartOutput S' (RP_Def (exampleReductionPHI RecurKind_SMax True), p) =
                       Some (InstructionVal (length (Insts (Fn exampleState)) + p) (IntegerTy 32)) \<and>
                     length (Insts (Fn exampleState)) + p < length (Insts (Fn S')) \<and>
                     Operation (Insts (Fn S') ! (length (Insts (Fn exampleState)) + p)) = PHIOp \<and>
                     Incoming (Insts (Fn S') ! (length (Insts (Fn exampleState)) + p)) =
                       [(if p = 0 then SV' else ID, PreheaderBB exampleState)]) \<and>
           ((isMinMaxRecurrenceKind (getRecurrenceKind (RP_RdxDesc (exampleReductionPHI RecurKind_SMax True))) \<or> isSelectCmpRecurrenceKind (getRecurrenceKind (RP_RdxDesc (exampleReductionPHI RecurKind_SMax True)))) \<and> True \<longrightarrow> SV' = (ConstantIntVal (ConstantInt 32 10)) \<and> ID = (ConstantIntVal (ConstantInt 32 10))) \<and>
           ((isMinMaxRecurrenceKind (getRecurrenceKind (RP_RdxDesc (exampleReductionPHI RecurKind_SMax True))) \<or> isSelectCmpRecurrenceKind (getRecurrenceKind (RP_RdxDesc (exampleReductionPHI RecurKind_SMax True)))) \<and> \<not> True \<longrightarrow>
              SV' = ID \<and>
              (\<exists>a. ID = InstructionVal a (VectorTy (getType (ConstantIntVal (ConstantInt 32 10))) (VF exampleState)) \<and>
                   a < length (Insts (Fn S')) \<and>
                   Operation (Insts (Fn S') ! a) = VectorSplatOp \<and>
                   Operands (Insts (Fn S') ! a) = [(ConstantIntVal (ConstantInt 32 10))]) \<and>
              (\<forall>E s. valueOf E (Fn exampleState) (ConstantIntVal (ConstantInt 32 10)) = Some (Scalar s) \<longrightarrow>
                     valueOf E (Fn S') ID = Some (Lanes (replicate (numLanes E (VF exampleState)) s)))) \<and>
           (\<not> (isMinMaxRecurrenceKind (getRecurrenceKind (RP_RdxDesc (exampleReductionPHI RecurKind_SMax True))) \<or> isSelectCmpRecurrenceKind (getRecurrenceKind (RP_RdxDesc (exampleReductionPHI RecurKind_SMax True)))) \<and> True \<longrightarrow> SV' = (ConstantIntVal (ConstantInt 32 10)) \<and> ID = (ConstantIntVal (ConstantInt 32 10))) \<and>
           (\<not> (isMinMaxRecurrenceKind (getRecurrenceKind (RP_RdxDesc (exampleReductionPHI RecurKind_SMax True))) \<or> isSelectCmpRecurrenceKind (getRecurrenceKind (RP_RdxDesc (exampleReductionPHI RecurKind_SMax True)))) \<and> \<not> True \<longrightarrow>
              (\<exists>a b. ID = InstructionVal a (VectorTy (getType (ConstantIntVal (ConstantInt 32 10))) (VF exampleState)) \<and>
                     SV' = InstructionVal b (VectorTy (getType (ConstantIntVal (ConstantInt 32 10))) (VF exampleState)) \<and>
                     a < length (Insts (Fn S')) \<and> b < length (Insts (Fn S')) \<and>
                     Operation (Insts (Fn S') ! a) = VectorSplatOp \<and>
                     Operands (Insts (Fn S') ! a) = [(ConstantIntVal (ConstantInt 32 10))] \<and>
                     Operation (Insts (Fn S') ! b) = InsertElementOp \<and>
                     Operands (Insts (Fn S') ! b) = [ID, (ConstantIntVal (ConstantInt 32 10)), ConstantIntVal (ConstantInt_get 32 0)]) \<and>
              (\<forall>E s i. valueOf E (Fn exampleState) (ConstantIntVal (ConstantInt 32 10)) = Some (Scalar s) \<and>
                       valueOf E (Fn exampleState) (ConstantIntVal (ConstantInt 32 10)) = Some (Scalar i) \<and> 0 < numLanes E (VF exampleState) \<longrightarrow>
                     valueOf E (Fn S') ID = Some (Lanes (replicate (numLanes E (VF exampleState)) i)) \<and>
                     valueOf E (Fn S') SV' =
                       Some (Lanes ((replicate (numLanes E (VF exampleState)) i)[0 := s])))) \<and>
           (getRecurrenceKind (RP_RdxDesc (exampleReductionPHI RecurKind_SMax True)) = RecurKind_Add \<and> 0 < (2::nat) \<longrightarrow>
              (\<forall>E s. valueOf E (Fn exampleState) (ConstantIntVal (ConstantInt 32 10)) = Some (Scalar s) \<and> 0 < numLanes E (VF exampleState) \<longrightarrow>
                 (\<exists>vs. length vs = 2 \<and>
                    (\<forall>p < 2. valueOf E (Fn S') (if p = 0 then SV' else ID) = Some (vs ! p)) \<and>
                    sum_list (map laneSum vs) = s)))" ..
  then obtain ID where big: "VPReductionPHIRecipe_execute (exampleReductionPHI RecurKind_SMax True) exampleState = Inr S' \<and>
           (\<forall>p < 2. PerPartOutput S' (RP_Def (exampleReductionPHI RecurKind_SMax True), p) =
                       Some (InstructionVal (length (Insts (Fn exampleState)) + p) (IntegerTy 32)) \<and>
                     length (Insts (Fn exampleState)) + p < length (Insts (Fn S')) \<and>
                     Operation (Insts (Fn S') ! (length (Insts (Fn exampleState)) + p)) = PHIOp \<and>
                     Incoming (Insts (Fn S') ! (length (Insts (Fn exampleState)) + p)) =
                       [(if p = 0 then SV' else ID, PreheaderBB exampleState)]) \<and>
           ((isMinMaxRecurrenceKind (getRecurrenceKind (RP_RdxDesc (exampleReductionPHI RecurKind_SMax True))) \<or> isSelectCmpRecurrenceKind (getRecurrenceKind (RP_RdxDesc (exampleReductionPHI RecurKind_SMax True)))) \<and> True \<longrightarrow> SV' = (ConstantIntVal (ConstantInt 32 10)) \<and> ID = (ConstantIntVal (ConstantInt 32 10))) \<and>
           ((isMinMaxRecurrenceKind (getRecurrenceKind (RP_RdxDesc (exampleReductionPHI RecurKind_SMax True))) \<or> isSelectCmpRecurrenceKind (getRecurrenceKind (RP_RdxDesc (exampleReductionPHI RecurKind_SMax True)))) \<and> \<not> True \<longrightarrow>
              SV' = ID \<and>
              (\<exists>a. ID = InstructionVal a (VectorTy (getType (ConstantIntVal (ConstantInt 32 10))) (VF exampleState)) \<and>
                   a < length (Insts (Fn S')) \<and>
                   Operation (Insts (Fn S') ! a) = VectorSplatOp \<and>
                   Operands (Insts (Fn S') ! a) = [(ConstantIntVal (ConstantInt 32 10))]) \<and>
              (\<forall>E s. valueOf E (Fn exampleState) (ConstantIntVal (ConstantInt 32 10)) = Some (Scalar s) \<longrightarrow>
                     valueOf E (Fn S') ID = Some (Lanes (replicate (numLanes E (VF exampleState)) s)))) \<and>
           (\<not> (isMinMaxRecurrenceKind (getRecurrenceKind (RP_RdxDesc (exampleReductionPHI RecurKind_SMax True))) \<or> isSelectCmpRecurrenceKind (getRecurrenceKind (RP_RdxDesc (exampleReductionPHI RecurKind_SMax True)))) \<and> True \<longrightarrow> SV' = (ConstantIntVal (ConstantInt 32 10)) \<and> ID = (ConstantIntVal (ConstantInt 32 10))) \<and>
           (\<not> (isMinMaxRecurrenceKind (getRecurrenceKind (RP_RdxDesc (exampleReductionPHI RecurKind_SMax True))) \<or> isSelectCmpRecurrenceKind (getRecurrenceKind (RP_RdxDesc (exampleReductionPHI RecurKind_SMax True)))) \<and> \<not> True \<longrightarrow>
              (\<exists>a b. ID = InstructionVal a (VectorTy (getType (ConstantIntVal (ConstantInt 32 10))) (VF exampleState)) \<and>
                     SV' = InstructionVal b (VectorTy (getType (ConstantIntVal (ConstantInt 32 10))) (VF exampleState)) \<and>
                     a < length (Insts (Fn S')) \<and> b < length (Insts (Fn S')) \<and>
                     Operation (Insts (Fn S') ! a) = VectorSplatOp \<and>
                     Operands (Insts (Fn S') ! a) = [(ConstantIntVal (ConstantInt 32 10))] \<and>
                     Operation (Insts (Fn S') ! b) = InsertElementOp \<and>
                     Operands (Insts (Fn S') ! b) = [ID, (ConstantIntVal (ConstantInt 32 10)), ConstantIntVal (ConstantInt_get 32 0)]) \<and>
              (\<forall>E s i. valueOf E (Fn exampleState) (ConstantIntVal (ConstantInt 32 10)) = Some (Scalar s) \<and>
                       valueOf E (Fn exampleState) (ConstantIntVal (ConstantInt 32 10)) = Some (Scalar i) \<and> 0 < numLanes E (VF exampleState) \<longrightarrow>
                     valueOf E (Fn S') ID = Some (Lanes (replicate (numLanes E (VF exampleState)) i)) \<and>
                     valueOf E (Fn S') SV' =
                       Some (Lanes ((replicate (numLanes E (VF exampleState)) i)[0 := s])))) \<and>
           (getRecurrenceKind (RP_RdxDesc (exampleReductionPHI RecurKind_SMax True)) = RecurKind_Add \<and> 0 < (2::nat) \<longrightarrow>
              (\<forall>E s. valueOf E (Fn exampleState) (ConstantIntVal (ConstantInt 32 10)) = Some (Scalar s) \<and> 0 < numLanes E (VF exampleState) \<longrightarrow>
                 (\<exists>vs. length vs = 2 \<and>
                    (\<forall>p < 2. valueOf E (Fn S') (if p = 0 then SV' else ID) = Some (vs ! p)) \<and>
                    sum_list (map laneSum vs) = s)))" ..
  note run = big [THEN conjunct1]
  note res = big [THEN conjunct2, THEN conjunct1, rule_format]
  note cA = big [THEN conjunct2, THEN conjunct2, THEN conjunct1]
  have mm: "(isMinMaxRecurrenceKind (getRecurrenceKind (RP_RdxDesc (exampleReductionPHI RecurKind_SMax True))) \<or> isSelectCmpRecurrenceKind (getRecurrenceKind (RP_RdxDesc (exampleReductionPHI RecurKind_SMax True)))) \<and> True"
    by (simp add: exampleReductionPHI_def)
  from cA [THEN mp, OF mm] have seeds: "SV' = (ConstantIntVal (ConstantInt 32 10))" "ID = (ConstantIntVal (ConstantInt 32 10))"
    by simp_all
  have n: "length (Insts (Fn exampleState)) = 3" "PreheaderBB exampleState = 1"
    by (simp_all add: exampleState_def exampleFunction_def)
  have r0: "PerPartOutput S' (2, 0) = Some (InstructionVal 3 (IntegerTy 32))"
    "Incoming (Insts (Fn S') ! 3) = [((ConstantIntVal (ConstantInt 32 10)), 1)]"
    using res [of 0] unfolding n seeds by (simp_all add: exampleReductionPHI_def)
  have r1: "PerPartOutput S' (2, 1) = Some (InstructionVal 4 (IntegerTy 32))"
    "Incoming (Insts (Fn S') ! 4) = [((ConstantIntVal (ConstantInt 32 10)), 1)]"
    using res [of 1] unfolding n seeds by (simp_all add: exampleReductionPHI_def)
  have w: "isVector (VF exampleState)" "UF exampleState = 2" "isVectorTy (IntegerTy 32) = False"
    by (simp_all add: exampleState_def isVector_def)
  have v: "valueOf exampleRunTime (Fn S') (ConstantIntVal (ConstantInt 32 10)) = Some (Scalar 10)"
    by (simp add: valueOf_def)
  from run r0 r1 w v show ?thesis
    by auto
qed

end
